(* ===== verification/Prelude.thy ===== *)
theory Prelude
  imports Main "HOL-Library.Sublist" "HOL-Library.Char_ord" "HOL-Library.List_Lexorder"
    "HOL-Library.Word"
begin

text \<open>
  Shared vocabulary of the development: the machine types of the Rust sources, the parts of
  Rust's standard library the sources use on strings (\<open>find\<close>, \<open>trim\<close>, \<open>split\<close>,
  \<open>join\<close>, \<open>lines\<close>), results with an error side (\<open>Result\<close> is \<open>'e + 'a\<close>, \<open>Inl\<close> the
  error), and ordered maps (\<open>BTreeMap\<close>) as key-sorted association lists.

  A Rust \<open>String\<close> is a sequence of UTF-8 bytes, and so is a HOL \<open>string\<close>
  here: \<open>length\<close> is \<open>str::len\<close>, comparison is bytewise. Where Rust iterates over
  characters the definitions below work on the byte sequences of the characters concerned.
\<close>

section \<open>Machine types and names\<close>

type_synonym bytes = string
type_synonym u8 = "8 word"
type_synonym u32 = "32 word"
type_synonym u64 = "64 word"
type_synonym uuid = "128 word"

text \<open>A \<open>DateTime<Utc>\<close> is a count of nanoseconds since the epoch.\<close>

type_synonym datetime = int

abbreviation nanos_per_sec :: int where
  "nanos_per_sec \<equiv> 1000000000"

named_theorems eval_simps \<open>definitions to unfold when a closed term is evaluated\<close>
named_theorems wf_intros \<open>introduction rules for well-formedness predicates\<close>

section \<open>Results\<close>

text \<open>\<open>iter().map(f).collect::<Result<Vec<_>, _>>()\<close>: the first error wins.\<close>

fun traverse :: "('a \<Rightarrow> 'e + 'b) \<Rightarrow> 'a list \<Rightarrow> 'e + 'b list" where
  "traverse f [] = Inr []"
| "traverse f (x # xs) =
     (case f x of
        Inl e \<Rightarrow> Inl e
      | Inr y \<Rightarrow> (case traverse f xs of Inl e \<Rightarrow> Inl e | Inr ys \<Rightarrow> Inr (y # ys)))"

text \<open>A loop over a list of unit-valued checks with \<open>?\<close>: stop at the first error.\<close>

fun check_all :: "('a \<Rightarrow> 'e + unit) \<Rightarrow> 'a list \<Rightarrow> 'e + unit" where
  "check_all f [] = Inr ()"
| "check_all f (x # xs) = (case f x of Inl e \<Rightarrow> Inl e | Inr _ \<Rightarrow> check_all f xs)"

lemma traverse_Inr_iff:
  "traverse f xs = Inr ys \<longleftrightarrow> list_all2 (\<lambda>x y. f x = Inr y) xs ys"
proof (induction xs arbitrary: ys)
  case Nil
  then show ?case by auto
next
  case (Cons x xs)
  show ?case
  proof (cases "traverse f xs")
    case (Inl e)
    with Cons.IH have "\<not> list_all2 (\<lambda>x y. f x = Inr y) xs zs" for zs by (metis sum.distinct(1))
    with Inl show ?thesis by (auto simp: list_all2_Cons1 split: sum.splits)
  next
    case (Inr zs)
    with Cons.IH have "list_all2 (\<lambda>x y. f x = Inr y) xs ws \<longleftrightarrow> ws = zs" for ws by (metis sum.inject(2))
    with Inr show ?thesis by (auto simp: list_all2_Cons1 split: sum.splits)
  qed
qed

lemma traverse_total:
  "(\<And>x. x \<in> set xs \<Longrightarrow> \<exists>y. f x = Inr y) \<Longrightarrow> \<exists>ys. traverse f xs = Inr ys"
  by (induction xs) (auto split: sum.splits, metis sum.distinct(1))

lemma traverse_InlD: "traverse f xs = Inl e \<Longrightarrow> \<exists>x\<in>set xs. f x = Inl e"
  by (induction xs) (auto split: sum.splits)

lemma check_all_Inr_iff [simp]:
  "check_all f xs = Inr () \<longleftrightarrow> (\<forall>x\<in>set xs. f x = Inr ())"
  by (induction xs) (auto split: sum.splits)

lemma check_all_InlD: "check_all f xs = Inl e \<Longrightarrow> \<exists>x\<in>set xs. f x = Inl e"
  by (induction xs) (auto split: sum.splits)

lemma unit_result_cases: "(r :: 'e + unit) = Inr () \<or> (\<exists>e. r = Inl e)"
  by (cases r) auto

section \<open>Strings\<close>

subsection \<open>Searching and splitting\<close>

text \<open>\<open>str::find\<close> with a string pattern: the byte index of the first occurrence.\<close>

fun str_find :: "string \<Rightarrow> string \<Rightarrow> nat option" where
  "str_find pat [] = (if pat = [] then Some 0 else None)"
| "str_find pat (c # cs) =
     (if prefix pat (c # cs) then Some 0 else map_option Suc (str_find pat cs))"

lemma str_find_Some_prefix:
  "str_find pat s = Some i \<Longrightarrow> prefix pat (drop i s) \<and> i + length pat \<le> length s"
proof (induction s arbitrary: i)
  case Nil
  then show ?case by (auto split: if_splits)
next
  case (Cons c cs)
  show ?case
  proof (cases "prefix pat (c # cs)")
    case True
    with Cons.prems show ?thesis by (auto dest: prefix_length_le)
  next
    case False
    with Cons.prems obtain j where "str_find pat cs = Some j" "i = Suc j" by auto
    with Cons.IH show ?thesis by simp
  qed
qed

lemma str_find_Some_split:
  assumes "str_find pat s = Some i"
  shows "s = take i s @ pat @ drop (i + length pat) s"
proof -
  from str_find_Some_prefix [OF assms] obtain t where t: "drop i s = pat @ t"
    by (auto simp: prefix_def)
  then have "drop (length pat) (drop i s) = t" by (metis append_eq_conv_conj)
  with t have "drop i s = pat @ drop (i + length pat) s"
    by (metis add.commute drop_drop)
  then show ?thesis by (metis append_take_drop_id)
qed

lemma str_find_None_iff: "str_find pat s = None \<longleftrightarrow> \<not> sublist pat s"
proof (induction s)
  case Nil
  then show ?case by simp
next
  case (Cons c cs)
  then show ?case by (simp add: sublist_Cons_right)
qed

text \<open>\<open>str::split\<close> on a single byte: always at least one piece.\<close>

fun split_on :: "char \<Rightarrow> string \<Rightarrow> string list" where
  "split_on d [] = [[]]"
| "split_on d (c # cs) =
     (if c = d then [] # split_on d cs
      else (case split_on d cs of [] \<Rightarrow> [[c]] | p # ps \<Rightarrow> (c # p) # ps))"

lemma split_on_nonempty [simp]: "split_on d s \<noteq> []"
  by (induction s) (auto split: list.splits)

text \<open>\<open>[String]::join\<close>.\<close>

fun join :: "string \<Rightarrow> string list \<Rightarrow> string" where
  "join sep [] = []"
| "join sep [x] = x"
| "join sep (x # y # zs) = x @ sep @ join sep (y # zs)"

lemma join_split_on: "join [d] (split_on d s) = s"
proof (induction s)
  case Nil
  then show ?case by simp
next
  case (Cons c cs)
  show ?case
  proof (cases "split_on d cs")
    case Nil
    then show ?thesis using split_on_nonempty by blast
  next
    case (Cons p ps)
    with Cons.IH show ?thesis by (cases ps) auto
  qed
qed

lemma split_on_no_delim: "d \<notin> set s \<Longrightarrow> split_on d s = [s]"
  by (induction s) auto

lemma split_on_append_delim:
  "d \<notin> set s \<Longrightarrow> split_on d (s @ d # t) = s # split_on d t"
  by (induction s) auto

lemma split_on_pieces: "p \<in> set (split_on d s) \<Longrightarrow> d \<notin> set p \<and> set p \<subseteq> set s"
proof (induction s arbitrary: p)
  case Nil
  then show ?case by simp
next
  case (Cons c cs)
  then show ?case by (cases "split_on d cs") (fastforce split: if_splits)+
qed

text \<open>\<open>str::lines\<close>: pieces between line feeds, without a final empty one or a trailing CR.\<close>

definition strip_cr :: "string \<Rightarrow> string" where
  "strip_cr l = (if l \<noteq> [] \<and> last l = CHR 0x0D then butlast l else l)"

definition str_lines :: "string \<Rightarrow> string list" where
  "str_lines s =
     (let ps = split_on (CHR 0x0A) s
      in map strip_cr (if last ps = [] then butlast ps else ps))"

lemma split_on_lines:
  assumes "\<And>l. l \<in> set ls \<Longrightarrow> d \<notin> set l"
  shows "split_on d (concat (map (\<lambda>l. l @ [d]) ls)) = ls @ [[]]"
  using assms
proof (induction ls)
  case Nil
  then show ?case by simp
next
  case (Cons l ls)
  then have "split_on d (l @ d # concat (map (\<lambda>l. l @ [d]) ls)) = l # split_on d (concat (map (\<lambda>l. l @ [d]) ls))"
    by (intro split_on_append_delim) simp
  with Cons show ?case by simp
qed

lemma str_lines_unlines:
  assumes "\<And>l. l \<in> set ls \<Longrightarrow> CHR 0x0A \<notin> set l \<and> CHR 0x0D \<notin> set l"
  shows "str_lines (concat (map (\<lambda>l. l @ [CHR 0x0A]) ls)) = ls"
proof -
  have "strip_cr l = l" if "l \<in> set ls" for l
    using assms [OF that] last_in_set [of l] unfolding strip_cr_def by metis
  then have "map strip_cr ls = ls" by (rule map_idI)
  moreover have "split_on (CHR 0x0A) (concat (map (\<lambda>l. l @ [CHR 0x0A]) ls)) = ls @ [[]]"
    by (rule split_on_lines) (use assms in blast)
  ultimately show ?thesis by (simp add: str_lines_def)
qed

subsection \<open>Trimming white space\<close>

text \<open>
  \<open>str::trim\<close> removes every leading and trailing character with the Unicode property
  \<open>White_Space\<close>. The table holds the UTF-8 encoding of each of those characters.
\<close>

definition ws_seqs :: "string list" where
  "ws_seqs =
     [[CHR 0x09], [CHR 0x0A], [CHR 0x0B], [CHR 0x0C], [CHR 0x0D], [CHR 0x20],
      [CHR 0xC2, CHR 0x85], [CHR 0xC2, CHR 0xA0],
      [CHR 0xE1, CHR 0x9A, CHR 0x80],
      [CHR 0xE2, CHR 0x80, CHR 0x80], [CHR 0xE2, CHR 0x80, CHR 0x81],
      [CHR 0xE2, CHR 0x80, CHR 0x82], [CHR 0xE2, CHR 0x80, CHR 0x83],
      [CHR 0xE2, CHR 0x80, CHR 0x84], [CHR 0xE2, CHR 0x80, CHR 0x85],
      [CHR 0xE2, CHR 0x80, CHR 0x86], [CHR 0xE2, CHR 0x80, CHR 0x87],
      [CHR 0xE2, CHR 0x80, CHR 0x88], [CHR 0xE2, CHR 0x80, CHR 0x89],
      [CHR 0xE2, CHR 0x80, CHR 0x8A], [CHR 0xE2, CHR 0x80, CHR 0xA8],
      [CHR 0xE2, CHR 0x80, CHR 0xA9], [CHR 0xE2, CHR 0x80, CHR 0xAF],
      [CHR 0xE2, CHR 0x81, CHR 0x9F], [CHR 0xE3, CHR 0x80, CHR 0x80]]"

fun seq_len :: "string list \<Rightarrow> string \<Rightarrow> nat" where
  "seq_len [] s = 0"
| "seq_len (w # ws) s = (if w \<noteq> [] \<and> prefix w s then length w else seq_len ws s)"

lemma seq_len_le: "seq_len ws s \<le> length s"
  by (induction ws) (auto dest: prefix_length_le)

function strip_seqs :: "string list \<Rightarrow> string \<Rightarrow> string" where
  "strip_seqs ws s =
     (if seq_len ws s = 0 then s else strip_seqs ws (drop (seq_len ws s) s))"
  by pat_completeness auto
termination
proof (relation "measure (\<lambda>(ws, s). length s)")
  fix ws s
  assume "seq_len ws s \<noteq> 0"
  with seq_len_le [of ws s]
  show "((ws, drop (seq_len ws s) s), ws, s) \<in> measure (\<lambda>(ws, s). length s)" by simp
qed simp

declare strip_seqs.simps [simp del]

definition trim_start :: "string \<Rightarrow> string" where
  "trim_start s = strip_seqs ws_seqs s"

definition trim_end :: "string \<Rightarrow> string" where
  "trim_end s = rev (strip_seqs (map rev ws_seqs) (rev s))"

definition trim :: "string \<Rightarrow> string" where
  "trim s = trim_end (trim_start s)"

text \<open>Printable ASCII without the space: never the first or last byte of white space.\<close>

definition plain_char :: "char \<Rightarrow> bool" where
  "plain_char c \<longleftrightarrow> CHR 0x21 \<le> c \<and> c \<le> CHR 0x7E"

lemma seq_len_zero:
  "\<forall>w\<in>set ws. w \<noteq> [] \<longrightarrow> \<not> plain_char (hd w) \<Longrightarrow> s = [] \<or> plain_char (hd s) \<Longrightarrow> seq_len ws s = 0"
  by (induction ws) (auto simp: prefix_def)

lemma strip_seqs_id: "seq_len ws s = 0 \<Longrightarrow> strip_seqs ws s = s"
  by (subst strip_seqs.simps) simp

lemma ws_seqs_not_plain:
  "\<forall>w\<in>set ws_seqs. w \<noteq> [] \<longrightarrow> \<not> plain_char (hd w)"
  "\<forall>w\<in>set (map rev ws_seqs). w \<noteq> [] \<longrightarrow> \<not> plain_char (hd w)"
  by (simp_all add: ws_seqs_def plain_char_def less_eq_char_def)

lemma trim_plain:
  assumes "s = [] \<or> plain_char (hd s) \<and> plain_char (last s)"
  shows "trim s = s"
proof -
  have "seq_len ws_seqs s = 0"
    using assms by (intro seq_len_zero [OF ws_seqs_not_plain(1)]) auto
  moreover have "seq_len (map rev ws_seqs) (rev s) = 0"
    using assms by (intro seq_len_zero [OF ws_seqs_not_plain(2)]) (auto simp: hd_rev)
  ultimately show ?thesis by (simp add: trim_def trim_start_def trim_end_def strip_seqs_id)
qed

lemma trim_all_plain: "(\<And>c. c \<in> set s \<Longrightarrow> plain_char c) \<Longrightarrow> trim s = s"
  by (cases s) (auto intro!: trim_plain)

lemma strip_seqs_suffix: "suffix (strip_seqs ws s) s"
proof (induction ws s rule: strip_seqs.induct)
  case (1 ws s)
  show ?case
  proof (cases "seq_len ws s = 0")
    case True
    then show ?thesis by (simp add: strip_seqs_id)
  next
    case False
    with 1 have "suffix (strip_seqs ws (drop (seq_len ws s) s)) (drop (seq_len ws s) s)" by simp
    then have "suffix (strip_seqs ws (drop (seq_len ws s) s)) s"
      by (meson suffix_drop suffix_order.trans)
    with False show ?thesis by (simp add: strip_seqs.simps [of ws s])
  qed
qed

lemma set_trim_subset: "set (trim s) \<subseteq> set s"
proof -
  have "set (strip_seqs ws t) \<subseteq> set t" for ws t
    using strip_seqs_suffix [of ws t] by (rule set_mono_suffix)
  then have "set (trim_end t) \<subseteq> set t" "set (trim_start t) \<subseteq> set t" for t
    by (metis set_rev trim_end_def) (simp add: \<open>\<And>ws t. set (strip_seqs ws t) \<subseteq> set t\<close> trim_start_def)
  then show ?thesis unfolding trim_def by blast
qed

subsection \<open>Character classes\<close>

definition is_lower :: "char \<Rightarrow> bool" where
  "is_lower c \<longleftrightarrow> CHR ''a'' \<le> c \<and> c \<le> CHR ''z''"

definition is_upper :: "char \<Rightarrow> bool" where
  "is_upper c \<longleftrightarrow> CHR ''A'' \<le> c \<and> c \<le> CHR ''Z''"

definition is_digit :: "char \<Rightarrow> bool" where
  "is_digit c \<longleftrightarrow> CHR ''0'' \<le> c \<and> c \<le> CHR ''9''"

text \<open>\<open>char::is_ascii_alphanumeric\<close>.\<close>

definition is_ascii_alphanumeric :: "char \<Rightarrow> bool" where
  "is_ascii_alphanumeric c \<longleftrightarrow> is_lower c \<or> is_upper c \<or> is_digit c"

lemmas char_class_defs [eval_simps] =
  is_lower_def is_upper_def is_digit_def is_ascii_alphanumeric_def less_eq_char_def less_char_def
  plain_char_def

section \<open>Ordered maps\<close>

text \<open>
  \<open>BTreeMap<K, V>\<close>: an association list whose keys are strictly increasing; iteration is
  in list order.
\<close>

type_synonym ('k, 'v) btree = "('k \<times> 'v) list"

definition btree_ok :: "('k::linorder, 'v) btree \<Rightarrow> bool" where
  "btree_ok m \<longleftrightarrow> sorted_wrt (<) (map fst m)"

abbreviation btree_get :: "('k, 'v) btree \<Rightarrow> 'k \<Rightarrow> 'v option" where
  "btree_get \<equiv> map_of"

fun btree_insert :: "'k::linorder \<Rightarrow> 'v \<Rightarrow> ('k, 'v) btree \<Rightarrow> ('k, 'v) btree" where
  "btree_insert k v [] = [(k, v)]"
| "btree_insert k v ((k', v') # m) =
     (if k < k' then (k, v) # (k', v') # m
      else if k = k' then (k, v) # m
      else (k', v') # btree_insert k v m)"

definition btree_keys :: "('k, 'v) btree \<Rightarrow> 'k list" where
  "btree_keys m = map fst m"

text \<open>The contract of an ordered map, and what its clients get from it.\<close>

locale ordered_map =
  fixes get :: "'m \<Rightarrow> 'k \<Rightarrow> 'v option"
    and insert :: "'k \<Rightarrow> 'v \<Rightarrow> 'm \<Rightarrow> 'm"
    and empty :: "'m"
    and ok :: "'m \<Rightarrow> bool"
  assumes get_empty: "get empty k = None"
    and get_insert: "ok m \<Longrightarrow> get (insert k v m) = (get m)(k \<mapsto> v)"
    and ok_empty: "ok empty"
    and ok_insert: "ok m \<Longrightarrow> ok (insert k v m)"
begin

lemma ok_fold_insert: "ok m \<Longrightarrow> ok (fold (\<lambda>(k, v). insert k v) kvs m)"
  by (induction kvs arbitrary: m) (auto simp: ok_insert)

lemma get_fold_insert: "ok m \<Longrightarrow> get (fold (\<lambda>(k, v). insert k v) kvs m) = get m ++ map_of (rev kvs)"
proof (induction kvs arbitrary: m)
  case Nil
  then show ?case by simp
next
  case (Cons kv kvs)
  obtain k v where kv: "kv = (k, v)" by (cases kv)
  with Cons have "get (fold (\<lambda>(k, v). insert k v) (kv # kvs) m) = (get m)(k \<mapsto> v) ++ map_of (rev kvs)"
    by (simp only: fold_simps prod.case ok_insert get_insert)
  then show ?case by (simp add: kv map_add_def fun_eq_iff split: option.split)
qed

lemma dom_fold_insert: "dom (get (fold (\<lambda>(k, v). insert k v) kvs empty)) = fst ` set kvs"
  using get_fold_insert [OF ok_empty, of kvs] by (auto simp: get_empty dom_map_of_conv_image_fst)

end

lemma btree_get_insert: "btree_ok m \<Longrightarrow> btree_get (btree_insert k v m) = (btree_get m)(k \<mapsto> v)"
proof (induction m)
  case Nil
  then show ?case by simp
next
  case (Cons kv m)
  then show ?case by (cases kv) (fastforce simp: btree_ok_def fun_eq_iff)
qed

lemma fst_set_btree_insert: "fst ` set (btree_insert k v m) = insert k (fst ` set m)"
proof (induction m)
  case Nil
  then show ?case by simp
next
  case (Cons kv m)
  then show ?case by (cases kv) (auto simp: image_insert)
qed

lemma btree_ok_insert: "btree_ok m \<Longrightarrow> btree_ok (btree_insert k v m)"
proof (induction m)
  case Nil
  then show ?case by (simp add: btree_ok_def)
next
  case (Cons kv m)
  then show ?case
    using fst_set_btree_insert [of k v m] by (cases kv) (fastforce simp: btree_ok_def)
qed

interpretation bt: ordered_map btree_get "btree_insert :: 'k::linorder \<Rightarrow> 'v \<Rightarrow> _" "[]" btree_ok
  by unfold_locales (simp_all add: btree_get_insert btree_ok_insert, simp add: btree_ok_def)

lemma btree_ok_Nil [simp, wf_intros]: "btree_ok []"
  by (simp add: btree_ok_def)

lemma btree_ok_distinct: "btree_ok m \<Longrightarrow> distinct (map fst m)"
  unfolding btree_ok_def by (simp add: strict_sorted_iff)

lemma btree_mem_iff: "btree_ok m \<Longrightarrow> (k, v) \<in> set m \<longleftrightarrow> btree_get m k = Some v"
  using btree_ok_distinct by (metis map_of_eq_Some_iff)

text \<open>\<open>entry(k).or_default()\<close> followed by a change of the value; a loop of them groups by key.\<close>

definition btree_alter :: "('v option \<Rightarrow> 'v) \<Rightarrow> 'k::linorder \<Rightarrow> ('k, 'v) btree \<Rightarrow> ('k, 'v) btree" where
  "btree_alter f k m = btree_insert k (f (btree_get m k)) m"

lemma btree_alter_fold:
  assumes "btree_ok m"
  shows "btree_ok (fold (\<lambda>x. btree_alter (f x) (key x)) xs m)
    \<and> btree_get (fold (\<lambda>x. btree_alter (f x) (key x)) xs m) k =
        fold (\<lambda>x v. Some (f x v)) (filter (\<lambda>x. key x = k) xs) (btree_get m k)"
  using assms
proof (induction xs arbitrary: m)
  case (Cons x xs)
  then show ?case by (auto simp: btree_alter_def btree_ok_insert btree_get_insert)
qed simp

lemma btree_ext:
  assumes "btree_ok m" "btree_ok n" "btree_get m = btree_get n"
  shows "m = n"
proof -
  have "set m = set n"
    using assms by (auto simp: btree_mem_iff)
  moreover have "sorted_wrt (<) (map fst m)" "sorted_wrt (<) (map fst n)"
    using assms by (simp_all add: btree_ok_def)
  ultimately have "map fst m = map fst n"
    by (metis list.set_map strict_sorted_equal)
  moreover have "kvs = map (\<lambda>k. (k, the (btree_get kvs k))) (map fst kvs)" if "btree_ok kvs" for kvs :: "('a, 'b) btree"
    using that by (auto simp: btree_mem_iff intro!: map_idI [symmetric])
  ultimately show ?thesis by (metis assms)
qed

section \<open>Transition systems\<close>

text \<open>The contract of an invariant: it holds at the start and every step keeps it.\<close>

locale transition_invariant =
  fixes init :: "'s \<Rightarrow> bool" and step :: "'s \<Rightarrow> 's \<Rightarrow> bool" and inv :: "'s \<Rightarrow> bool"
  assumes init_inv: "init s \<Longrightarrow> inv s"
    and step_inv: "inv s \<Longrightarrow> step s s' \<Longrightarrow> inv s'"
begin

lemma steps_inv: "step\<^sup>*\<^sup>* s s' \<Longrightarrow> inv s \<Longrightarrow> inv s'"
  by (induction rule: rtranclp_induct) (auto intro: step_inv)

lemma reachable_inv: "init s \<Longrightarrow> step\<^sup>*\<^sup>* s s' \<Longrightarrow> inv s'"
  using steps_inv init_inv by blast

end

lemma rtranclp_two_steps: "r a b \<Longrightarrow> r b c \<Longrightarrow> r\<^sup>*\<^sup>* a c"
  by (meson r_into_rtranclp rtranclp.rtrancl_into_rtrancl)

end
