(* ===== verification/Core_Types.thy ===== *)
theory Core_Types
  imports Prelude
begin

text \<open>
  The shared schema of \<^verbatim>\<open>crates/ravn-core/src\<close>: detection events and their payloads
  (\<^verbatim>\<open>event.rs\<close>, \<^verbatim>\<open>payload.rs\<close>, \<^verbatim>\<open>message.rs\<close>, \<^verbatim>\<open>heartbeat.rs\<close>,
  \<^verbatim>\<open>enrollment.rs\<close>) and the remediation types (\<^verbatim>\<open>remediation.rs\<close>). Every struct is a
  record and every enum a datatype with the source's constructors and fields; field names carry a
  prefix per record because HOL selectors are global. The severity and risk-tier enums get the
  order that their \<open>derive(Ord)\<close> gives them.
\<close>

section \<open>JSON values\<close>

text \<open>
  \<open>serde_json::Value\<close>. Numbers are integers: the sources build and read integer numbers only.
\<close>

datatype json =
    JNull
  | JBool bool
  | JNum int
  | JStr string
  | JArr "json list"
  | JObj "(string \<times> json) list"

type_synonym extra = "(string, json) btree"

section \<open>Detection events\<close>

datatype agent_id = AgentId (agent_uuid: uuid)

datatype severity = Info | Notice | Warning | Error | Critical

datatype source =
  SrcJournald | SrcFailedUnit | SrcConfigDrift | SrcAuth | SrcUpdate | SrcKubeWorkload
| SrcKubeNode | SrcRavnInternal

record journald_payload =
  jd_unit :: "string option"
  jd_priority :: "u8 option"
  jd_message :: string
  jd_extra :: extra

record failed_unit_payload =
  fu_unit :: string
  fu_result :: string
  fu_recent_log :: "string list"
  fu_extra :: extra

record config_drift_payload =
  cd_path :: string
  cd_old_hash :: "string option"
  cd_new_hash :: string
  cd_diff :: "string option"
  cd_extra :: extra

record auth_payload =
  au_action :: string
  au_user :: "string option"
  au_remote_addr :: "string option"
  au_succeeded :: bool
  au_extra :: extra

record update_payload =
  up_mechanism :: string
  up_from :: "string option"
  up_to :: "string option"
  up_changes :: "string list"
  up_extra :: extra

record kube_workload_payload =
  kw_namespace :: string
  kw_object_kind :: string
  kw_name :: string
  kw_reason :: string
  kw_message :: "string option"
  kw_count :: "u32 option"
  kw_container :: "string option"
  kw_extra :: extra

record kube_node_payload =
  kn_node :: string
  kn_condition :: string
  kn_message :: "string option"
  kn_extra :: extra

record circuit_breaker_trip_payload =
  cb_host :: string
  cb_template_id :: string

datatype payload =
    Journald journald_payload
  | FailedUnit failed_unit_payload
  | ConfigDrift config_drift_payload
  | Auth auth_payload
  | Update update_payload
  | KubeWorkload kube_workload_payload
  | KubeNode kube_node_payload
  | CircuitBreakerTrip circuit_breaker_trip_payload

fun payload_source :: "payload \<Rightarrow> source" where
  "payload_source (Journald _) = SrcJournald"
| "payload_source (FailedUnit _) = SrcFailedUnit"
| "payload_source (ConfigDrift _) = SrcConfigDrift"
| "payload_source (Auth _) = SrcAuth"
| "payload_source (Update _) = SrcUpdate"
| "payload_source (KubeWorkload _) = SrcKubeWorkload"
| "payload_source (KubeNode _) = SrcKubeNode"
| "payload_source (CircuitBreakerTrip _) = SrcRavnInternal"

record event =
  ev_id :: uuid
  ev_occurred_at :: datetime
  ev_observed_at :: datetime
  ev_agent_id :: agent_id
  ev_host :: string
  ev_severity :: severity
  ev_title :: string
  ev_category_hints :: "string list"
  ev_payload :: payload

definition event_source :: "event \<Rightarrow> source" where
  "event_source e = payload_source (ev_payload e)"

record explanation =
  ex_text :: string
  ex_suggested_check :: "string option"
  ex_model :: string
  ex_generated_at :: datetime

record message =
  msg_event :: event
  msg_explanation :: "explanation option"

definition message_new :: "event \<Rightarrow> message" where
  "message_new e = \<lparr>msg_event = e, msg_explanation = None\<rparr>"

record heartbeat =
  hb_agent_id :: agent_id
  hb_host :: string
  hb_sent_at :: datetime
  hb_uptime_secs :: u64
  hb_last_detection :: "datetime option"
  hb_inference_enabled :: bool
  hb_events_published :: u64

record enroll_request =
  er_bootstrap_token :: string
  er_agent_id :: agent_id
  er_host :: string
  er_csr_pem :: string

record enroll_response =
  es_agent_id :: agent_id
  es_certificate_pem :: string
  es_ca_certificate_pem :: string
  es_command_signing_pubkey :: string
  es_command_keyring :: string
  es_not_after :: datetime

text \<open>The severity of a Kubernetes event reason, \<open>kube_severity_for_reason\<close>.\<close>

definition kube_severity_for_reason :: "string \<Rightarrow> severity" where
  "kube_severity_for_reason reason =
     (if reason \<in> {''OOMKilled'', ''Evicted'', ''NodeNotReady'', ''SystemOOM''} then Critical
      else if reason \<in> {''CrashLoopBackOff'', ''BackOff'', ''FailedMount'', ''FailedCreatePodSandBox''}
        then Error
      else if reason \<in> {''Unhealthy'', ''MemoryPressure'', ''DiskPressure'', ''PIDPressure''} then Error
      else if reason \<in> {''FailedScheduling'', ''ImagePullBackOff'', ''ErrImagePull'', ''ProbeWarning''}
        then Warning
      else if reason \<in> {''Created'', ''Started'', ''Pulled'', ''Scheduled'', ''SuccessfulCreate''}
        then Info
      else Warning)"

section \<open>Orders on the enums\<close>

fun severity_rank :: "severity \<Rightarrow> nat" where
  "severity_rank Info = 0"
| "severity_rank Notice = 1"
| "severity_rank Warning = 2"
| "severity_rank Error = 3"
| "severity_rank Critical = 4"

lemma severity_rank_inj: "severity_rank a = severity_rank b \<Longrightarrow> a = b"
  by (cases a; cases b) auto

instantiation severity :: linorder
begin

definition less_eq_severity :: "severity \<Rightarrow> severity \<Rightarrow> bool" where
  "less_eq_severity a b \<longleftrightarrow> severity_rank a \<le> severity_rank b"

definition less_severity :: "severity \<Rightarrow> severity \<Rightarrow> bool" where
  "less_severity a b \<longleftrightarrow> severity_rank a < severity_rank b"

instance
  by intro_classes
    (auto simp: less_eq_severity_def less_severity_def dest: severity_rank_inj)

end

datatype risk_tier = Safe | Guarded | Dangerous

fun tier_rank :: "risk_tier \<Rightarrow> nat" where
  "tier_rank Safe = 0"
| "tier_rank Guarded = 1"
| "tier_rank Dangerous = 2"

lemma tier_rank_inj: "tier_rank a = tier_rank b \<Longrightarrow> a = b"
  by (cases a; cases b) auto

instantiation risk_tier :: linorder
begin

definition less_eq_risk_tier :: "risk_tier \<Rightarrow> risk_tier \<Rightarrow> bool" where
  "less_eq_risk_tier a b \<longleftrightarrow> tier_rank a \<le> tier_rank b"

definition less_risk_tier :: "risk_tier \<Rightarrow> risk_tier \<Rightarrow> bool" where
  "less_risk_tier a b \<longleftrightarrow> tier_rank a < tier_rank b"

instance
  by intro_classes
    (auto simp: less_eq_risk_tier_def less_risk_tier_def dest: tier_rank_inj)

end

section \<open>Remediation types\<close>

datatype capability =
    ResetFailed string
  | RestartUnit string
  | UnitState string
  | NixRollback
  | DeletePod string string
  | RestartDeployment string string
  | PodState string string

definition is_read_only :: "capability \<Rightarrow> bool" where
  "is_read_only c = (case c of UnitState _ \<Rightarrow> True | PodState _ _ \<Rightarrow> True | _ \<Rightarrow> False)"

record condition =
  cond_check :: capability
  cond_equals :: string

record verify =
  vf_check :: capability
  vf_equals :: string
  vf_timeout_s :: u64

definition default_verify_timeout :: u64 where
  "default_verify_timeout = 30"

datatype rollback = RollbackNone | NixGeneration

datatype param_type = ParamString

record parameter_spec =
  ps_ty :: param_type
  ps_from :: string

record template_match =
  tm_source :: source
  tm_conditions :: "(string, string) btree"

record template =
  tpl_id :: string
  tpl_version :: u32
  tpl_title :: string
  tpl_risk_tier :: risk_tier
  tpl_match :: template_match
  tpl_parameters :: "(string, parameter_spec) btree"
  tpl_preconditions :: "condition list"
  tpl_steps :: "capability list"
  tpl_verify :: "verify option"
  tpl_rollback :: rollback

datatype approval_ref = PolicyAuto | Human string datetime

record envelope =
  env_command_id :: uuid
  env_agent_id :: agent_id
  env_template_id :: string
  env_template_version :: u32
  env_risk_tier :: risk_tier
  env_preconditions :: "condition list"
  env_steps :: "capability list"
  env_verify :: "verify option"
  env_rollback :: rollback
  env_approval_ref :: approval_ref
  env_nonce :: string
  env_issued_at :: datetime
  env_expires_at :: datetime
  env_kid :: "string option"
  env_sig :: "string option"

datatype action_status = Succeeded | PreconditionFailed | Failed | Rejected | Frozen

text \<open>
  \<open>ExecError\<close> wraps a message. The message is kept as the format it was made with and that
  format's arguments: one constructor per \<open>ExecError(format!(..))\<close> of the two executors.
\<close>

datatype exec_error =
    SpawnFailed "string list" string
  | ExitFailed "string list" string string
  | ReachedSystemctl capability
  | InvalidNamespace string
  | InvalidKubeName string string
  | DeletePodFailed string string string
  | PatchDeploymentFailed string string string
  | ListPodsFailed string string
  | NoPodWithPrefix string string
  | HostCapabilityUnsupported

text \<open>
  \<open>ActionResult.detail\<close> is text for a human. It is kept here as the format it was made with
  and that format's arguments: one constructor per \<open>format!\<close> of the actuator and the agent,
  and \<open>DText\<close> for text that is passed through.
\<close>

datatype detail =
    DText string
  | DInvalidUnit string
  | DInvalidKubeId string string
  | DPreconditionFailed string string
  | DPreconditionErrored exec_error
  | DStepFailed exec_error
  | DVerifyFailed string string
  | DVerifyErrored exec_error
  | DRolledBack detail
  | DRollbackFailed detail exec_error
  | DDispatchFailed string

record action_result =
  res_command_id :: uuid
  res_status :: action_status
  res_detail :: "detail option"
  res_observed_state :: "string option"
  res_finished_at :: datetime

record proposal =
  pr_id :: uuid
  pr_event_id :: uuid
  pr_agent_id :: agent_id
  pr_host :: string
  pr_template_id :: string
  pr_template_version :: u32
  pr_risk_tier :: risk_tier
  pr_params :: "(string, string) btree"
  pr_rationale :: string
  pr_created_at :: datetime

datatype decision =
    Pending
  | Approved approval_ref
  | RejectedBy string datetime "string option"

record remediation_record =
  rr_proposal :: proposal
  rr_decision :: decision
  rr_command_id :: "uuid option"
  rr_signature :: "string option"
  rr_result :: "action_result option"
  rr_updated_at :: datetime

text \<open>Every check an envelope carries, in the order the actuator looks at them.\<close>

definition envelope_capabilities :: "envelope \<Rightarrow> capability list" where
  "envelope_capabilities e =
     map cond_check (env_preconditions e) @ env_steps e
       @ (case env_verify e of None \<Rightarrow> [] | Some v \<Rightarrow> [vf_check v])"

end
