(* ===== verification/Templates.thy ===== *)
theory Templates
  imports Core_Types
begin

text \<open>
  The functions of \<^verbatim>\<open>crates/ravn-core/src/remediation.rs\<close> on templates and capabilities:
  Kubernetes identifier validation, \<open>{{param}}\<close> placeholder resolution
  (\<open>resolve_str\<close>, \<open>Capability::resolve\<close>) and structural template validation
  (\<open>Template::validate\<close>). The placeholder loops are proved equal to a parse of the raw
  string into literal and placeholder segments followed by one substitution.
\<close>

section \<open>Kubernetes identifiers\<close>

definition label_edge :: "char \<Rightarrow> bool" where
  "label_edge c \<longleftrightarrow> is_lower c \<or> is_digit c"

definition label_char :: "char \<Rightarrow> bool" where
  "label_char c \<longleftrightarrow> is_lower c \<or> is_digit c \<or> c = CHR ''-''"

definition is_valid_k8s_label :: "string \<Rightarrow> bool" where
  "is_valid_k8s_label s =
     (if s = [] \<or> length s > 63 then False
      else if \<not> label_edge (hd s) then False
      else if \<not> label_edge (s ! (length s - 1)) then False
      else list_all label_char s)"

definition is_valid_k8s_subdomain :: "string \<Rightarrow> bool" where
  "is_valid_k8s_subdomain s =
     (if s = [] \<or> length s > 253 then False
      else list_all is_valid_k8s_label (split_on (CHR ''.'') s))"

lemmas label_defs [eval_simps] =
  label_edge_def label_char_def is_valid_k8s_label_def is_valid_k8s_subdomain_def

lemma valid_label_chars: "is_valid_k8s_label s \<Longrightarrow> c \<in> set s \<Longrightarrow> label_char c"
  by (auto simp: is_valid_k8s_label_def list_all_iff split: if_splits)

lemma label_char_plain: "label_char c \<Longrightarrow> plain_char c"
  by (auto simp: label_char_def char_class_defs)

lemma label_char_safe:
  "label_char c \<Longrightarrow>
     c \<noteq> CHR ''{'' \<and> c \<noteq> CHR ''}'' \<and> c \<noteq> CHR ''/'' \<and> c \<noteq> CHR ''.'' \<and> c \<noteq> CHR '' '' \<and> c \<noteq> CHR ''%''"
  by (auto simp: label_char_def char_class_defs)

section \<open>Placeholder resolution\<close>

datatype render_error = MissingValue string | InvalidKubeIdentifier string string

type_synonym params = "(string, string) btree"

text \<open>The \<open>while let\<close> loop of \<open>resolve_str\<close>, with its two locals.\<close>

function resolve_loop :: "string \<Rightarrow> string \<Rightarrow> params \<Rightarrow> render_error + string" where
  "resolve_loop out rest vals =
     (case str_find ''{{'' rest of
        None \<Rightarrow> Inr (out @ rest)
      | Some start \<Rightarrow>
          let out' = out @ take start rest;
              after = drop (start + 2) rest
          in case str_find ''}}'' after of
               None \<Rightarrow> Inr (out' @ drop start rest)
             | Some en \<Rightarrow>
                 let name = trim (take en after)
                 in case btree_get vals name of
                      None \<Rightarrow> Inl (MissingValue name)
                    | Some v \<Rightarrow> resolve_loop (out' @ v) (drop (en + 2) after) vals)"
  by pat_completeness auto
termination
  by (relation "measure (\<lambda>(out, rest, vals). length rest)")
    (auto dest!: str_find_Some_prefix)

declare resolve_loop.simps [simp del]

definition resolve_str :: "string \<Rightarrow> params \<Rightarrow> render_error + string" where
  "resolve_str raw vals = resolve_loop [] raw vals"

function placeholders_in_str :: "string \<Rightarrow> string list" where
  "placeholders_in_str rest =
     (case str_find ''{{'' rest of
        None \<Rightarrow> []
      | Some start \<Rightarrow>
          let after = drop (start + 2) rest
          in case str_find ''}}'' after of
               None \<Rightarrow> []
             | Some en \<Rightarrow> trim (take en after) # placeholders_in_str (drop (en + 2) after))"
  by pat_completeness auto
termination
  by (relation "measure length") (auto dest!: str_find_Some_prefix)

declare placeholders_in_str.simps [simp del]

fun placeholders_in_capability :: "capability \<Rightarrow> string list" where
  "placeholders_in_capability (ResetFailed u) = placeholders_in_str u"
| "placeholders_in_capability (RestartUnit u) = placeholders_in_str u"
| "placeholders_in_capability (UnitState u) = placeholders_in_str u"
| "placeholders_in_capability NixRollback = []"
| "placeholders_in_capability (DeletePod ns p) = placeholders_in_str ns @ placeholders_in_str p"
| "placeholders_in_capability (RestartDeployment ns d) = placeholders_in_str ns @ placeholders_in_str d"
| "placeholders_in_capability (PodState ns p) = placeholders_in_str ns @ placeholders_in_str p"

text \<open>The two-identifier arms of \<open>Capability::resolve\<close> share this check sequence.\<close>

definition resolve_kube_pair ::
  "string \<Rightarrow> string \<Rightarrow> string \<Rightarrow> params \<Rightarrow> (string \<Rightarrow> string \<Rightarrow> capability) \<Rightarrow> render_error + capability" where
  "resolve_kube_pair ns field nm vals mk =
     (case resolve_str ns vals of
        Inl e \<Rightarrow> Inl e
      | Inr ns' \<Rightarrow>
          (case resolve_str nm vals of
             Inl e \<Rightarrow> Inl e
           | Inr nm' \<Rightarrow>
               if \<not> is_valid_k8s_label ns' then Inl (InvalidKubeIdentifier ''namespace'' ns')
               else if \<not> is_valid_k8s_label nm' then Inl (InvalidKubeIdentifier field nm')
               else Inr (mk ns' nm')))"

fun resolve :: "capability \<Rightarrow> params \<Rightarrow> render_error + capability" where
  "resolve (ResetFailed u) vals = map_sum id ResetFailed (resolve_str u vals)"
| "resolve (RestartUnit u) vals = map_sum id RestartUnit (resolve_str u vals)"
| "resolve (UnitState u) vals = map_sum id UnitState (resolve_str u vals)"
| "resolve NixRollback vals = Inr NixRollback"
| "resolve (DeletePod ns p) vals = resolve_kube_pair ns ''pod'' p vals DeletePod"
| "resolve (RestartDeployment ns d) vals = resolve_kube_pair ns ''deployment'' d vals RestartDeployment"
| "resolve (PodState ns p) vals = resolve_kube_pair ns ''pod_prefix'' p vals PodState"

section \<open>Template validation\<close>

datatype template_error = UndeclaredParameter string | NonReadOnlyCheck | NoSteps

definition check_placeholders :: "string list \<Rightarrow> capability \<Rightarrow> template_error + unit" where
  "check_placeholders declared c =
     check_all (\<lambda>tok. if tok \<in> set declared then Inr () else Inl (UndeclaredParameter tok))
       (placeholders_in_capability c)"

definition check_condition :: "string list \<Rightarrow> capability \<Rightarrow> template_error + unit" where
  "check_condition declared c =
     (if \<not> is_read_only c then Inl NonReadOnlyCheck else check_placeholders declared c)"

definition validate :: "template \<Rightarrow> template_error + unit" where
  "validate t =
     (let declared = btree_keys (tpl_parameters t)
      in case check_all (\<lambda>c. check_condition declared (cond_check c)) (tpl_preconditions t) of
           Inl e \<Rightarrow> Inl e
         | Inr _ \<Rightarrow>
             (case check_all (check_placeholders declared) (tpl_steps t) of
                Inl e \<Rightarrow> Inl e
              | Inr _ \<Rightarrow>
                  (case (case tpl_verify t of None \<Rightarrow> Inr () | Some v \<Rightarrow> check_condition declared (vf_check v)) of
                     Inl e \<Rightarrow> Inl e
                   | Inr _ \<Rightarrow> if tpl_steps t = [] then Inl NoSteps else Inr ())))"

section \<open>Segments: what the loops compute\<close>

text \<open>
  A raw template string is a sequence of literals and placeholders (with the text between the
  braces as written); an unclosed \<open>{{\<close> is literal text. Printing the segments gives the raw
  string back.
\<close>

datatype segment = Lit string | Ph string

function segments :: "string \<Rightarrow> segment list" where
  "segments rest =
     (case str_find ''{{'' rest of
        None \<Rightarrow> [Lit rest]
      | Some start \<Rightarrow>
          (case str_find ''}}'' (drop (start + 2) rest) of
             None \<Rightarrow> [Lit (take start rest), Lit (drop start rest)]
           | Some en \<Rightarrow>
               Lit (take start rest) # Ph (take en (drop (start + 2) rest))
                 # segments (drop (en + 2) (drop (start + 2) rest))))"
  by pat_completeness auto
termination
  by (relation "measure length") (auto dest!: str_find_Some_prefix)

declare segments.simps [simp del]

fun render :: "params \<Rightarrow> segment list \<Rightarrow> render_error + string" where
  "render vals [] = Inr []"
| "render vals (Lit s # segs) = map_sum id ((@) s) (render vals segs)"
| "render vals (Ph n # segs) =
     (case btree_get vals (trim n) of
        None \<Rightarrow> Inl (MissingValue (trim n))
      | Some v \<Rightarrow> map_sum id ((@) v) (render vals segs))"

fun ph_names :: "segment list \<Rightarrow> string list" where
  "ph_names [] = []"
| "ph_names (Lit s # segs) = ph_names segs"
| "ph_names (Ph n # segs) = trim n # ph_names segs"

fun unparse :: "segment list \<Rightarrow> string" where
  "unparse [] = []"
| "unparse (Lit s # segs) = s @ unparse segs"
| "unparse (Ph n # segs) = ''{{'' @ n @ ''}}'' @ unparse segs"

lemma unparse_segments: "unparse (segments raw) = raw"
proof (induction raw rule: segments.induct)
  case (1 rest)
  show ?case
  proof (cases "str_find ''{{'' rest")
    case None
    then show ?thesis by (simp add: segments.simps [of rest])
  next
    case (Some start)
    note st = Some
    show ?thesis
    proof (cases "str_find ''}}'' (drop (start + 2) rest)")
      case None
      with st show ?thesis by (simp add: segments.simps [of rest])
    next
      case (Some en)
      have "rest = take start rest @ ''{{'' @ drop (start + 2) rest"
        using str_find_Some_split [OF st] by simp
      also have "drop (start + 2) rest
          = take en (drop (start + 2) rest) @ ''}}'' @ drop (en + 2) (drop (start + 2) rest)"
        using str_find_Some_split [OF Some] by simp
      finally show ?thesis
        using 1 [OF st Some] st Some by (simp add: segments.simps [of rest])
    qed
  qed
qed

lemma resolve_loop_segments: "resolve_loop out rest vals = map_sum id ((@) out) (render vals (segments rest))"
proof (induction out rest vals rule: resolve_loop.induct)
  case (1 out rest vals)
  show ?case
  proof (cases "str_find ''{{'' rest")
    case None
    then show ?thesis by (simp add: resolve_loop.simps [of out] segments.simps [of rest])
  next
    case (Some start)
    note st = Some
    define after where "after = drop (start + 2) rest"
    show ?thesis
    proof (cases "str_find ''}}'' after")
      case None
      with st show ?thesis
        by (simp add: resolve_loop.simps [of out] segments.simps [of rest] after_def)
    next
      case (Some en)
      define nm where "nm = trim (take en after)"
      show ?thesis
      proof (cases "btree_get vals nm")
        case None
        with st Some show ?thesis
          by (simp add: resolve_loop.simps [of out] segments.simps [of rest] after_def nm_def Let_def)
      next
        case (Some v)
        with 1 [OF st refl after_def \<open>str_find ''}}'' after = Some en\<close> nm_def Some]
        show ?thesis
          using st Some \<open>str_find ''}}'' after = Some en\<close>
          by (simp add: resolve_loop.simps [of out] segments.simps [of rest] after_def nm_def
              Let_def sum.map_comp o_def)
      qed
    qed
  qed
qed

lemma resolve_str_segments: "resolve_str raw vals = render vals (segments raw)"
  by (cases "render vals (segments raw)") (simp_all add: resolve_str_def resolve_loop_segments)

lemma placeholders_segments: "placeholders_in_str raw = ph_names (segments raw)"
proof (induction raw rule: placeholders_in_str.induct)
  case (1 rest)
  then show ?case
    by (simp add: placeholders_in_str.simps [of rest] segments.simps [of rest] Let_def split: option.split)
qed

lemma render_Inr: "set (ph_names segs) \<subseteq> dom (btree_get vals) \<Longrightarrow> \<exists>s. render vals segs = Inr s"
  by (induction vals segs rule: render.induct) auto

lemma render_Inl:
  "render vals segs = Inl e \<longleftrightarrow>
     (\<exists>pre n post. ph_names segs = pre @ n # post \<and> set pre \<subseteq> dom (btree_get vals)
        \<and> btree_get vals n = None \<and> e = MissingValue n)"
proof (induction vals segs rule: render.induct)
  case (1 vals)
  then show ?case by simp
next
  case (2 vals s segs)
  then show ?case by (cases "render vals segs") auto
next
  case (3 vals n segs)
  let ?P = "\<lambda>ns. \<exists>pre m post. ns = pre @ m # post \<and> set pre \<subseteq> dom (btree_get vals)
        \<and> btree_get vals m = None \<and> e = MissingValue m"
  show ?case
  proof (cases "btree_get vals (trim n)")
    case None
    then have "ph_names (Ph n # segs) = [] @ trim n # ph_names segs" "set [] \<subseteq> dom (btree_get vals)"
      by simp_all
    with None show ?thesis by (fastforce simp: Cons_eq_append_conv)
  next
    case (Some v)
    have "render vals (Ph n # segs) = Inl e \<longleftrightarrow> render vals segs = Inl e"
      using Some by (cases "render vals segs") auto
    also have "\<dots> \<longleftrightarrow> ?P (ph_names segs)"
      using 3 [OF Some] .
    also have "\<dots> \<longleftrightarrow> ?P (ph_names (Ph n # segs))"
    proof
      assume "?P (ph_names segs)"
      then obtain pre m post where "ph_names segs = pre @ m # post" "set pre \<subseteq> dom (btree_get vals)"
          "btree_get vals m = None" "e = MissingValue m" by blast
      with Some show "?P (ph_names (Ph n # segs))"
        by (intro exI [of _ "trim n # pre"] exI [of _ m] exI [of _ post]) auto
    next
      assume "?P (ph_names (Ph n # segs))"
      with Some show "?P (ph_names segs)" by (fastforce simp: Cons_eq_append_conv)
    qed
    finally show ?thesis .
  qed
qed

lemma resolve_str_Inr:
  "set (placeholders_in_str raw) \<subseteq> dom (btree_get vals) \<Longrightarrow> \<exists>s. resolve_str raw vals = Inr s"
  by (simp add: resolve_str_segments placeholders_segments render_Inr)

lemma resolve_str_no_braces:
  "\<not> sublist ''{{'' raw \<Longrightarrow> resolve_str raw vals = Inr raw"
  by (simp add: resolve_str_segments segments.simps [of raw] str_find_None_iff [symmetric])

section \<open>Capabilities\<close>

definition is_kube_capability :: "capability \<Rightarrow> bool" where
  "is_kube_capability c =
     (case c of DeletePod _ _ \<Rightarrow> True | RestartDeployment _ _ \<Rightarrow> True | PodState _ _ \<Rightarrow> True | _ \<Rightarrow> False)"

text \<open>The Kubernetes identifiers of a capability, with the field they stand in.\<close>

fun capability_kube_ids :: "capability \<Rightarrow> (string \<times> string) list" where
  "capability_kube_ids (DeletePod ns p) = [(''namespace'', ns), (''pod'', p)]"
| "capability_kube_ids (RestartDeployment ns d) = [(''namespace'', ns), (''deployment'', d)]"
| "capability_kube_ids (PodState ns p) = [(''namespace'', ns), (''pod_prefix'', p)]"
| "capability_kube_ids _ = []"

lemma valid_label_no_braces: "is_valid_k8s_label s \<Longrightarrow> \<not> sublist ''{{'' s"
  by (metis append_Cons in_set_conv_decomp label_char_safe sublist_def valid_label_chars)

lemma resolve_kube_pair_Inr:
  "resolve_kube_pair ns f nm vals mk = Inr c \<longleftrightarrow>
     (\<exists>ns' nm'. resolve_str ns vals = Inr ns' \<and> resolve_str nm vals = Inr nm'
        \<and> is_valid_k8s_label ns' \<and> is_valid_k8s_label nm' \<and> c = mk ns' nm')"
  by (auto simp: resolve_kube_pair_def split: sum.splits)

lemma resolve_kube_pair_missing:
  "resolve_kube_pair ns f nm vals mk = Inl (MissingValue n) \<Longrightarrow>
     resolve_str ns vals = Inl (MissingValue n) \<or> resolve_str nm vals = Inl (MissingValue n)"
  by (auto simp: resolve_kube_pair_def split: sum.splits if_splits)

lemma resolve_kube_ids:
  "resolve c vals = Inr c' \<Longrightarrow> (f, i) \<in> set (capability_kube_ids c') \<Longrightarrow> is_valid_k8s_label i"
  by (cases c) (auto simp: resolve_kube_pair_Inr map_sum_def split: sum.splits)

lemma resolve_is_kube [simp]: "resolve c vals = Inr c' \<Longrightarrow> is_kube_capability c' = is_kube_capability c"
  by (cases c) (auto simp: resolve_kube_pair_Inr is_kube_capability_def map_sum_def split: sum.splits)

lemma resolve_is_read_only: "resolve c vals = Inr c' \<Longrightarrow> is_read_only c' = is_read_only c"
  by (cases c) (auto simp: resolve_kube_pair_Inr is_read_only_def map_sum_def split: sum.splits)

lemma resolve_str_not_missing:
  "set (placeholders_in_str raw) \<subseteq> dom (btree_get vals) \<Longrightarrow> resolve_str raw vals \<noteq> Inl e"
  using resolve_str_Inr by fastforce

lemma resolve_not_missing:
  assumes "set (placeholders_in_capability c) \<subseteq> dom (btree_get vals)"
  shows "resolve c vals \<noteq> Inl (MissingValue n)"
  using assms
  by (cases c) (auto simp: map_sum_def resolve_str_not_missing split: sum.splits
      dest!: resolve_kube_pair_missing)

lemma resolve_host_total:
  assumes "set (placeholders_in_capability c) \<subseteq> dom (btree_get vals)" "\<not> is_kube_capability c"
  shows "\<exists>c'. resolve c vals = Inr c'"
  using assms by (cases c) (auto simp: is_kube_capability_def dest!: resolve_str_Inr)

lemma check_placeholders_ok:
  "check_placeholders declared c = Inr () \<longleftrightarrow> set (placeholders_in_capability c) \<subseteq> set declared"
  by (auto simp: check_placeholders_def)

text \<open>The capabilities a template names, in the order the actuator will meet them.\<close>

definition template_capabilities :: "template \<Rightarrow> capability list" where
  "template_capabilities t =
     map cond_check (tpl_preconditions t) @ tpl_steps t
       @ (case tpl_verify t of None \<Rightarrow> [] | Some v \<Rightarrow> [vf_check v])"

definition template_checks :: "template \<Rightarrow> capability list" where
  "template_checks t =
     map cond_check (tpl_preconditions t) @ (case tpl_verify t of None \<Rightarrow> [] | Some v \<Rightarrow> [vf_check v])"

lemma validate_Inr_iff:
  "validate t = Inr () \<longleftrightarrow>
     tpl_steps t \<noteq> []
     \<and> (\<forall>c\<in>set (template_checks t). is_read_only c)
     \<and> (\<forall>c\<in>set (template_capabilities t).
          set (placeholders_in_capability c) \<subseteq> fst ` set (tpl_parameters t))"
proof -
  let ?d = "btree_keys (tpl_parameters t)"
  have pre: "check_all (\<lambda>c. check_condition ?d (cond_check c)) (tpl_preconditions t) = Inr ()
      \<longleftrightarrow> (\<forall>c\<in>set (tpl_preconditions t). is_read_only (cond_check c)
            \<and> set (placeholders_in_capability (cond_check c)) \<subseteq> set ?d)"
    by (simp add: check_condition_def check_placeholders_ok) blast
  have steps: "check_all (check_placeholders ?d) (tpl_steps t) = Inr ()
      \<longleftrightarrow> (\<forall>c\<in>set (tpl_steps t). set (placeholders_in_capability c) \<subseteq> set ?d)"
    by (simp add: check_placeholders_ok)
  have "validate t = Inr () \<longleftrightarrow>
      check_all (\<lambda>c. check_condition ?d (cond_check c)) (tpl_preconditions t) = Inr ()
      \<and> check_all (check_placeholders ?d) (tpl_steps t) = Inr ()
      \<and> (case tpl_verify t of None \<Rightarrow> Inr () | Some v \<Rightarrow> check_condition ?d (vf_check v)) = Inr ()
      \<and> tpl_steps t \<noteq> []"
    by (auto simp: validate_def Let_def simp del: check_all_Inr_iff split: sum.splits)
  then show ?thesis
    unfolding pre steps
    by (auto simp: template_checks_def template_capabilities_def check_condition_def
        check_placeholders_ok btree_keys_def split: option.splits if_splits)
qed

section \<open>Properties\<close>

text \<open>What a successful resolution yields: every placeholder replaced by its value, once.\<close>

fun subst :: "params \<Rightarrow> segment list \<Rightarrow> string" where
  "subst vals [] = []"
| "subst vals (Lit s # segs) = s @ subst vals segs"
| "subst vals (Ph n # segs) = the (btree_get vals (trim n)) @ subst vals segs"

lemma render_find:
  "render vals segs =
     (case find (\<lambda>n. btree_get vals n = None) (ph_names segs) of
        Some n \<Rightarrow> Inl (MissingValue n)
      | None \<Rightarrow> Inr (subst vals segs))"
  by (induction vals segs rule: render.induct) (auto split: option.splits)

lemma segments_single:
  assumes "\<not> sublist ''}}'' (n @ ''}'')"
  shows "segments (''{{'' @ n @ ''}}'') = [Lit [], Ph n, Lit []]"
proof -
  have nil: "segments [] = [Lit []]" by (simp add: segments.simps)
  have "str_find ''}}'' (n @ ''}}'') = Some (length n)"
    using assms
  proof (induction n)
    case Nil
    then show ?case by simp
  next
    case (Cons c cs)
    then have "\<not> prefix ''}}'' (c # cs @ ''}'')" "\<not> sublist ''}}'' (cs @ ''}'')"
      by (auto simp: sublist_Cons_right)
    moreover from this(1) have "\<not> prefix ''}}'' (c # cs @ ''}}'')" by (cases cs) auto
    ultimately show ?case using Cons.IH by simp
  qed
  then show ?thesis by (subst segments.simps) (simp add: nil)
qed

text \<open>
  C38: \<open>resolve_str\<close> is a parse into literals and placeholders (whose print is the raw string)
  followed by one substitution; it fails exactly when some placeholder has no value, with the first
  such name, and \<open>placeholders_in_str\<close> lists exactly the names it will look up, in order.
\<close>

theorem resolve_str_correct:
  "unparse (segments raw) = raw
   \<and> placeholders_in_str raw = ph_names (segments raw)
   \<and> resolve_str raw vals =
       (case find (\<lambda>n. btree_get vals n = None) (placeholders_in_str raw) of
          Some n \<Rightarrow> Inl (MissingValue n)
        | None \<Rightarrow> Inr (subst vals (segments raw)))"
  by (simp add: unparse_segments placeholders_segments resolve_str_segments render_find)

text \<open>
  A value is inserted verbatim and never scanned again, so a value that itself looks like a
  placeholder survives resolution: the resolved capability still contains a placeholder.
\<close>

theorem resolve_str_single_pass:
  assumes "\<not> sublist ''}}'' (n @ ''}'')" and "btree_get vals (trim n) = Some v"
  shows "resolve_str (''{{'' @ n @ ''}}'') vals = Inr v"
  unfolding resolve_str_segments segments_single [OF assms(1)] using assms(2) by simp

theorem resolve_str_single_pass_witness:
  "resolve_str ''{{unit}}'' [(''unit'', ''{{x}}'')] = Inr ''{{x}}''
   \<and> placeholders_in_str ''{{x}}'' = [''x'']"
proof
  have "\<not> sublist ''}}'' (''unit'' @ ''}'')" by (simp add: sublist_Cons_right)
  moreover have "btree_get [(''unit'', ''{{x}}'')] (trim ''unit'') = Some ''{{x}}''"
    by (subst trim_plain) (simp_all add: eval_simps)
  ultimately show "resolve_str ''{{unit}}'' [(''unit'', ''{{x}}'')] = Inr ''{{x}}''"
    using resolve_str_single_pass [of "''unit''" "[(''unit'', ''{{x}}'')]" "''{{x}}''"] by simp
  have "segments ''{{x}}'' = [Lit [], Ph ''x'', Lit []]"
    using segments_single [of "''x''"] by (simp add: sublist_Cons_right)
  moreover have "trim ''x'' = ''x''" by (rule trim_plain) (simp add: eval_simps)
  ultimately show "placeholders_in_str ''{{x}}'' = [''x'']"
    by (simp add: placeholders_segments)
qed

text \<open>
  C22: \<open>Template::validate\<close> accepts exactly the templates that have a step, whose checks are
  all read-only, and whose placeholders are all declared parameters.
\<close>

theorem validate_accepts_iff:
  "validate t = Inr () \<longleftrightarrow>
     tpl_steps t \<noteq> []
     \<and> list_all is_read_only (template_checks t)
     \<and> (\<Union>c\<in>set (template_capabilities t). set (placeholders_in_capability c)) \<subseteq> fst ` set (tpl_parameters t)"
  unfolding validate_Inr_iff list_all_iff by blast

text \<open>A template in the shape of the shipped failed-unit restart.\<close>

definition sample_template :: template where
  "sample_template =
     \<lparr>tpl_id = ''failed-unit-restart'', tpl_version = 3, tpl_title = ''Restart'', tpl_risk_tier = Safe,
      tpl_match = \<lparr>tm_source = SrcFailedUnit, tm_conditions = []\<rparr>,
      tpl_parameters = [(''unit'', \<lparr>ps_ty = ParamString, ps_from = ''payload.unit''\<rparr>)],
      tpl_preconditions = [\<lparr>cond_check = UnitState ''{{unit}}'', cond_equals = ''failed''\<rparr>],
      tpl_steps = [ResetFailed ''{{unit}}'', RestartUnit ''{{unit}}''],
      tpl_verify = Some \<lparr>vf_check = UnitState ''{{unit}}'', vf_equals = ''active'', vf_timeout_s = 30\<rparr>,
      tpl_rollback = RollbackNone\<rparr>"

lemma placeholders_unit: "placeholders_in_str ''{{unit}}'' = [''unit'']"
proof -
  have "segments ''{{unit}}'' = [Lit [], Ph ''unit'', Lit []]"
    using segments_single [of "''unit''"] by (simp add: sublist_Cons_right)
  moreover have "trim ''unit'' = ''unit''" by (rule trim_plain) (simp add: eval_simps)
  ultimately show ?thesis by (simp add: placeholders_segments)
qed

lemma sample_template_valid: "validate sample_template = Inr ()"
  by (simp add: validate_Inr_iff sample_template_def template_checks_def template_capabilities_def
      placeholders_unit is_read_only_def)

text \<open>
  Once a template validates, supplying a value for each declared parameter is enough: no
  capability of the template ever fails to resolve for a missing value, and a host capability always
  resolves.
\<close>

theorem validated_template_resolves:
  assumes "validate t = Inr ()" and "fst ` set (tpl_parameters t) \<subseteq> dom (btree_get vals)"
    and "c \<in> set (template_capabilities t)"
  shows "resolve c vals \<noteq> Inl (MissingValue n)
    \<and> (is_kube_capability c \<or> (\<exists>c'. resolve c vals = Inr c'))"
proof -
  have "set (placeholders_in_capability c) \<subseteq> dom (btree_get vals)"
    using assms unfolding validate_Inr_iff by blast
  then show ?thesis using resolve_not_missing resolve_host_total by blast
qed

theorem validated_template_resolves_witness:
  "\<exists>c'. resolve (RestartUnit ''{{unit}}'') [(''unit'', ''nginx.service'')] = Inr c'"
proof -
  have "RestartUnit ''{{unit}}'' \<in> set (template_capabilities sample_template)"
    by (simp add: template_capabilities_def sample_template_def)
  moreover have "fst ` set (tpl_parameters sample_template) \<subseteq> dom (btree_get [(''unit'', ''nginx.service'')])"
    by (simp add: sample_template_def)
  moreover have "\<not> is_kube_capability (RestartUnit ''{{unit}}'')" by (simp add: is_kube_capability_def)
  ultimately show ?thesis
    using validated_template_resolves [OF sample_template_valid] by blast
qed

text \<open>
  A resolved Kubernetes capability carries only RFC 1123 labels (so no path separator, brace or
  white space reaches the API), and resolving it again, with any values, leaves it as it is.
\<close>

theorem resolved_kube_capability_safe:
  assumes "resolve c vals = Inr c'"
  shows "(\<forall>(f, i)\<in>set (capability_kube_ids c').
            is_valid_k8s_label i \<and> 0 < length i \<and> length i \<le> 63 \<and> (\<forall>x\<in>set i. label_char x))
         \<and> (\<not> is_kube_capability c \<or> resolve c' vals' = Inr c')"
proof -
  have ids: "is_valid_k8s_label i" if "(f, i) \<in> set (capability_kube_ids c')" for f i
    using resolve_kube_ids [OF assms that] .
  then have "resolve_str i vals' = Inr i" if "(f, i) \<in> set (capability_kube_ids c')" for f i
    using that valid_label_no_braces resolve_str_no_braces by blast
  with ids have "is_kube_capability c' \<Longrightarrow> resolve c' vals' = Inr c'"
    by (cases c') (auto simp: resolve_kube_pair_Inr is_kube_capability_def)
  moreover have "is_valid_k8s_label i \<Longrightarrow> 0 < length i \<and> length i \<le> 63" for i
    by (auto simp: is_valid_k8s_label_def split: if_splits)
  ultimately show ?thesis
    using ids valid_label_chars unfolding resolve_is_kube [OF assms] by fast
qed

lemma label_ravn_test: "is_valid_k8s_label ''ravn-test''"
  by code_simp

lemma label_crasher: "is_valid_k8s_label ''crasher''"
  by code_simp

lemmas labels_ok = label_ravn_test label_crasher

theorem resolved_kube_capability_safe_witness:
  "resolve (DeletePod ''ravn-test'' ''crasher'') [] = Inr (DeletePod ''ravn-test'' ''crasher'')
   \<and> is_valid_k8s_label ''ravn-test'' \<and> is_valid_k8s_label ''crasher''"
proof
  show r: "resolve (DeletePod ''ravn-test'' ''crasher'') [] = Inr (DeletePod ''ravn-test'' ''crasher'')"
    using labels_ok by (simp add: resolve_kube_pair_Inr resolve_str_no_braces valid_label_no_braces)
  show "is_valid_k8s_label ''ravn-test'' \<and> is_valid_k8s_label ''crasher''"
    using resolved_kube_capability_safe [OF r, of "[]"] by simp
qed

end
