(* ===== verification/Signing.thy ===== *)
theory Signing
  imports Templates
begin

text \<open>
  \<open>CommandEnvelope::signing_payload\<close> of \<^verbatim>\<open>crates/ravn-core/src/remediation.rs\<close>: the exact
  bytes that are signed and verified. The \<open>Signable\<close> struct and the serde representation of
  its fields (internally tagged enums, snake-case names, the skipped \<open>kid\<close>) are modelled as a
  JSON value; turning a JSON value into text is \<open>serde_json\<close>'s and is a parameter, as is the
  text of a UUID and of a time. The main result is that the payload determines every field of the
  envelope except \<open>sig\<close>.
\<close>

section \<open>The serialization library as a parameter\<close>

record serde =
  sd_to_string :: "json \<Rightarrow> string"
  sd_from_str :: "string \<Rightarrow> json option"
  sd_uuid :: "uuid \<Rightarrow> string"
  sd_uuid_parse :: "string \<Rightarrow> uuid option"
  sd_datetime :: "datetime \<Rightarrow> string"

text \<open>
  What the code relies on: JSON text reads back as the value it was written from, a UUID's
  hyphenated form reads back and is printable ASCII, and distinct times have distinct RFC 3339
  texts.
\<close>

definition serde_ok :: "serde \<Rightarrow> bool" where
  "serde_ok S \<longleftrightarrow>
     (\<forall>j. sd_from_str S (sd_to_string S j) = Some j)
     \<and> (\<forall>u. sd_uuid_parse S (sd_uuid S u) = Some u \<and> sd_uuid S u \<noteq> [] \<and> (\<forall>c\<in>set (sd_uuid S u). plain_char c))
     \<and> inj (sd_datetime S)"

lemma serde_okD:
  assumes "serde_ok S"
  shows "inj (sd_to_string S)" "inj (sd_uuid S)" "inj (sd_datetime S)"
    "sd_from_str S (sd_to_string S j) = Some j" "sd_uuid_parse S (sd_uuid S u) = Some u"
  using assms unfolding serde_ok_def by (auto intro!: injI) (metis option.inject)+

section \<open>Wire forms\<close>

fun risk_tier_json :: "risk_tier \<Rightarrow> json" where
  "risk_tier_json Safe = JStr ''safe''"
| "risk_tier_json Guarded = JStr ''guarded''"
| "risk_tier_json Dangerous = JStr ''dangerous''"

fun rollback_json :: "rollback \<Rightarrow> json" where
  "rollback_json RollbackNone = JStr ''none''"
| "rollback_json NixGeneration = JStr ''nix_generation''"

fun capability_json :: "capability \<Rightarrow> json" where
  "capability_json (ResetFailed u) = JObj [(''capability'', JStr ''reset_failed''), (''unit'', JStr u)]"
| "capability_json (RestartUnit u) = JObj [(''capability'', JStr ''restart_unit''), (''unit'', JStr u)]"
| "capability_json (UnitState u) = JObj [(''capability'', JStr ''unit_state''), (''unit'', JStr u)]"
| "capability_json NixRollback = JObj [(''capability'', JStr ''nix_rollback'')]"
| "capability_json (DeletePod ns p) =
     JObj [(''capability'', JStr ''delete_pod''), (''namespace'', JStr ns), (''pod'', JStr p)]"
| "capability_json (RestartDeployment ns d) =
     JObj [(''capability'', JStr ''restart_deployment''), (''namespace'', JStr ns), (''deployment'', JStr d)]"
| "capability_json (PodState ns p) =
     JObj [(''capability'', JStr ''pod_state''), (''namespace'', JStr ns), (''pod_prefix'', JStr p)]"

definition condition_json :: "condition \<Rightarrow> json" where
  "condition_json c = JObj [(''check'', capability_json (cond_check c)), (''equals'', JStr (cond_equals c))]"

definition verify_json :: "verify \<Rightarrow> json" where
  "verify_json v =
     JObj [(''check'', capability_json (vf_check v)), (''equals'', JStr (vf_equals v)),
           (''timeout_s'', JNum (uint (vf_timeout_s v)))]"

fun approval_ref_json :: "serde \<Rightarrow> approval_ref \<Rightarrow> json" where
  "approval_ref_json S PolicyAuto = JObj [(''kind'', JStr ''policy_auto'')]"
| "approval_ref_json S (Human user at) =
     JObj [(''kind'', JStr ''human''), (''user'', JStr user), (''approved_at'', JStr (sd_datetime S at))]"

definition signable_json :: "serde \<Rightarrow> envelope \<Rightarrow> json" where
  "signable_json S e =
     JObj ([(''command_id'', JStr (sd_uuid S (env_command_id e))),
            (''agent_id'', JStr (sd_uuid S (agent_uuid (env_agent_id e)))),
            (''template_id'', JStr (env_template_id e)),
            (''template_version'', JNum (uint (env_template_version e))),
            (''risk_tier'', risk_tier_json (env_risk_tier e)),
            (''preconditions'', JArr (map condition_json (env_preconditions e))),
            (''steps'', JArr (map capability_json (env_steps e))),
            (''verify'', (case env_verify e of None \<Rightarrow> JNull | Some v \<Rightarrow> verify_json v)),
            (''rollback'', rollback_json (env_rollback e)),
            (''approval_ref'', approval_ref_json S (env_approval_ref e)),
            (''nonce'', JStr (env_nonce e)),
            (''issued_at'', JStr (sd_datetime S (env_issued_at e))),
            (''expires_at'', JStr (sd_datetime S (env_expires_at e)))]
           @ (case env_kid e of None \<Rightarrow> [] | Some k \<Rightarrow> [(''kid'', JStr k)]))"

definition signing_payload :: "serde \<Rightarrow> envelope \<Rightarrow> bytes" where
  "signing_payload S e = sd_to_string S (signable_json S e)"

section \<open>The payload determines the envelope\<close>

lemma risk_tier_json_inj: "risk_tier_json a = risk_tier_json b \<longleftrightarrow> a = b"
  by (cases a; cases b) simp_all

lemma rollback_json_inj: "rollback_json a = rollback_json b \<longleftrightarrow> a = b"
  by (cases a; cases b) simp_all

lemma capability_json_inj: "capability_json a = capability_json b \<longleftrightarrow> a = b"
  by (cases a; cases b) simp_all

lemma condition_json_inj: "condition_json a = condition_json b \<longleftrightarrow> a = b"
  by (cases a; cases b) (simp add: condition_json_def capability_json_inj)

lemma verify_json_inj: "verify_json a = verify_json b \<longleftrightarrow> a = b"
  by (cases a; cases b) (simp add: verify_json_def capability_json_inj word_uint_eq_iff)

lemma approval_ref_json_inj:
  "inj (sd_datetime S) \<Longrightarrow> approval_ref_json S a = approval_ref_json S b \<longleftrightarrow> a = b"
  by (cases a; cases b) (auto dest: injD)

lemma opt_verify_json_inj:
  "(case a of None \<Rightarrow> JNull | Some v \<Rightarrow> verify_json v) = (case b of None \<Rightarrow> JNull | Some v \<Rightarrow> verify_json v)
     \<longleftrightarrow> a = b"
  by (cases a; cases b) (auto simp: verify_json_inj, simp_all add: verify_json_def)

lemma opt_kid_inj:
  "(case a of None \<Rightarrow> [] | Some k \<Rightarrow> [(''kid'', JStr k)]) = (case b of None \<Rightarrow> [] | Some k \<Rightarrow> [(''kid'', JStr k)])
     \<longleftrightarrow> a = b"
  by (cases a; cases b) auto

lemma agent_id_eq_iff: "agent_uuid a = agent_uuid b \<longleftrightarrow> a = b"
  by (cases a; cases b) simp

lemma signable_json_inj:
  assumes "serde_ok S" and "signable_json S a = signable_json S b"
  shows "a\<lparr>env_sig := None\<rparr> = b\<lparr>env_sig := None\<rparr>"
proof -
  note inj = serde_okD(2,3) [OF assms(1)]
  have uuid: "sd_uuid S u = sd_uuid S w \<longleftrightarrow> u = w" for u w using inj(1) by (auto dest: injD)
  have dt: "sd_datetime S u = sd_datetime S w \<longleftrightarrow> u = w" for u w using inj(2) by (auto dest: injD)
  have maps: "map condition_json xs = map condition_json ys \<longleftrightarrow> xs = ys"
    "map capability_json cs = map capability_json ds \<longleftrightarrow> cs = ds" for xs ys cs ds
    by (auto simp: condition_json_inj capability_json_inj intro!: inj_map_eq_map injI)
  from assms(2) show ?thesis
    by (intro envelope.equality)
      (simp_all add: signable_json_def uuid dt maps risk_tier_json_inj rollback_json_inj
        approval_ref_json_inj [OF inj(2)] opt_verify_json_inj opt_kid_inj agent_id_eq_iff
        word_uint_eq_iff [of "env_template_version a"])
qed

lemma signing_payload_inj:
  assumes "serde_ok S" and "signing_payload S a = signing_payload S b"
  shows "a\<lparr>env_sig := None\<rparr> = b\<lparr>env_sig := None\<rparr>"
  using assms signable_json_inj serde_okD(1) by (metis injD signing_payload_def)

lemma signing_payload_sig [simp]: "signing_payload S (e\<lparr>env_sig := s\<rparr>) = signing_payload S e"
  by (simp add: signing_payload_def signable_json_def)

end
