(* ===== verification/Crypto.thy ===== *)
theory Crypto
  imports Signing
begin

text \<open>
  \<^verbatim>\<open>crates/ravn-crypto/src/lib.rs\<close>: key encoding, envelope signing and verification, and the
  rotation keyring. Ed25519 and base64 are libraries and stand as the parameter \<open>crypto\<close>;
  \<open>crypto_ok\<close> names what the code relies on (decoding inverts encoding, fixed lengths, a
  signature made with a key verifies under its public key). Nothing here assumes that signatures
  cannot be forged: the safety results say which check of which key over which bytes must have
  succeeded.
\<close>

section \<open>The cryptographic library as a parameter\<close>

record ('sk, 'vk) crypto =
  b64_encode :: "bytes \<Rightarrow> string"
  b64_decode :: "string \<Rightarrow> bytes option"
  vk_to_bytes :: "'vk \<Rightarrow> bytes"
  vk_from_bytes :: "bytes \<Rightarrow> 'vk option"
  sk_to_bytes :: "'sk \<Rightarrow> bytes"
  sk_from_bytes :: "bytes \<Rightarrow> 'sk"
  verifying_key :: "'sk \<Rightarrow> 'vk"
  ed_sign :: "'sk \<Rightarrow> bytes \<Rightarrow> bytes"
  ed_verify :: "'vk \<Rightarrow> bytes \<Rightarrow> bytes \<Rightarrow> bool"

definition crypto_ok :: "('sk, 'vk) crypto \<Rightarrow> bool" where
  "crypto_ok C \<longleftrightarrow>
     (\<forall>bs. b64_decode C (b64_encode C bs) = Some bs \<and> (\<forall>c\<in>set (b64_encode C bs). plain_char c))
     \<and> (\<forall>vk. length (vk_to_bytes C vk) = 32 \<and> vk_from_bytes C (vk_to_bytes C vk) = Some vk)
     \<and> (\<forall>sk. length (sk_to_bytes C sk) = 32 \<and> sk_from_bytes C (sk_to_bytes C sk) = sk)
     \<and> (\<forall>sk m. length (ed_sign C sk m) = 64 \<and> ed_verify C (verifying_key C sk) m (ed_sign C sk m))"

lemma crypto_okD:
  assumes "crypto_ok C"
  shows "b64_decode C (b64_encode C bs) = Some bs" "trim (b64_encode C bs) = b64_encode C bs"
    "length (vk_to_bytes C vk) = 32" "vk_from_bytes C (vk_to_bytes C vk) = Some vk"
    "length (sk_to_bytes C sk) = 32" "sk_from_bytes C (sk_to_bytes C sk) = sk"
    "length (ed_sign C sk m) = 64" "ed_verify C (verifying_key C sk) m (ed_sign C sk m)"
  using assms unfolding crypto_ok_def by (auto intro!: trim_all_plain)

section \<open>Keys\<close>

datatype key_error = BadEncoding | BadLength | BadKey

definition key_id :: "('sk, 'vk) crypto \<Rightarrow> 'vk \<Rightarrow> string" where
  "key_id C k = take 16 (b64_encode C (vk_to_bytes C k))"

definition verifying_key_to_b64 :: "('sk, 'vk) crypto \<Rightarrow> 'vk \<Rightarrow> string" where
  "verifying_key_to_b64 C k = b64_encode C (vk_to_bytes C k)"

definition verifying_key_from_b64 :: "('sk, 'vk) crypto \<Rightarrow> string \<Rightarrow> key_error + 'vk" where
  "verifying_key_from_b64 C s =
     (case b64_decode C (trim s) of
        None \<Rightarrow> Inl BadEncoding
      | Some bs \<Rightarrow>
          if length bs \<noteq> 32 then Inl BadLength
          else (case vk_from_bytes C bs of None \<Rightarrow> Inl BadKey | Some k \<Rightarrow> Inr k))"

definition signing_key_to_b64 :: "('sk, 'vk) crypto \<Rightarrow> 'sk \<Rightarrow> string" where
  "signing_key_to_b64 C k = b64_encode C (sk_to_bytes C k)"

definition signing_key_from_b64 :: "('sk, 'vk) crypto \<Rightarrow> string \<Rightarrow> key_error + 'sk" where
  "signing_key_from_b64 C s =
     (case b64_decode C (trim s) of
        None \<Rightarrow> Inl BadEncoding
      | Some bs \<Rightarrow> if length bs \<noteq> 32 then Inl BadLength else Inr (sk_from_bytes C bs))"

section \<open>Keyring\<close>

record 'vk keyring =
  kr_keys :: "(string, 'vk) btree"
  kr_default_kid :: "string option"

definition keyring_new :: "'vk keyring" where
  "keyring_new = \<lparr>kr_keys = [], kr_default_kid = None\<rparr>"

definition keyring_single :: "('sk, 'vk) crypto \<Rightarrow> 'vk \<Rightarrow> 'vk keyring" where
  "keyring_single C k =
     (let kid = key_id C k in \<lparr>kr_keys = btree_insert kid k [], kr_default_kid = Some kid\<rparr>)"

definition keyring_insert :: "('sk, 'vk) crypto \<Rightarrow> 'vk \<Rightarrow> 'vk keyring \<Rightarrow> string \<times> 'vk keyring" where
  "keyring_insert C k r =
     (let kid = key_id C k in (kid, r\<lparr>kr_keys := btree_insert kid k (kr_keys r)\<rparr>))"

definition keyring_set_default :: "string \<Rightarrow> 'vk keyring \<Rightarrow> bool \<times> 'vk keyring" where
  "keyring_set_default kid r =
     (case btree_get (kr_keys r) kid of
        Some _ \<Rightarrow> (True, r\<lparr>kr_default_kid := Some kid\<rparr>)
      | None \<Rightarrow> (False, r))"

definition keyring_get :: "'vk keyring \<Rightarrow> string \<Rightarrow> 'vk option" where
  "keyring_get r kid = btree_get (kr_keys r) kid"

definition keyring_default_key :: "'vk keyring \<Rightarrow> 'vk option" where
  "keyring_default_key r =
     (case kr_default_kid r of None \<Rightarrow> None | Some k \<Rightarrow> btree_get (kr_keys r) k)"

definition keyring_len :: "'vk keyring \<Rightarrow> nat" where
  "keyring_len r = length (kr_keys r)"

definition keyring_is_empty :: "'vk keyring \<Rightarrow> bool" where
  "keyring_is_empty r \<longleftrightarrow> kr_keys r = []"

definition keyring_kids :: "'vk keyring \<Rightarrow> string list" where
  "keyring_kids r = btree_keys (kr_keys r)"

subsection \<open>The keyring document\<close>

definition keyring_json :: "('sk, 'vk) crypto \<Rightarrow> 'vk keyring \<Rightarrow> json" where
  "keyring_json C r =
     JObj [(''active_kid'', (case kr_default_kid r of None \<Rightarrow> JNull | Some k \<Rightarrow> JStr k)),
           (''keys'', JObj (map (\<lambda>(k, v). (k, JStr (verifying_key_to_b64 C v))) (kr_keys r)))]"

definition keyring_to_json :: "serde \<Rightarrow> ('sk, 'vk) crypto \<Rightarrow> 'vk keyring \<Rightarrow> string" where
  "keyring_to_json S C r = sd_to_string S (keyring_json C r)"

text \<open>
  Reading \<open>struct Doc { active_kid: Option<String>, keys: BTreeMap<String, String> }\<close> with
  serde: an object in any field order (unknown fields skipped, a repeated field refused, a missing
  \<open>active_kid\<close> is \<open>None\<close>, a missing \<open>keys\<close> an error) or a two-element array.
\<close>

fun json_opt_string :: "json \<Rightarrow> string option option" where
  "json_opt_string JNull = Some None"
| "json_opt_string (JStr s) = Some (Some s)"
| "json_opt_string _ = None"

fun json_str :: "json \<Rightarrow> string option" where
  "json_str (JStr s) = Some s"
| "json_str _ = None"

fun json_string_pairs :: "(string \<times> json) list \<Rightarrow> (string \<times> string) list option" where
  "json_string_pairs [] = Some []"
| "json_string_pairs ((k, j) # fs) =
     (case (json_str j, json_string_pairs fs) of
        (Some s, Some kvs) \<Rightarrow> Some ((k, s) # kvs)
      | _ \<Rightarrow> None)"

fun json_string_map :: "json \<Rightarrow> (string, string) btree option" where
  "json_string_map (JObj fs) =
     map_option (\<lambda>kvs. fold (\<lambda>(k, v). btree_insert k v) kvs []) (json_string_pairs fs)"
| "json_string_map _ = None"

definition json_fields :: "string \<Rightarrow> (string \<times> json) list \<Rightarrow> json list" where
  "json_fields k fs = map snd (filter (\<lambda>f. fst f = k) fs)"

fun keyring_doc :: "json \<Rightarrow> (string option \<times> (string, string) btree) option" where
  "keyring_doc (JObj fs) =
     (case (json_fields ''active_kid'' fs, json_fields ''keys'' fs) of
        ([], [k]) \<Rightarrow> map_option (Pair None) (json_string_map k)
      | ([a], [k]) \<Rightarrow>
          (case json_opt_string a of
             None \<Rightarrow> None
           | Some kid \<Rightarrow> map_option (Pair kid) (json_string_map k))
      | _ \<Rightarrow> None)"
| "keyring_doc (JArr [a, k]) =
     (case json_opt_string a of
        None \<Rightarrow> None
      | Some kid \<Rightarrow> map_option (Pair kid) (json_string_map k))"
| "keyring_doc _ = None"

text \<open>The loop of \<open>from_json\<close> over the document's keys.\<close>

fun decode_keys ::
  "('sk, 'vk) crypto \<Rightarrow> (string \<times> string) list \<Rightarrow> (string, 'vk) btree \<Rightarrow> key_error + (string, 'vk) btree" where
  "decode_keys C [] acc = Inr acc"
| "decode_keys C ((kid, b64) # rest) acc =
     (case verifying_key_from_b64 C b64 of
        Inl e \<Rightarrow> Inl e
      | Inr k \<Rightarrow> decode_keys C rest (btree_insert kid k acc))"

definition keyring_from_json :: "serde \<Rightarrow> ('sk, 'vk) crypto \<Rightarrow> string \<Rightarrow> key_error + 'vk keyring" where
  "keyring_from_json S C s =
     (case Option.bind (sd_from_str S s) keyring_doc of
        None \<Rightarrow> Inl BadEncoding
      | Some (active, docs) \<Rightarrow>
          (case decode_keys C docs [] of
             Inl e \<Rightarrow> Inl e
           | Inr keys \<Rightarrow>
               (case active of
                  Some k \<Rightarrow>
                    if btree_get keys k \<noteq> None then Inr \<lparr>kr_keys = keys, kr_default_kid = Some k\<rparr>
                    else Inl BadKey
                | None \<Rightarrow> Inr \<lparr>kr_keys = keys, kr_default_kid = None\<rparr>)))"

section \<open>Signing and verification\<close>

datatype verify_error = MissingSignature | BadSigEncoding | BadSignature | Expired | UnknownKey

fun verify_error_display :: "verify_error \<Rightarrow> string" where
  "verify_error_display MissingSignature = ''command envelope has no signature''"
| "verify_error_display BadSigEncoding = ''command signature is malformed''"
| "verify_error_display BadSignature = ''command signature does not verify''"
| "verify_error_display Expired = ''command envelope has expired''"
| "verify_error_display UnknownKey = ''command signed by an untrusted or retired key''"

definition sign_envelope :: "serde \<Rightarrow> ('sk, 'vk) crypto \<Rightarrow> 'sk \<Rightarrow> envelope \<Rightarrow> envelope" where
  "sign_envelope S C k e =
     (let e' = e\<lparr>env_kid := Some (key_id C (verifying_key C k))\<rparr>;
          sg = ed_sign C k (signing_payload S e')
      in e'\<lparr>env_sig := Some (b64_encode C sg)\<rparr>)"

definition verify_signature :: "serde \<Rightarrow> ('sk, 'vk) crypto \<Rightarrow> 'vk \<Rightarrow> envelope \<Rightarrow> verify_error + unit" where
  "verify_signature S C k e =
     (case env_sig e of
        None \<Rightarrow> Inl MissingSignature
      | Some b64 \<Rightarrow>
          (case b64_decode C (trim b64) of
             None \<Rightarrow> Inl BadSigEncoding
           | Some sg \<Rightarrow>
               if length sg \<noteq> 64 then Inl BadSigEncoding
               else if ed_verify C k (signing_payload S e) sg then Inr ()
               else Inl BadSignature))"

definition verify_envelope ::
  "serde \<Rightarrow> ('sk, 'vk) crypto \<Rightarrow> 'vk \<Rightarrow> envelope \<Rightarrow> datetime \<Rightarrow> verify_error + unit" where
  "verify_envelope S C k e now =
     (case verify_signature S C k e of
        Inl err \<Rightarrow> Inl err
      | Inr _ \<Rightarrow> if now > env_expires_at e then Inl Expired else Inr ())"

definition select_key :: "'vk keyring \<Rightarrow> envelope \<Rightarrow> 'vk option" where
  "select_key r e =
     (case env_kid e of Some kid \<Rightarrow> keyring_get r kid | None \<Rightarrow> keyring_default_key r)"

definition verify_envelope_with ::
  "serde \<Rightarrow> ('sk, 'vk) crypto \<Rightarrow> 'vk keyring \<Rightarrow> envelope \<Rightarrow> datetime \<Rightarrow> verify_error + unit" where
  "verify_envelope_with S C r e now =
     (case select_key r e of
        None \<Rightarrow> Inl UnknownKey
      | Some k \<Rightarrow>
          (case verify_signature S C k e of
             Inl err \<Rightarrow> Inl err
           | Inr _ \<Rightarrow> if now > env_expires_at e then Inl Expired else Inr ()))"

section \<open>What acceptance means\<close>

text \<open>
  The envelope carries, under the key its \<open>kid\<close> selects from the ring, a well-formed
  signature that verifies over its own payload, and it has not expired.
\<close>

definition authentic ::
  "serde \<Rightarrow> ('sk, 'vk) crypto \<Rightarrow> 'vk keyring \<Rightarrow> envelope \<Rightarrow> datetime \<Rightarrow> bool" where
  "authentic S C r e now \<longleftrightarrow>
     (\<exists>k b64 sg. select_key r e = Some k \<and> env_sig e = Some b64 \<and> b64_decode C (trim b64) = Some sg
        \<and> length sg = 64 \<and> ed_verify C k (signing_payload S e) sg) \<and> now \<le> env_expires_at e"

lemma verify_signature_Inr:
  "verify_signature S C k e = Inr () \<longleftrightarrow>
     (\<exists>b64 sg. env_sig e = Some b64 \<and> b64_decode C (trim b64) = Some sg
        \<and> length sg = 64 \<and> ed_verify C k (signing_payload S e) sg)"
  by (auto simp: verify_signature_def split: option.splits)

lemma verify_signature_not_Inr:
  "verify_signature S C k e \<noteq> Inr () \<Longrightarrow> \<exists>err. verify_signature S C k e = Inl err \<and> err \<noteq> Expired \<and> err \<noteq> UnknownKey"
  by (auto simp: verify_signature_def split: option.splits if_splits)

lemma verify_envelope_with_Inr: "verify_envelope_with S C r e now = Inr () \<longleftrightarrow> authentic S C r e now"
proof (cases "select_key r e")
  case None
  then show ?thesis by (simp add: verify_envelope_with_def authentic_def)
next
  case (Some k)
  have "verify_envelope_with S C r e now = Inr () \<longleftrightarrow>
      verify_signature S C k e = Inr () \<and> now \<le> env_expires_at e"
    by (auto simp: verify_envelope_with_def Some split: sum.splits)
  then show ?thesis by (simp add: verify_signature_Inr authentic_def Some)
qed

lemma sign_envelope_sel [simp]:
  "env_kid (sign_envelope S C k e) = Some (key_id C (verifying_key C k))"
  "env_expires_at (sign_envelope S C k e) = env_expires_at e"
  "env_command_id (sign_envelope S C k e) = env_command_id e"
  "env_agent_id (sign_envelope S C k e) = env_agent_id e"
  "env_steps (sign_envelope S C k e) = env_steps e"
  "env_preconditions (sign_envelope S C k e) = env_preconditions e"
  "env_verify (sign_envelope S C k e) = env_verify e"
  "env_rollback (sign_envelope S C k e) = env_rollback e"
  "env_risk_tier (sign_envelope S C k e) = env_risk_tier e"
  "env_template_id (sign_envelope S C k e) = env_template_id e"
  "env_approval_ref (sign_envelope S C k e) = env_approval_ref e"
  "env_issued_at (sign_envelope S C k e) = env_issued_at e"
  by (simp_all add: sign_envelope_def Let_def)

lemma sign_envelope_verifies:
  assumes "crypto_ok C"
  shows "verify_signature S C (verifying_key C k) (sign_envelope S C k e) = Inr ()"
  using crypto_okD [OF assms]
  by (simp add: verify_signature_Inr sign_envelope_def Let_def)

lemma sign_envelope_authentic:
  assumes "crypto_ok C" and "keyring_get r (key_id C (verifying_key C k)) = Some (verifying_key C k)"
    and "now \<le> env_expires_at e"
  shows "authentic S C r (sign_envelope S C k e) now"
  using sign_envelope_verifies [OF assms(1), of S k e] assms(2,3)
  by (auto simp: verify_envelope_with_Inr [symmetric] verify_envelope_with_def select_key_def)

section \<open>Keyring invariant\<close>

text \<open>
  The shape \<open>from_json\<close> guarantees: sorted distinct ids and a default that is present. A ring
  built by \<open>single\<close> and \<open>insert\<close> also files every key under its own id.
\<close>

definition keyring_ok :: "'vk keyring \<Rightarrow> bool" where
  "keyring_ok r \<longleftrightarrow> btree_ok (kr_keys r)
     \<and> (\<forall>k. kr_default_kid r = Some k \<longrightarrow> btree_get (kr_keys r) k \<noteq> None)"

definition keyring_filed :: "('sk, 'vk) crypto \<Rightarrow> 'vk keyring \<Rightarrow> bool" where
  "keyring_filed C r \<longleftrightarrow> (\<forall>(kid, k)\<in>set (kr_keys r). kid = key_id C k)"

lemma set_btree_insert: "set (btree_insert k v m) \<subseteq> insert (k, v) (set m)"
  by (induction m) (auto split: if_splits)

lemma keyring_ok_new [wf_intros]: "keyring_ok keyring_new" "keyring_filed C keyring_new"
  by (simp_all add: keyring_ok_def keyring_filed_def keyring_new_def)

lemma keyring_ok_single [wf_intros]: "keyring_ok (keyring_single C k)" "keyring_filed C (keyring_single C k)"
  by (simp_all add: keyring_ok_def keyring_filed_def keyring_single_def Let_def btree_ok_def)

lemma keyring_ok_insert [wf_intros]:
  "keyring_ok r \<Longrightarrow> keyring_ok (snd (keyring_insert C k r))"
  "keyring_filed C r \<Longrightarrow> keyring_filed C (snd (keyring_insert C k r))"
  using set_btree_insert [of "key_id C k" k "kr_keys r"]
  by (auto simp: keyring_ok_def keyring_filed_def keyring_insert_def Let_def btree_ok_insert btree_get_insert)

lemma keyring_ok_set_default [wf_intros]:
  "keyring_ok r \<Longrightarrow> keyring_ok (snd (keyring_set_default kid r))"
  "keyring_filed C r \<Longrightarrow> keyring_filed C (snd (keyring_set_default kid r))"
  by (auto simp: keyring_ok_def keyring_filed_def keyring_set_default_def split: option.splits)

lemma keyring_get_insert:
  "keyring_ok r \<Longrightarrow> keyring_get (snd (keyring_insert C k r)) kid
     = (if kid = key_id C k then Some k else keyring_get r kid)"
  by (simp add: keyring_get_def keyring_insert_def Let_def keyring_ok_def btree_get_insert)

lemma keyring_get_single:
  "keyring_get (keyring_single C k) kid = (if kid = key_id C k then Some k else None)"
  by (simp add: keyring_get_def keyring_single_def Let_def)

lemma keyring_get_set_default [simp]: "keyring_get (snd (keyring_set_default kid r)) k = keyring_get r k"
  by (simp add: keyring_get_def keyring_set_default_def split: option.split)

lemma decode_keys_ok: "btree_ok acc \<Longrightarrow> decode_keys C kvs acc = Inr m \<Longrightarrow> btree_ok m"
  by (induction C kvs acc rule: decode_keys.induct) (auto split: sum.splits simp: btree_ok_insert)

lemma keyring_from_json_ok: "keyring_from_json S C s = Inr r \<Longrightarrow> keyring_ok r"
  using decode_keys_ok [OF btree_ok_Nil]
  by (auto simp: keyring_from_json_def keyring_ok_def split: option.splits sum.splits prod.splits if_splits)

section \<open>Reading a published keyring back\<close>

lemma btree_insert_append:
  "\<forall>x\<in>fst ` set m. x < k \<Longrightarrow> btree_insert k v m = m @ [(k, v)]"
  by (induction m) (auto dest: less_asym)

lemma fold_btree_insert_sorted:
  "sorted_wrt (<) (map fst (m @ kvs)) \<Longrightarrow> fold (\<lambda>(k, v). btree_insert k v) kvs m = m @ kvs"
proof (induction kvs arbitrary: m)
  case Nil
  then show ?case by simp
next
  case (Cons kv kvs)
  obtain k v where kv: "kv = (k, v)" by (cases kv)
  with Cons.prems have "btree_insert k v m = m @ [(k, v)]"
    by (intro btree_insert_append) (auto simp: sorted_wrt_append)
  with Cons kv show ?case by simp
qed

lemma json_string_pairs_map: "json_string_pairs (map (\<lambda>(k, v). (k, JStr (f v))) m) = Some (map (\<lambda>(k, v). (k, f v)) m)"
  by (induction m) auto

lemma map_fst_pairs [simp]: "map fst (map (\<lambda>(k, v). (k, f v)) m) = map fst m"
  by (induction m) auto

lemma json_string_map_pairs:
  "btree_ok m \<Longrightarrow> json_string_map (JObj (map (\<lambda>(k, v). (k, JStr (f v))) m)) = Some (map (\<lambda>(k, v). (k, f v)) m)"
  using fold_btree_insert_sorted [of "[]" "map (\<lambda>(k, v). (k, f v)) m"]
  by (simp add: json_string_pairs_map btree_ok_def del: map_map)

lemma verifying_key_b64_roundtrip:
  "crypto_ok C \<Longrightarrow> verifying_key_from_b64 C (verifying_key_to_b64 C k) = Inr k"
  using crypto_okD [of C] by (simp add: verifying_key_from_b64_def verifying_key_to_b64_def)

lemma decode_keys_pairs:
  assumes "crypto_ok C" and "sorted_wrt (<) (map fst (acc @ m))"
  shows "decode_keys C (map (\<lambda>(k, v). (k, verifying_key_to_b64 C v)) m) acc = Inr (acc @ m)"
  using assms(2)
proof (induction m arbitrary: acc)
  case Nil
  then show ?case by simp
next
  case (Cons kv m)
  obtain k v where kv: "kv = (k, v)" by (cases kv)
  with Cons.prems have "btree_insert k v acc = acc @ [(k, v)]"
    by (intro btree_insert_append) (auto simp: sorted_wrt_append)
  with Cons kv assms(1) show ?case by (simp add: verifying_key_b64_roundtrip)
qed

lemma keyring_json_roundtrip:
  assumes "serde_ok S" "crypto_ok C" "keyring_ok r"
  shows "keyring_from_json S C (keyring_to_json S C r) = Inr r"
proof -
  have ok: "btree_ok (kr_keys r)" using assms(3) by (simp add: keyring_ok_def)
  have doc: "keyring_doc (keyring_json C r)
      = Some (kr_default_kid r, map (\<lambda>(k, v). (k, verifying_key_to_b64 C v)) (kr_keys r))"
    using json_string_map_pairs [OF ok, of "verifying_key_to_b64 C"]
    by (cases "kr_default_kid r") (simp_all add: keyring_json_def json_fields_def)
  have keys: "decode_keys C (map (\<lambda>(k, v). (k, verifying_key_to_b64 C v)) (kr_keys r)) [] = Inr (kr_keys r)"
    using decode_keys_pairs [OF assms(2), of "[]" "kr_keys r"] ok by (simp add: btree_ok_def)
  from assms(3) show ?thesis
    by (cases "kr_default_kid r")
      (auto simp: keyring_from_json_def keyring_to_json_def serde_okD(4) [OF assms(1)] doc keys keyring_ok_def)
qed

end
