(* ===== verification/Instances.thy ===== *)
theory Instances
  imports Crypto
begin

text \<open>
  Concrete instances of the library parameters, used to show that the hypotheses of the properties
  can hold together: a self-delimiting text form of JSON values, and a two-key signature scheme with
  a letter encoding of bytes. They satisfy \<open>serde_ok\<close> and \<open>crypto_ok\<close>; they model no code of
  the repository.
\<close>

section \<open>A serialization instance\<close>

fun demo_str :: "string \<Rightarrow> string" where
  "demo_str [] = ''e''"
| "demo_str (c # cs) = CHR ''c'' # c # demo_str cs"

fun demo_text :: "json \<Rightarrow> string" where
  "demo_text JNull = ''n''"
| "demo_text (JBool b) = (if b then ''t'' else ''f'')"
| "demo_text (JNum i) =
     (if 0 \<le> i then ''p'' @ replicate (nat i) (CHR ''1'') @ ''0''
      else ''m'' @ replicate (nat (- i)) (CHR ''1'') @ ''0'')"
| "demo_text (JStr s) = CHR ''s'' # demo_str s"
| "demo_text (JArr js) = ''['' @ concat (map demo_text js) @ '']''"
| "demo_text (JObj fs) = ''{'' @ concat (map (\<lambda>(k, j). demo_str k @ demo_text j) fs) @ ''}''"

lemma demo_str_prefix_free: "demo_str a @ r = demo_str b @ s \<Longrightarrow> a = b \<and> r = s"
proof (induction a arbitrary: b)
  case Nil
  then show ?case by (cases b) auto
next
  case (Cons c cs)
  then show ?case by (cases b) auto
qed

lemma replicate_prefix_free:
  "replicate m (CHR ''1'') @ CHR ''0'' # r = replicate n (CHR ''1'') @ CHR ''0'' # s \<Longrightarrow> m = n \<and> r = s"
proof (induction m arbitrary: n)
  case 0
  then show ?case by (cases n) auto
next
  case (Suc m)
  then show ?case by (cases n) auto
qed

lemma demo_text_hd: "\<exists>c t. demo_text j = c # t \<and> c \<noteq> CHR '']'' \<and> c \<noteq> CHR ''}''"
  by (cases j) auto

lemma demo_str_hd: "\<exists>c t. demo_str s = c # t \<and> c \<noteq> CHR '']'' \<and> c \<noteq> CHR ''}''"
  by (cases s) auto

lemma demo_text_prefix_free: "demo_text a @ r = demo_text b @ s \<Longrightarrow> a = b \<and> r = s"
proof (induction a arbitrary: b r s)
  case JNull
  then show ?case by (cases b) (auto split: if_splits)
next
  case (JBool x)
  then show ?case by (cases b) (auto split: if_splits)
next
  case (JNum i)
  then show ?case by (cases b) (auto split: if_splits dest!: replicate_prefix_free)
next
  case (JStr x)
  then show ?case by (cases b) (auto split: if_splits dest!: demo_str_prefix_free)
next
  case (JArr js)
  from JArr.prems obtain ks where b: "b = JArr ks" by (cases b) (auto split: if_splits)
  have "concat (map demo_text js) @ CHR '']'' # r = concat (map demo_text ks) @ CHR '']'' # s \<Longrightarrow> js = ks \<and> r = s"
    using JArr.IH
  proof (induction js arbitrary: ks)
    case Nil
    then show ?case by (cases ks) (auto, metis demo_text_hd list.inject append_Cons)
  next
    case (Cons j js)
    show ?case
    proof (cases ks)
      case Nil
      with Cons.prems demo_text_hd [of j] show ?thesis by auto
    next
      case (Cons k ks')
      with Cons.prems have "demo_text j @ concat (map demo_text js) @ CHR '']'' # r
          = demo_text k @ concat (map demo_text ks') @ CHR '']'' # s" by simp
      then have "j = k" "concat (map demo_text js) @ CHR '']'' # r = concat (map demo_text ks') @ CHR '']'' # s"
        using Cons.prems(2) [of j] by auto
      with Cons.IH [of ks'] Cons.prems(2) Cons show ?thesis by auto
    qed
  qed
  with JArr.prems b show ?case by simp
next
  case (JObj fs)
  let ?f = "\<lambda>(k, j). demo_str k @ demo_text j"
  from JObj.prems obtain gs where b: "b = JObj gs" by (cases b) (auto split: if_splits)
  have "concat (map ?f fs) @ CHR ''}'' # r = concat (map ?f gs) @ CHR ''}'' # s \<Longrightarrow> fs = gs \<and> r = s"
    using JObj.IH
  proof (induction fs arbitrary: gs)
    case Nil
    show ?case
    proof (cases gs)
      case Nil
      with Nil.prems show ?thesis by simp
    next
      case (Cons g gs')
      obtain k j where g: "g = (k, j)" by (cases g)
      obtain c t where "demo_str k = c # t" "c \<noteq> CHR ''}''" using demo_str_hd [of k] by blast
      with Nil.prems Cons g show ?thesis by simp
    qed
  next
    case (Cons f fs)
    obtain k j where f: "f = (k, j)" by (cases f)
    show ?case
    proof (cases gs)
      case Nil
      obtain c t where "demo_str k = c # t" "c \<noteq> CHR ''}''" using demo_str_hd [of k] by blast
      with Cons.prems f Nil show ?thesis by simp
    next
      case (Cons g gs')
      obtain k' j' where g: "g = (k', j')" by (cases g)
      from Cons.prems f g Cons have "demo_str k @ demo_text j @ concat (map ?f fs) @ CHR ''}'' # r
          = demo_str k' @ demo_text j' @ concat (map ?f gs') @ CHR ''}'' # s" by simp
      then have "k = k'" and "demo_text j @ concat (map ?f fs) @ CHR ''}'' # r
          = demo_text j' @ concat (map ?f gs') @ CHR ''}'' # s"
        by (auto dest: demo_str_prefix_free)
      moreover have "f \<in> set (f # fs)" "j \<in> Basic_BNFs.snds f" by (simp_all add: f)
      note Cons.prems(2) [OF this calculation(2)]
      moreover from this have "fs = gs' \<and> r = s"
        using Cons.IH [of gs'] Cons.prems(2) by (metis list.set_intros(2))
      ultimately show ?thesis using Cons f g by simp
    qed
  qed
  with JObj.prems b show ?case by simp
qed
definition demo_serde :: serde where
  "demo_serde =
     \<lparr>sd_to_string = demo_text,
      sd_from_str = (\<lambda>s. if s \<in> range demo_text then Some (inv demo_text s) else None),
      sd_uuid = (\<lambda>u. replicate (Suc (unat u)) (CHR ''u'')),
      sd_uuid_parse = (\<lambda>s. if s = [] then None else Some (of_nat (length s - 1))),
      sd_datetime = (\<lambda>d. demo_text (JNum d))\<rparr>"

lemma demo_text_inj: "inj demo_text"
  by (rule injI) (use demo_text_prefix_free [of _ "[]" _ "[]"] in simp)

lemma demo_serde_ok: "serde_ok demo_serde"
  unfolding serde_ok_def
  by (auto simp: demo_serde_def demo_text_inj char_class_defs intro!: injI dest: injD [OF demo_text_inj]
      simp del: demo_text.simps)

section \<open>A signature instance\<close>

definition demo_letter :: "nat \<Rightarrow> char" where
  "demo_letter n = char_of (97 + n mod 16)"

fun demo_b64 :: "bytes \<Rightarrow> string" where
  "demo_b64 [] = []"
| "demo_b64 (c # cs) = demo_letter (of_char c div 16) # demo_letter (of_char c) # demo_b64 cs"

fun demo_unb64 :: "string \<Rightarrow> bytes option" where
  "demo_unb64 [] = Some []"
| "demo_unb64 [c] = None"
| "demo_unb64 (a # b # cs) =
     map_option ((#) (char_of ((of_char a - 97) * 16 + (of_char b - 97 :: nat)))) (demo_unb64 cs)"

lemma of_demo_letter [simp]: "(of_char (demo_letter n) :: nat) = 97 + n mod 16"
  by (simp add: demo_letter_def of_char_of)

lemma demo_unb64_b64 [simp]: "demo_unb64 (demo_b64 bs) = Some bs"
proof (induction bs)
  case Nil
  then show ?case by simp
next
  case (Cons c cs)
  have "(of_char c :: nat) div 16 mod 16 = of_char c div 16"
    using nat_of_char_less_256 [of c] by (simp add: less_mult_imp_div_less)
  then have "(of_char c div 16 mod 16) * 16 + of_char c mod 16 = (of_char c :: nat)"
    by (metis div_mult_mod_eq)
  with Cons show ?case by simp
qed

lemma demo_letter_plain: "plain_char (demo_letter n)"
  by (simp add: plain_char_def less_eq_char_def)

lemma demo_b64_plain: "c \<in> set (demo_b64 bs) \<Longrightarrow> plain_char c"
  by (induction bs) (auto simp: demo_letter_plain)

definition demo_mark :: "bool \<Rightarrow> char" where
  "demo_mark b = (if b then CHR ''T'' else CHR ''F'')"

definition demo_crypto :: "(bool, bool) crypto" where
  "demo_crypto =
     \<lparr>b64_encode = demo_b64, b64_decode = demo_unb64,
      vk_to_bytes = (\<lambda>k. replicate 32 (demo_mark k)),
      vk_from_bytes = (\<lambda>bs. if bs = replicate 32 (demo_mark True) then Some True
                             else if bs = replicate 32 (demo_mark False) then Some False else None),
      sk_to_bytes = (\<lambda>k. replicate 32 (demo_mark k)),
      sk_from_bytes = (\<lambda>bs. bs = replicate 32 (demo_mark True)),
      verifying_key = id,
      ed_sign = (\<lambda>k m. replicate 64 (demo_mark k)),
      ed_verify = (\<lambda>k m sg. sg = replicate 64 (demo_mark k))\<rparr>"

lemma demo_mark_inj [simp]: "demo_mark a = demo_mark b \<longleftrightarrow> a = b"
  by (auto simp: demo_mark_def)

lemma demo_crypto_ok: "crypto_ok demo_crypto"
  unfolding crypto_ok_def
  by (auto simp: demo_crypto_def demo_b64_plain)

lemma demo_key_ids: "key_id demo_crypto True \<noteq> key_id demo_crypto False"
proof
  have b64_1: "take 16 (demo_b64 (replicate 32 c)) ! 1 = demo_letter (of_char c)" for c
    using replicate_Suc [of 31 c] by simp
  assume "key_id demo_crypto True = key_id demo_crypto False"
  then have "demo_letter (of_char (demo_mark True)) = demo_letter (of_char (demo_mark False))"
    using b64_1 [of "demo_mark True"] b64_1 [of "demo_mark False"]
    by (simp only: key_id_def demo_crypto_def crypto.simps)
  then have "(of_char (demo_letter (of_char (demo_mark True))) :: nat)
      = of_char (demo_letter (of_char (demo_mark False)))" by simp
  then show False by (simp add: demo_mark_def)
qed

end
