(* ===== verification/Crypto_Props.thy ===== *)
theory Crypto_Props
  imports Instances
begin

text \<open>
  Properties of signing, verification and the keyring, each with its hypotheses on the libraries
  stated and shown satisfiable on the concrete instances.
\<close>

definition demo_envelope :: envelope where
  "demo_envelope =
     \<lparr>env_command_id = 7, env_agent_id = AgentId 1, env_template_id = ''t'', env_template_version = 1,
      env_risk_tier = Safe, env_preconditions = [],
      env_steps = [RestartUnit ''nginx.service''], env_verify = None, env_rollback = RollbackNone,
      env_approval_ref = PolicyAuto, env_nonce = ''n'', env_issued_at = 0, env_expires_at = 100,
      env_kid = None, env_sig = None\<rparr>"

text \<open>
  C11: the signed bytes determine every field of the envelope other than \<open>sig\<close>, and only those:
  two envelopes have the same signing payload exactly when they agree on everything but the
  signature. In particular the advertised \<open>kid\<close>, the expiry and every resolved step are bound.
\<close>

theorem signing_payload_binds_envelope:
  assumes "serde_ok S"
  shows "signing_payload S a = signing_payload S b \<longleftrightarrow> a\<lparr>env_sig := None\<rparr> = b\<lparr>env_sig := None\<rparr>"
  using signing_payload_inj [OF assms] signing_payload_sig by metis

theorem signing_payload_binds_envelope_witness:
  "signing_payload demo_serde demo_envelope \<noteq>
     signing_payload demo_serde (demo_envelope\<lparr>env_steps := [NixRollback], env_sig := Some ''x''\<rparr>)"
  using signing_payload_binds_envelope [OF demo_serde_ok, of demo_envelope
      "demo_envelope\<lparr>env_steps := [NixRollback], env_sig := Some ''x''\<rparr>"]
  by (simp add: demo_envelope_def)


text \<open>
  Signing then verifying succeeds: an envelope signed by a key that the verifier's ring files
  under its id is accepted until its expiry, whatever its fields, and the ring's other keys do not
  matter.
\<close>

theorem sign_verify_roundtrip:
  assumes "crypto_ok C" and "keyring_get r (key_id C (verifying_key C k)) = Some (verifying_key C k)"
    and "now \<le> env_expires_at e"
  shows "verify_envelope_with S C r (sign_envelope S C k e) now = Inr ()"
  using sign_envelope_authentic [OF assms] by (simp add: verify_envelope_with_Inr)

theorem sign_verify_roundtrip_witness:
  "verify_envelope_with demo_serde demo_crypto (keyring_single demo_crypto True)
     (sign_envelope demo_serde demo_crypto True demo_envelope) 100 = Inr ()"
proof -
  have vk: "verifying_key demo_crypto True = True" by (simp add: demo_crypto_def)
  show ?thesis
    by (rule sign_verify_roundtrip [OF demo_crypto_ok]) (simp_all add: vk keyring_get_single demo_envelope_def)
qed

text \<open>
  Rotation. A ring that holds the old key next to the new one accepts envelopes signed by
  either; once the old key is gone from the ring, its envelopes are refused as signed by an unknown
  key.
\<close>

theorem rotation_overlap:
  assumes "crypto_ok C" and "key_id C (verifying_key C old) \<noteq> key_id C (verifying_key C new)"
    and "now \<le> env_expires_at e"
  shows "let ring = snd (keyring_insert C (verifying_key C old) (keyring_single C (verifying_key C new)))
         in verify_envelope_with S C ring (sign_envelope S C old e) now = Inr ()
            \<and> verify_envelope_with S C ring (sign_envelope S C new e) now = Inr ()
            \<and> verify_envelope_with S C (keyring_single C (verifying_key C new)) (sign_envelope S C old e) now
                = Inl UnknownKey"
proof -
  define ring where "ring = snd (keyring_insert C (verifying_key C old) (keyring_single C (verifying_key C new)))"
  have get: "keyring_get ring kid = (if kid = key_id C (verifying_key C old) then Some (verifying_key C old)
      else keyring_get (keyring_single C (verifying_key C new)) kid)" for kid
    unfolding ring_def by (rule keyring_get_insert [OF keyring_ok_single(1)])
  have "authentic S C ring (sign_envelope S C k e) now" if "k = old \<or> k = new" for k
    using that assms by (intro sign_envelope_authentic) (auto simp: get keyring_get_single)
  moreover have "select_key (keyring_single C (verifying_key C new)) (sign_envelope S C old e) = None"
    using assms(2) by (simp add: select_key_def keyring_get_single)
  ultimately show ?thesis
    by (simp add: Let_def ring_def [symmetric] verify_envelope_with_Inr) (simp add: verify_envelope_with_def)
qed

theorem rotation_overlap_witness:
  "verify_envelope_with demo_serde demo_crypto (keyring_single demo_crypto True)
     (sign_envelope demo_serde demo_crypto False demo_envelope) 0 = Inl UnknownKey"
proof -
  have vk: "verifying_key demo_crypto b = b" for b by (simp add: demo_crypto_def)
  have "key_id demo_crypto (verifying_key demo_crypto False) \<noteq> key_id demo_crypto (verifying_key demo_crypto True)"
    using demo_key_ids by (simp add: vk)
  from rotation_overlap [OF demo_crypto_ok this, of 0 demo_envelope demo_serde]
  show ?thesis by (simp add: Let_def vk demo_envelope_def)
qed

text \<open>
  C40: a keyring survives publication: reading the JSON document a well-formed ring prints gives
  the same ring back, default key included.
\<close>

theorem keyring_document_roundtrip:
  assumes "serde_ok S" and "crypto_ok C" and "keyring_ok r"
  shows "keyring_from_json S C (keyring_to_json S C r) = Inr r"
  using assms by (rule keyring_json_roundtrip)

theorem keyring_document_roundtrip_witness:
  "keyring_from_json demo_serde demo_crypto
     (keyring_to_json demo_serde demo_crypto (keyring_single demo_crypto True))
   = Inr (keyring_single demo_crypto True)"
  by (rule keyring_document_roundtrip [OF demo_serde_ok demo_crypto_ok keyring_ok_single(1)])

end
