(* ===== verification/Actuator.thy ===== *)
theory Actuator
  imports Crypto
begin

text \<open>
  \<^verbatim>\<open>crates/ravn-actuator/src/lib.rs\<close>: the privileged actuator. \<open>handle_command\<close>
  verifies an envelope, validates its identifiers, checks the preconditions, runs the steps, polls
  the post-condition until a deadline and rolls back. It is written over any executor (the
  \<open>CapabilityExecutor\<close> trait is the argument \<open>run\<close>, acting on a world \<open>'w\<close>) and any
  runtime (wall clock, monotonic clock, sleep). The poll loop is a
  \<^theory_text>\<open>partial_function\<close>: \<open>None\<close> is a loop that never ends, and it is proved to end
  for every executor whose sleep advances the monotonic clock. An arithmetic panic is an outcome.

  The locale \<open>capability_executor\<close> is the trait's contract: running a capability only appends
  effects allowed for that capability. What follows for \<open>handle_command\<close> is proved once there
  and interpreted for the host executor below and for the in-cluster executor in its own theory.
\<close>

section \<open>Identifier validation\<close>

definition unit_char :: "char \<Rightarrow> bool" where
  "unit_char c \<longleftrightarrow> is_ascii_alphanumeric c \<or> c \<in> set [CHR ''.'', CHR ''_'', CHR ''-'', CHR ''@'', CHR '':'', CHR 0x5C]"

definition is_valid_unit :: "string \<Rightarrow> bool" where
  "is_valid_unit u \<longleftrightarrow> u \<noteq> [] \<and> length u \<le> 256 \<and> list_all unit_char u"

fun capability_unit :: "capability \<Rightarrow> string option" where
  "capability_unit (ResetFailed u) = Some u"
| "capability_unit (RestartUnit u) = Some u"
| "capability_unit (UnitState u) = Some u"
| "capability_unit NixRollback = None"
| "capability_unit (DeletePod _ _) = None"
| "capability_unit (RestartDeployment _ _) = None"
| "capability_unit (PodState _ _) = None"

definition envelope_contains_kube_capability :: "envelope \<Rightarrow> bool" where
  "envelope_contains_kube_capability e \<longleftrightarrow>
     (\<exists>c\<in>set (env_preconditions e). is_kube_capability (cond_check c))
     \<or> (\<exists>c\<in>set (env_steps e). is_kube_capability c)
     \<or> (case env_verify e of None \<Rightarrow> False | Some v \<Rightarrow> is_kube_capability (vf_check v))"

text \<open>The first refused identifier of one capability, and of the whole envelope.\<close>

definition invalid_kube_id :: "(string \<times> string) list \<Rightarrow> detail option" where
  "invalid_kube_id ids =
     map_option (\<lambda>(f, i). DInvalidKubeId f i) (find (\<lambda>(f, i). \<not> is_valid_k8s_label i) ids)"

definition invalid_identifier :: "capability \<Rightarrow> detail option" where
  "invalid_identifier c =
     (case capability_unit c of
        Some u \<Rightarrow> if \<not> is_valid_unit u then Some (DInvalidUnit u) else invalid_kube_id (capability_kube_ids c)
      | None \<Rightarrow> invalid_kube_id (capability_kube_ids c))"

fun first_invalid :: "capability list \<Rightarrow> detail option" where
  "first_invalid [] = None"
| "first_invalid (c # cs) = (case invalid_identifier c of Some d \<Rightarrow> Some d | None \<Rightarrow> first_invalid cs)"

section \<open>Executors and runtimes\<close>

type_synonym exec_result = "exec_error + string option"
type_synonym 'w run_fun = "capability \<Rightarrow> 'w \<Rightarrow> exec_result \<times> 'w"

record 'w runtime =
  rt_utc_now :: "'w \<Rightarrow> datetime"
  rt_instant :: "'w \<Rightarrow> nat"
  rt_sleep :: "nat \<Rightarrow> 'w \<Rightarrow> 'w"

datatype 'a outcome = Returned 'a | Panicked

abbreviation nanos :: nat where
  "nanos \<equiv> 1000000000"

definition verify_poll_interval :: nat where
  "verify_poll_interval = 500000000"

text \<open>\<open>Instant + Duration::from_secs\<close>: panics (\<open>None\<close>) when the seconds overflow \<open>i64\<close>.\<close>

definition instant_add :: "nat \<Rightarrow> u64 \<Rightarrow> nat option" where
  "instant_add t secs =
     (if (t + unat secs * nanos) div nanos < 2 ^ 63 then Some (t + unat secs * nanos) else None)"

section \<open>Handling one command\<close>

definition make_result ::
  "'w runtime \<Rightarrow> envelope \<Rightarrow> action_status \<Rightarrow> detail option \<Rightarrow> string option \<Rightarrow> 'w \<Rightarrow> action_result" where
  "make_result rt e st d obs w =
     \<lparr>res_command_id = env_command_id e, res_status = st, res_detail = d, res_observed_state = obs,
      res_finished_at = rt_utc_now rt w\<rparr>"

definition unwrap_or_default :: "string option \<Rightarrow> string" where
  "unwrap_or_default x = (case x of None \<Rightarrow> [] | Some s \<Rightarrow> s)"

fun check_preconditions ::
  "'w run_fun \<Rightarrow> 'w runtime \<Rightarrow> envelope \<Rightarrow> condition list \<Rightarrow> 'w \<Rightarrow> (action_result \<times> 'w) + 'w" where
  "check_preconditions run rt e [] w = Inr w"
| "check_preconditions run rt e (c # cs) w =
     (case run (cond_check c) w of
        (Inr obs, w') \<Rightarrow>
          let observed = unwrap_or_default obs
          in if observed \<noteq> cond_equals c
             then Inl (make_result rt e PreconditionFailed
                         (Some (DPreconditionFailed (cond_equals c) observed)) (Some observed) w', w')
             else check_preconditions run rt e cs w'
      | (Inl err, w') \<Rightarrow> Inl (make_result rt e Failed (Some (DPreconditionErrored err)) None w', w'))"

fun run_steps ::
  "'w run_fun \<Rightarrow> 'w runtime \<Rightarrow> envelope \<Rightarrow> capability list \<Rightarrow> 'w \<Rightarrow> (action_result \<times> 'w) + 'w" where
  "run_steps run rt e [] w = Inr w"
| "run_steps run rt e (c # cs) w =
     (case run c w of
        (Inr _, w') \<Rightarrow> run_steps run rt e cs w'
      | (Inl err, w') \<Rightarrow> Inl (make_result rt e Failed (Some (DStepFailed err)) None w', w'))"

definition perform_rollback ::
  "'w run_fun \<Rightarrow> 'w runtime \<Rightarrow> envelope \<Rightarrow> detail \<Rightarrow> string \<Rightarrow> 'w \<Rightarrow> action_result \<times> 'w" where
  "perform_rollback run rt e d observed w =
     (let obs = (if observed = [] then None else Some observed)
      in case env_rollback e of
           RollbackNone \<Rightarrow> (make_result rt e Failed (Some d) obs w, w)
         | NixGeneration \<Rightarrow>
             (case run NixRollback w of
                (Inr _, w') \<Rightarrow> (make_result rt e Failed (Some (DRolledBack d)) obs w', w')
              | (Inl err, w') \<Rightarrow> (make_result rt e Frozen (Some (DRollbackFailed d err)) obs w', w')))"

partial_function (option) verify_poll ::
  "'w run_fun \<Rightarrow> 'w runtime \<Rightarrow> envelope \<Rightarrow> verify \<Rightarrow> nat \<Rightarrow> 'w \<Rightarrow> (action_result \<times> 'w) option" where
  "verify_poll run rt e v deadline w =
     (case run (vf_check v) w of
        (Inr obs, w') \<Rightarrow>
          if unwrap_or_default obs = vf_equals v
          then Some (make_result rt e Succeeded None (Some (unwrap_or_default obs)) w', w')
          else if rt_instant rt w' \<ge> deadline
          then Some (perform_rollback run rt e (DVerifyFailed (vf_equals v) (unwrap_or_default obs))
                       (unwrap_or_default obs) w')
          else verify_poll run rt e v deadline (rt_sleep rt verify_poll_interval w')
      | (Inl err, w') \<Rightarrow> Some (perform_rollback run rt e (DVerifyErrored err) [] w'))"

definition handle_command ::
  "serde \<Rightarrow> ('sk, 'vk) crypto \<Rightarrow> 'w run_fun \<Rightarrow> 'w runtime \<Rightarrow> 'vk keyring \<Rightarrow> envelope \<Rightarrow> 'w
     \<Rightarrow> (action_result outcome \<times> 'w) option" where
  "handle_command S C run rt ring e w =
     (case verify_envelope_with S C ring e (rt_utc_now rt w) of
        Inl err \<Rightarrow> Some (Returned (make_result rt e Rejected (Some (DText (verify_error_display err))) None w), w)
      | Inr _ \<Rightarrow>
          (case first_invalid (envelope_capabilities e) of
             Some d \<Rightarrow> Some (Returned (make_result rt e Rejected (Some d) None w), w)
           | None \<Rightarrow>
               (case check_preconditions run rt e (env_preconditions e) w of
                  Inl (r, w1) \<Rightarrow> Some (Returned r, w1)
                | Inr w1 \<Rightarrow>
                    (case run_steps run rt e (env_steps e) w1 of
                       Inl (r, w2) \<Rightarrow> Some (Returned r, w2)
                     | Inr w2 \<Rightarrow>
                         (case env_verify e of
                            None \<Rightarrow> Some (Returned (make_result rt e Succeeded None None w2), w2)
                          | Some v \<Rightarrow>
                              (case instant_add (rt_instant rt w2) (vf_timeout_s v) of
                                 None \<Rightarrow> Some (Panicked, w2)
                               | Some deadline \<Rightarrow>
                                   map_option (\<lambda>(r, w3). (Returned r, w3))
                                     (verify_poll run rt e v deadline w2)))))))"

section \<open>What one command may do\<close>

text \<open>The capabilities a command may run: those it carries, and the rollback it declares.\<close>

definition plan :: "envelope \<Rightarrow> capability list" where
  "plan e = envelope_capabilities e @ (case env_rollback e of RollbackNone \<Rightarrow> [] | NixGeneration \<Rightarrow> [NixRollback])"

lemma plan_simps [simp]:
  "c \<in> set (env_preconditions e) \<Longrightarrow> cond_check c \<in> set (plan e)"
  "s \<in> set (env_steps e) \<Longrightarrow> s \<in> set (plan e)"
  "env_verify e = Some v \<Longrightarrow> vf_check v \<in> set (plan e)"
  "env_rollback e = NixGeneration \<Longrightarrow> NixRollback \<in> set (plan e)"
  by (simp_all add: plan_def envelope_capabilities_def)

text \<open>
  An invariant that every capability of a plan and every sleep keeps holds at the end: the rule
  that the effect and trace results below instantiate.
\<close>

definition kept_by :: "'w run_fun \<Rightarrow> 'w runtime \<Rightarrow> capability set \<Rightarrow> ('w \<Rightarrow> bool) \<Rightarrow> bool" where
  "kept_by run rt cs P \<longleftrightarrow>
     (\<forall>c\<in>cs. \<forall>w. P w \<longrightarrow> P (snd (run c w))) \<and> (\<forall>n w. P w \<longrightarrow> P (rt_sleep rt n w))"

lemma kept_by_run: "kept_by run rt cs P \<Longrightarrow> c \<in> cs \<Longrightarrow> P w \<Longrightarrow> run c w = (r, w') \<Longrightarrow> P w'"
  by (metis kept_by_def snd_conv)

lemma kept_by_sleep: "kept_by run rt cs P \<Longrightarrow> P w \<Longrightarrow> P (rt_sleep rt n w)"
  by (simp add: kept_by_def)

lemma check_preconditions_keeps:
  assumes "kept_by run rt cs P" and "cond_check ` set conds \<subseteq> cs" and "P w"
  shows "case check_preconditions run rt e conds w of Inl (r, w') \<Rightarrow> P w' | Inr w' \<Rightarrow> P w'"
  using assms(2,3)
proof (induction conds arbitrary: w)
  case Nil
  then show ?case by simp
next
  case (Cons c conds)
  obtain r w' where rw: "run (cond_check c) w = (r, w')" by fastforce
  with Cons.prems have "P w'" by (auto intro: kept_by_run [OF assms(1)])
  with Cons.IH [of w'] Cons.prems(1) rw show ?case by (cases r) (auto simp: Let_def)
qed

lemma run_steps_keeps:
  assumes "kept_by run rt cs P" and "set steps \<subseteq> cs" and "P w"
  shows "case run_steps run rt e steps w of Inl (r, w') \<Rightarrow> P w' | Inr w' \<Rightarrow> P w'"
  using assms(2,3)
proof (induction steps arbitrary: w)
  case Nil
  then show ?case by simp
next
  case (Cons c steps)
  obtain r w' where rw: "run c w = (r, w')" by fastforce
  with Cons.prems have "P w'" by (auto intro: kept_by_run [OF assms(1)])
  with Cons.IH [of w'] Cons.prems(1) rw show ?case by (cases r) auto
qed

lemma perform_rollback_keeps:
  assumes "kept_by run rt (set (plan e)) P" and "P w"
  shows "P (snd (perform_rollback run rt e d obs w))"
proof (cases "env_rollback e")
  case RollbackNone
  with assms show ?thesis by (simp add: perform_rollback_def Let_def)
next
  case NixGeneration
  obtain r w' where rw: "run NixRollback w = (r, w')" by fastforce
  from kept_by_run [OF assms(1) plan_simps(4) [OF NixGeneration] assms(2) rw] have "P w'" .
  with NixGeneration rw show ?thesis by (cases r) (auto simp: perform_rollback_def Let_def)
qed

lemma verify_poll_keeps:
  assumes ret: "verify_poll run rt e v deadline w = Some res"
    and "kept_by run rt (set (plan e)) P" and "vf_check v \<in> set (plan e)" and "P w"
  shows "P (snd res)"
proof -
  have "kept_by run rt (set (plan e)) P \<longrightarrow> vf_check v \<in> set (plan e) \<longrightarrow> P w \<longrightarrow> P (snd res)"
  proof (rule verify_poll.raw_induct [where P = "\<lambda>run rt e v dl w res.
        kept_by run rt (set (plan e)) P \<longrightarrow> vf_check v \<in> set (plan e) \<longrightarrow> P w \<longrightarrow> P (snd res)", OF _ ret])
    fix f run rt e v dl w res
    assume IH: "\<And>run rt e v dl w res. f run rt e v dl w = Some res \<Longrightarrow>
        kept_by run rt (set (plan e)) P \<longrightarrow> vf_check v \<in> set (plan e) \<longrightarrow> P w \<longrightarrow> P (snd res)"
      and eq: "(case run (vf_check v) w of
        (Inr obs, w') \<Rightarrow>
          if unwrap_or_default obs = vf_equals v
          then Some (make_result rt e Succeeded None (Some (unwrap_or_default obs)) w', w')
          else if rt_instant rt w' \<ge> dl
          then Some (perform_rollback run rt e (DVerifyFailed (vf_equals v) (unwrap_or_default obs))
                       (unwrap_or_default obs) w')
          else f run rt e v dl (rt_sleep rt verify_poll_interval w')
      | (Inl err, w') \<Rightarrow> Some (perform_rollback run rt e (DVerifyErrored err) [] w')) = Some res"
    show "kept_by run rt (set (plan e)) P \<longrightarrow> vf_check v \<in> set (plan e) \<longrightarrow> P w \<longrightarrow> P (snd res)"
    proof (intro impI)
      assume keep: "kept_by run rt (set (plan e)) P" and mem: "vf_check v \<in> set (plan e)" and w: "P w"
      obtain r w' where rw: "run (vf_check v) w = (r, w')" by fastforce
      from kept_by_run [OF keep mem w rw] have w': "P w'" .
      show "P (snd res)"
        using eq rw w' perform_rollback_keeps [OF keep w'] IH [of run rt e v dl _ res] keep mem
          kept_by_sleep [OF keep w']
        by (auto split: sum.splits if_splits)
    qed
  qed
  with assms show ?thesis by blast
qed

lemma handle_command_keeps:
  assumes ret: "handle_command S C run rt ring e w = Some (out, w')"
    and keep: "kept_by run rt (set (plan e)) P" and "P w"
  shows "P w'"
proof -
  have "cond_check ` set (env_preconditions e) \<subseteq> set (plan e)" "set (env_steps e) \<subseteq> set (plan e)"
    by auto
  note pre = check_preconditions_keeps [OF keep this(1) \<open>P w\<close>, of e]
    and steps = run_steps_keeps [OF keep this(2)]
    and poll = verify_poll_keeps [OF _ keep]
  show ?thesis
  proof (cases "check_preconditions run rt e (env_preconditions e) w")
    case (Inl a)
    with ret pre \<open>P w\<close> show ?thesis
      by (auto simp: handle_command_def split: sum.splits option.splits prod.splits)
  next
    case (Inr w1)
    with pre have "P w1" by simp
    note steps = steps [OF this, of e]
    show ?thesis
    proof (cases "run_steps run rt e (env_steps e) w1")
      case (Inl a)
      with ret Inr steps \<open>P w\<close> show ?thesis
        by (auto simp: handle_command_def split: sum.splits option.splits prod.splits)
    next
      case (Inr w2)
      with steps have "P w2" by simp
      with ret \<open>check_preconditions _ _ _ _ _ = Inr w1\<close> Inr \<open>P w\<close> show ?thesis
        by (auto simp: handle_command_def split: sum.splits option.splits prod.splits dest!: poll)
    qed
  qed
qed

lemma handle_command_refused:
  assumes "handle_command S C run rt ring e w = Some (out, w')"
    and "\<not> authentic S C ring e (rt_utc_now rt w) \<or> first_invalid (envelope_capabilities e) \<noteq> None"
  shows "w' = w \<and> (\<exists>r. out = Returned r \<and> res_status r = Rejected \<and> res_command_id r = env_command_id e)"
proof (cases "verify_envelope_with S C ring e (rt_utc_now rt w)")
  case (Inl err)
  with assms(1) show ?thesis by (auto simp: handle_command_def make_result_def)
next
  case (Inr u)
  then have "authentic S C ring e (rt_utc_now rt w)" by (simp add: verify_envelope_with_Inr [symmetric])
  with assms Inr show ?thesis by (auto simp: handle_command_def make_result_def)
qed

section \<open>The executor contract\<close>

locale capability_executor =
  fixes run :: "'w run_fun" and rt :: "'w runtime" and log :: "'w \<Rightarrow> 'e list"
    and allowed :: "capability \<Rightarrow> 'e set"
  assumes run_log: "\<exists>es. log (snd (run c w)) = log w @ es \<and> set es \<subseteq> allowed c"
    and sleep_log: "log (rt_sleep rt n w) = log w"
begin

lemma kept_by_log: "kept_by run rt cs (\<lambda>u. \<exists>es. log u = log w @ es \<and> set es \<subseteq> (\<Union>c\<in>cs. allowed c))"
  unfolding kept_by_def
proof (intro conjI ballI allI impI)
  fix c u
  assume c: "c \<in> cs" and "\<exists>es. log u = log w @ es \<and> set es \<subseteq> (\<Union>c\<in>cs. allowed c)"
  then obtain es where es: "log u = log w @ es" "set es \<subseteq> (\<Union>c\<in>cs. allowed c)" by blast
  obtain fs where fs: "log (snd (run c u)) = log u @ fs" "set fs \<subseteq> allowed c" using run_log by blast
  show "\<exists>es. log (snd (run c u)) = log w @ es \<and> set es \<subseteq> (\<Union>c\<in>cs. allowed c)"
    using es fs c by (intro exI [of _ "es @ fs"]) auto
qed (simp add: sleep_log)

lemma command_effects:
  assumes "handle_command S C run rt ring e w = Some (out, w')"
  shows "\<exists>es. log w' = log w @ es \<and> set es \<subseteq> (\<Union>c\<in>set (plan e). allowed c)"
  using handle_command_keeps [OF assms kept_by_log [of "set (plan e)" w]] by force

lemma command_effects_authentic:
  assumes "handle_command S C run rt ring e w = Some (out, w')" and "log w' \<noteq> log w"
  shows "authentic S C ring e (rt_utc_now rt w)" and "first_invalid (envelope_capabilities e) = None"
  using handle_command_refused [OF assms(1)] assms(2) by blast+

end

text \<open>A runtime whose sleep lasts at least as long as asked, and an executor that takes no time back.\<close>

locale timed_executor = capability_executor +
  assumes sleep_instant: "rt_instant rt w + n \<le> rt_instant rt (rt_sleep rt n w)"
    and run_instant: "rt_instant rt w \<le> rt_instant rt (snd (run c w))"
begin

lemma verify_poll_returns: "\<exists>res. verify_poll run rt e v deadline w = Some res"
proof (induction "deadline - rt_instant rt w" arbitrary: w rule: less_induct)
  case less
  obtain r w' where rw: "run (vf_check v) w = (r, w')" by fastforce
  then have mono: "rt_instant rt w \<le> rt_instant rt w'" using run_instant by (metis snd_conv)
  show ?case
  proof (cases "rt_instant rt w' < deadline")
    case True
    have "rt_instant rt w' + verify_poll_interval \<le> rt_instant rt (rt_sleep rt verify_poll_interval w')"
      by (rule sleep_instant)
    then have "deadline - rt_instant rt (rt_sleep rt verify_poll_interval w') < deadline - rt_instant rt w"
      using True mono by (simp add: verify_poll_interval_def)
    then obtain res where "verify_poll run rt e v deadline (rt_sleep rt verify_poll_interval w') = Some res"
      using less by blast
    with rw True show ?thesis by (auto simp: verify_poll.simps [of run rt e v deadline w] split: sum.splits)
  next
    case False
    with rw show ?thesis by (auto simp: verify_poll.simps [of run rt e v deadline w] split: sum.splits)
  qed
qed

lemma command_returns: "\<exists>out w'. handle_command S C run rt ring e w = Some (out, w')"
  using verify_poll_returns
  by (fastforce simp: handle_command_def split: sum.splits option.splits prod.splits)

end

section \<open>The order of execution\<close>

text \<open>
  An executor that also writes down which capabilities it was asked to run, over a runtime that
  ignores the record. Tracing is itself an executor whose effects are the capabilities.
\<close>

definition traced :: "'w run_fun \<Rightarrow> ('w \<times> capability list) run_fun" where
  "traced run c wt = (case run c (fst wt) of (r, w') \<Rightarrow> (r, (w', snd wt @ [c])))"

definition traced_rt :: "'w runtime \<Rightarrow> ('w \<times> capability list) runtime" where
  "traced_rt rt =
     \<lparr>rt_utc_now = (\<lambda>wt. rt_utc_now rt (fst wt)), rt_instant = (\<lambda>wt. rt_instant rt (fst wt)),
      rt_sleep = (\<lambda>n wt. (rt_sleep rt n (fst wt), snd wt))\<rparr>"

lemma traced_eq: "run c w = (r, w') \<Longrightarrow> traced run c (w, ts) = (r, (w', ts @ [c]))"
  by (simp add: traced_def)

lemma traced_rt_simps [simp]:
  "rt_utc_now (traced_rt rt) (w, ts) = rt_utc_now rt w"
  "rt_instant (traced_rt rt) (w, ts) = rt_instant rt w"
  "rt_sleep (traced_rt rt) n (w, ts) = (rt_sleep rt n w, ts)"
  by (simp_all add: traced_rt_def)

interpretation tr: capability_executor "traced run" "traced_rt rt" snd "\<lambda>c. {c}" for run rt
  by unfold_locales (auto simp: traced_def traced_rt_def split: prod.splits)

lemma make_result_status [simp]:
  "res_status (make_result rt e st d obs w) = st"
  "res_command_id (make_result rt e st d obs w) = env_command_id e"
  by (simp_all add: make_result_def)

lemma check_preconditions_trace:
  "case check_preconditions (traced run) (traced_rt rt) e conds (w, ts) of
     Inr (w', ts') \<Rightarrow> ts' = ts @ map cond_check conds
   | Inl (r, (w', ts')) \<Rightarrow>
       res_status r \<in> {PreconditionFailed, Failed} \<and> res_command_id r = env_command_id e
       \<and> (\<exists>ps. ps \<noteq> [] \<and> prefix ps (map cond_check conds) \<and> ts' = ts @ ps)"
proof (induction conds arbitrary: w ts)
  case Nil
  then show ?case by simp
next
  case (Cons c conds)
  obtain r w' where rw: "run (cond_check c) w = (r, w')" by fastforce
  note tr = traced_eq [of run "cond_check c" w r w' ts, OF rw]
  show ?case
  proof (cases "\<exists>obs. r = Inr obs \<and> unwrap_or_default obs = cond_equals c")
    case True
    then obtain obs where "r = Inr obs" "unwrap_or_default obs = cond_equals c" by blast
    with tr Cons.IH [of "ts @ [cond_check c]" w'] show ?thesis
      by (auto simp: Let_def split: sum.splits prod.splits)
  next
    case False
    then show ?thesis
      using tr by (cases r) (auto simp: Let_def intro!: exI [of _ "[cond_check c]"])
  qed
qed

lemma run_steps_trace:
  "case run_steps (traced run) (traced_rt rt) e steps (w, ts) of
     Inr (w', ts') \<Rightarrow> ts' = ts @ steps
   | Inl (r, (w', ts')) \<Rightarrow>
       res_status r = Failed \<and> res_command_id r = env_command_id e
       \<and> (\<exists>ps. ps \<noteq> [] \<and> prefix ps steps \<and> ts' = ts @ ps)"
proof (induction steps arbitrary: w ts)
  case Nil
  then show ?case by simp
next
  case (Cons c steps)
  obtain r w' where rw: "run c w = (r, w')" by fastforce
  note tr = traced_eq [of run c w r w' ts, OF rw]
  show ?case
  proof (cases r)
    case (Inl err)
    with tr show ?thesis by (auto intro!: exI [of _ "[c]"])
  next
    case (Inr obs)
    with tr Cons.IH [of "ts @ [c]" w'] show ?thesis
      by (auto split: sum.splits prod.splits)
  qed
qed

text \<open>What polling and rolling back appends to the trace, and the status that goes with it.\<close>

definition poll_tail :: "envelope \<Rightarrow> verify \<Rightarrow> action_status \<Rightarrow> capability list \<Rightarrow> bool" where
  "poll_tail e v st ts \<longleftrightarrow>
     (\<exists>n>0. (st = Succeeded \<and> ts = replicate n (vf_check v))
        \<or> (st = Failed \<and> env_rollback e = RollbackNone \<and> ts = replicate n (vf_check v))
        \<or> (st \<in> {Failed, Frozen} \<and> env_rollback e = NixGeneration
             \<and> ts = replicate n (vf_check v) @ [NixRollback]))"

lemma poll_tail_Cons: "poll_tail e v st ts \<Longrightarrow> poll_tail e v st (vf_check v # ts)"
  unfolding poll_tail_def by (metis append_Cons replicate_Suc zero_less_Suc)

lemma perform_rollback_trace:
  assumes "perform_rollback (traced run) (traced_rt rt) e d obs (w, ts) = (r, (w', ts'))"
  shows "res_command_id r = env_command_id e \<and>
    (res_status r = Failed \<and> env_rollback e = RollbackNone \<and> ts' = ts
     \<or> res_status r \<in> {Failed, Frozen} \<and> env_rollback e = NixGeneration \<and> ts' = ts @ [NixRollback])"
proof (cases "env_rollback e")
  case RollbackNone
  with assms show ?thesis by (auto simp: perform_rollback_def Let_def)
next
  case NixGeneration
  obtain q u where "run NixRollback w = (q, u)" by fastforce
  with traced_eq [of run NixRollback w q u ts] NixGeneration assms show ?thesis
    by (cases q) (auto simp: perform_rollback_def Let_def)
qed

lemma poll_tail_rollback:
  assumes "perform_rollback (traced run) (traced_rt rt) e d obs (w, ts @ [vf_check v]) = (r, (w', ts'))"
  shows "\<exists>us. ts' = ts @ us \<and> poll_tail e v (res_status r) us \<and> res_command_id r = env_command_id e"
proof -
  note rb = perform_rollback_trace [OF assms]
  have one: "[vf_check v] = replicate 1 (vf_check v)" by simp
  show ?thesis
  proof (cases "env_rollback e")
    case RollbackNone
    with rb have "poll_tail e v (res_status r) [vf_check v]" unfolding poll_tail_def by (metis one zero_less_one rollback.distinct(1))
    with rb RollbackNone show ?thesis by auto
  next
    case NixGeneration
    with rb have "poll_tail e v (res_status r) ([vf_check v] @ [NixRollback])"
      unfolding poll_tail_def by (metis one zero_less_one rollback.distinct(1))
    with rb NixGeneration show ?thesis by auto
  qed
qed

lemma verify_poll_trace:
  assumes ret: "verify_poll (traced run) (traced_rt rt) e v deadline (w, ts) = Some (r, (w', ts'))"
  shows "\<exists>us. ts' = ts @ us \<and> poll_tail e v (res_status r) us \<and> res_command_id r = env_command_id e"
proof -
  let ?Q = "\<lambda>R T e v (wt :: 'a \<times> capability list) (res :: action_result \<times> 'a \<times> capability list).
    \<forall>run rt w ts r w' ts'. R = traced run \<longrightarrow> T = traced_rt rt \<longrightarrow> wt = (w, ts) \<longrightarrow> res = (r, (w', ts'))
      \<longrightarrow> (\<exists>us. ts' = ts @ us \<and> poll_tail e v (res_status r) us \<and> res_command_id r = env_command_id e)"
  have "?Q (traced run) (traced_rt rt) e v (w, ts) (r, (w', ts'))"
  proof (rule verify_poll.raw_induct [where P = "\<lambda>R T e v dl wt res. ?Q R T e v wt res", OF _ ret])
    fix f R T e v dl wt res
    assume IH: "\<And>R T e v dl wt res. f R T e v dl wt = Some res \<Longrightarrow> ?Q R T e v wt res"
      and eq: "(case R (vf_check v) wt of
        (Inr obs, w') \<Rightarrow>
          if unwrap_or_default obs = vf_equals v
          then Some (make_result T e Succeeded None (Some (unwrap_or_default obs)) w', w')
          else if rt_instant T w' \<ge> dl
          then Some (perform_rollback R T e (DVerifyFailed (vf_equals v) (unwrap_or_default obs))
                       (unwrap_or_default obs) w')
          else f R T e v dl (rt_sleep T verify_poll_interval w')
      | (Inl err, w') \<Rightarrow> Some (perform_rollback R T e (DVerifyErrored err) [] w')) = Some res"
    show "?Q R T e v wt res"
    proof (intro allI impI)
      fix run rt w ts r w' ts'
      assume R: "R = traced run" and T: "T = traced_rt rt" and wt: "wt = (w, ts)" and res: "res = (r, (w', ts'))"
      obtain q u where rw: "run (vf_check v) w = (q, u)" by fastforce
      note tr = traced_eq [of run "vf_check v" w q u ts, OF rw]
      consider (err) err where "q = Inl err"
        | (hit) obs where "q = Inr obs" "unwrap_or_default obs = vf_equals v"
        | (late) obs where "q = Inr obs" "unwrap_or_default obs \<noteq> vf_equals v" "rt_instant rt u \<ge> dl"
        | (again) obs where "q = Inr obs" "unwrap_or_default obs \<noteq> vf_equals v" "\<not> rt_instant rt u \<ge> dl"
        by (cases q) auto
      then show "\<exists>us. ts' = ts @ us \<and> poll_tail e v (res_status r) us \<and> res_command_id r = env_command_id e"
      proof cases
        case err
        with eq tr R T wt res show ?thesis by (auto intro: poll_tail_rollback)
      next
        case hit
        have "poll_tail e v Succeeded [vf_check v]"
          unfolding poll_tail_def by (intro exI [of _ "1::nat"]) simp
        with hit eq tr R T wt res show ?thesis by auto
      next
        case late
        with eq tr R T wt res show ?thesis by (auto intro: poll_tail_rollback)
      next
        case again
        with eq tr R T wt res
        have "f (traced run) (traced_rt rt) e v dl (rt_sleep rt verify_poll_interval u, ts @ [vf_check v])
            = Some (r, (w', ts'))" by simp
        from IH [OF this] obtain us where "ts' = (ts @ [vf_check v]) @ us" "poll_tail e v (res_status r) us"
            "res_command_id r = env_command_id e" by blast
        then show ?thesis by (intro exI [of _ "vf_check v # us"]) (auto intro: poll_tail_Cons)
      qed
    qed
  qed
  then show ?thesis by blast
qed

text \<open>
  The trace of a whole command, by outcome: nothing for a refused one; a non-empty part of the
  preconditions when one of them fails; all preconditions, then the steps in order; polling and then
  at most one rollback after all steps.
\<close>

definition legal_trace :: "envelope \<Rightarrow> action_result outcome \<Rightarrow> capability list \<Rightarrow> bool" where
  "legal_trace e out ts \<longleftrightarrow>
     (let pre = map cond_check (env_preconditions e); steps = env_steps e
      in case out of
           Panicked \<Rightarrow> ts = pre @ steps
         | Returned r \<Rightarrow>
             res_command_id r = env_command_id e
             \<and> (case res_status r of
                  Rejected \<Rightarrow> ts = []
                | PreconditionFailed \<Rightarrow> ts \<noteq> [] \<and> prefix ts pre
                | Succeeded \<Rightarrow>
                    (case env_verify e of
                       None \<Rightarrow> ts = pre @ steps
                     | Some v \<Rightarrow> (\<exists>n>0. ts = pre @ steps @ replicate n (vf_check v)))
                | Failed \<Rightarrow>
                    (ts \<noteq> [] \<and> prefix ts (pre @ steps))
                    \<or> (\<exists>v us. env_verify e = Some v \<and> poll_tail e v Failed us \<and> ts = pre @ steps @ us)
                | Frozen \<Rightarrow>
                    (\<exists>v n. env_verify e = Some v \<and> env_rollback e = NixGeneration \<and> n > 0
                       \<and> ts = pre @ steps @ replicate n (vf_check v) @ [NixRollback])))"

lemma legal_trace_rejected: "legal_trace e (Returned (make_result rt e Rejected d obs w)) []"
  by (simp add: legal_trace_def Let_def)

lemma legal_trace_precondition:
  assumes "res_status r \<in> {PreconditionFailed, Failed}" "res_command_id r = env_command_id e"
    and "ps \<noteq> []" "prefix ps (map cond_check (env_preconditions e))"
  shows "legal_trace e (Returned r) ps"
  using assms by (auto simp: legal_trace_def Let_def intro: prefix_prefix)

lemma legal_trace_step:
  assumes "res_status r = Failed" "res_command_id r = env_command_id e" "ps \<noteq> []" "prefix ps (env_steps e)"
  shows "legal_trace e (Returned r) (map cond_check (env_preconditions e) @ ps)"
  using assms by (auto simp: legal_trace_def Let_def)

lemma legal_trace_poll:
  assumes "env_verify e = Some v" "poll_tail e v (res_status r) us" "res_command_id r = env_command_id e"
  shows "legal_trace e (Returned r) (map cond_check (env_preconditions e) @ env_steps e @ us)"
proof -
  consider "res_status r = Succeeded" | "res_status r = Failed" | "res_status r = Frozen"
    using assms(2) by (auto simp: poll_tail_def)
  then show ?thesis
    using assms by cases (auto simp: legal_trace_def Let_def poll_tail_def)
qed

lemma handle_command_trace:
  assumes "handle_command S C (traced run) (traced_rt rt) ring e (w, []) = Some (out, (w', ts))"
  shows "legal_trace e out ts"
proof (cases "authentic S C ring e (rt_utc_now rt w) \<and> first_invalid (envelope_capabilities e) = None")
  case False
  with assms show ?thesis
    by (auto simp: handle_command_def verify_envelope_with_Inr [symmetric] legal_trace_rejected
        split: sum.splits option.splits)
next
  case True
  then have ver: "verify_envelope_with S C ring e (rt_utc_now rt w) = Inr ()"
    by (simp add: verify_envelope_with_Inr)
  let ?pre = "map cond_check (env_preconditions e)"
  note pre = check_preconditions_trace [where run = run and rt = rt and e = e
      and conds = "env_preconditions e" and w = w and ts = "[]"]
  show ?thesis
  proof (cases "check_preconditions (traced run) (traced_rt rt) e (env_preconditions e) (w, [])")
    case (Inl a)
    with assms True ver pre show ?thesis
      by (auto simp: handle_command_def intro!: legal_trace_precondition)
  next
    case (Inr wt1)
    obtain w1 where w1: "wt1 = (w1, ?pre)" using pre Inr by (cases wt1) auto
    note steps = run_steps_trace [where run = run and rt = rt and e = e and steps = "env_steps e"
        and w = w1 and ts = ?pre]
    show ?thesis
    proof (cases "run_steps (traced run) (traced_rt rt) e (env_steps e) (w1, ?pre)")
      case Inl2: (Inl a)
      with assms True ver Inr w1 steps show ?thesis
        by (auto simp: handle_command_def intro!: legal_trace_step)
    next
      case Inr2: (Inr wt2)
      obtain w2 where w2: "wt2 = (w2, ?pre @ env_steps e)" using steps Inr2 by (cases wt2) auto
      show ?thesis
      proof (cases "env_verify e")
        case None
        with assms True ver Inr w1 Inr2 w2 show ?thesis
          by (auto simp: handle_command_def legal_trace_def Let_def)
      next
        case (Some v)
        show ?thesis
        proof (cases "instant_add (rt_instant rt w2) (vf_timeout_s v)")
          case None
          with assms True ver Inr w1 Inr2 w2 Some show ?thesis
            by (auto simp: handle_command_def legal_trace_def Let_def)
        next
          case dl: (Some deadline)
          with assms True ver Inr w1 Inr2 w2 Some obtain r where out: "out = Returned r"
            and poll: "verify_poll (traced run) (traced_rt rt) e v deadline (w2, ?pre @ env_steps e) = Some (r, (w', ts))"
            by (auto simp: handle_command_def)
          from verify_poll_trace [OF poll] obtain us where "ts = (?pre @ env_steps e) @ us"
              "poll_tail e v (res_status r) us" "res_command_id r = env_command_id e" by blast
          with legal_trace_poll [OF Some] out show ?thesis by simp
        qed
      qed
    qed
  qed
qed

subsection \<open>Tracing does not change what happens\<close>

lemma check_preconditions_untraced:
  "check_preconditions run rt e conds w =
     map_sum (map_prod id fst) fst (check_preconditions (traced run) (traced_rt rt) e conds (w, ts))"
proof (induction conds arbitrary: w ts)
  case Nil
  then show ?case by simp
next
  case (Cons c conds)
  obtain r w' where rw: "run (cond_check c) w = (r, w')" by fastforce
  note tr = traced_eq [of run "cond_check c" w r w' ts, OF rw]
  show ?case using Cons.IH [of w' "ts @ [cond_check c]"]
    by (cases r) (auto simp: rw tr Let_def make_result_def)
qed

lemma run_steps_untraced:
  "run_steps run rt e steps w =
     map_sum (map_prod id fst) fst (run_steps (traced run) (traced_rt rt) e steps (w, ts))"
proof (induction steps arbitrary: w ts)
  case Nil
  then show ?case by simp
next
  case (Cons c steps)
  obtain r w' where rw: "run c w = (r, w')" by fastforce
  note tr = traced_eq [of run c w r w' ts, OF rw]
  show ?case using Cons.IH [of w' "ts @ [c]"] by (cases r) (auto simp: rw tr make_result_def)
qed

lemma perform_rollback_untraced:
  "perform_rollback run rt e d obs w = map_prod id fst (perform_rollback (traced run) (traced_rt rt) e d obs (w, ts))"
proof (cases "env_rollback e")
  case RollbackNone
  then show ?thesis by (simp add: perform_rollback_def Let_def make_result_def)
next
  case NixGeneration
  obtain r w' where rw: "run NixRollback w = (r, w')" by fastforce
  note tr = traced_eq [of run NixRollback w r w' ts, OF rw]
  show ?thesis by (cases r) (simp_all add: perform_rollback_def NixGeneration rw tr Let_def make_result_def)
qed

lemma verify_poll_untraced:
  assumes ret: "verify_poll (traced run) (traced_rt rt) e v deadline (w, ts) = Some res"
  shows "verify_poll run rt e v deadline w = Some (map_prod id fst res)"
proof -
  let ?Q = "\<lambda>R T e v dl (wt :: 'a \<times> capability list) (res :: action_result \<times> 'a \<times> capability list).
    \<forall>run rt w ts. R = traced run \<longrightarrow> T = traced_rt rt \<longrightarrow> wt = (w, ts)
      \<longrightarrow> verify_poll run rt e v dl w = Some (map_prod id fst res)"
  have "?Q (traced run) (traced_rt rt) e v deadline (w, ts) res"
  proof (rule verify_poll.raw_induct [where P = ?Q, OF _ ret])
    fix f R T e v dl wt res
    assume IH: "\<And>R T e v dl wt res. f R T e v dl wt = Some res \<Longrightarrow> ?Q R T e v dl wt res"
      and eq: "(case R (vf_check v) wt of
        (Inr obs, w') \<Rightarrow>
          if unwrap_or_default obs = vf_equals v
          then Some (make_result T e Succeeded None (Some (unwrap_or_default obs)) w', w')
          else if rt_instant T w' \<ge> dl
          then Some (perform_rollback R T e (DVerifyFailed (vf_equals v) (unwrap_or_default obs))
                       (unwrap_or_default obs) w')
          else f R T e v dl (rt_sleep T verify_poll_interval w')
      | (Inl err, w') \<Rightarrow> Some (perform_rollback R T e (DVerifyErrored err) [] w')) = Some res"
    show "?Q R T e v dl wt res"
    proof (intro allI impI)
      fix run rt w ts
      assume R: "R = traced run" and T: "T = traced_rt rt" and wt: "wt = (w, ts)"
      obtain q u where rw: "run (vf_check v) w = (q, u)" by fastforce
      note tr = traced_eq [of run "vf_check v" w q u ts, OF rw]
      note rb = perform_rollback_untraced [of run rt e _ _ u "ts @ [vf_check v]", symmetric]
      show "verify_poll run rt e v dl w = Some (map_prod id fst res)"
        using eq tr R T wt IH [of "traced run" "traced_rt rt" e v dl "(rt_sleep rt verify_poll_interval u, ts @ [vf_check v])" res]
        by (cases q) (auto simp: verify_poll.simps [of run] rw rb make_result_def split: if_splits)
    qed
  qed
  then show ?thesis by blast
qed

lemma handle_command_untraced:
  assumes "handle_command S C (traced run) (traced_rt rt) ring e (w, ts) = Some (out, (w', ts'))"
  shows "handle_command S C run rt ring e w = Some (out, w')"
proof -
  note pre = check_preconditions_untraced [of run rt e "env_preconditions e" w ts]
  show ?thesis
  proof (cases "check_preconditions (traced run) (traced_rt rt) e (env_preconditions e) (w, ts)")
    case (Inl a)
    with assms show ?thesis
      by (cases a) (auto simp: handle_command_def pre make_result_def split: sum.splits option.splits)
  next
    case (Inr wt1)
    obtain w1 t1 where wt1: "wt1 = (w1, t1)" by fastforce
    note steps = run_steps_untraced [of run rt e "env_steps e" w1 t1]
    show ?thesis
    proof (cases "run_steps (traced run) (traced_rt rt) e (env_steps e) (w1, t1)")
      case Inl2: (Inl a)
      with assms Inr wt1 show ?thesis
        by (cases a) (auto simp: handle_command_def pre steps make_result_def split: sum.splits option.splits)
    next
      case Inr2: (Inr wt2)
      obtain w2 t2 where wt2: "wt2 = (w2, t2)" by fastforce
      have poll: "verify_poll (traced run) (traced_rt rt) e v dl (w2, t2) = Some (r, (w', ts'))
          \<Longrightarrow> verify_poll run rt e v dl w2 = Some (r, w')" for v dl r
        using verify_poll_untraced by fastforce
      from assms Inr wt1 Inr2 wt2 show ?thesis
        by (auto simp: handle_command_def pre steps make_result_def split: sum.splits option.splits dest!: poll)
    qed
  qed
qed

text \<open>Recording the calls of a timed executor gives a timed executor, so recorded runs return too.\<close>

context timed_executor
begin

lemma recorded_timed: "timed_executor (traced run) (traced_rt rt) snd (\<lambda>c. {c})"
proof
  show "rt_instant (traced_rt rt) wt \<le> rt_instant (traced_rt rt) (snd (traced run c wt))" for wt c
    using run_instant [of "fst wt" c] by (auto simp: traced_def traced_rt_def split: prod.splits)
  show "rt_instant (traced_rt rt) wt + n \<le> rt_instant (traced_rt rt) (rt_sleep (traced_rt rt) n wt)" for wt n
    using sleep_instant by (simp add: traced_rt_def)
qed

lemma command_trace:
  assumes "handle_command S C run rt ring e w = Some (out, w')"
  shows "\<exists>ts. handle_command S C (traced run) (traced_rt rt) ring e (w, []) = Some (out, (w', ts)) \<and> legal_trace e out ts"
proof -
  obtain out2 w2 ts where tr: "handle_command S C (traced run) (traced_rt rt) ring e (w, []) = Some (out2, (w2, ts))"
    using timed_executor.command_returns [OF recorded_timed, of S C ring e "(w, [])"] by auto
  from handle_command_untraced [OF this] assms have "out2 = out" "w2 = w'" by simp_all
  with tr handle_command_trace [OF tr] show ?thesis by blast
qed

lemma command_result_id:
  assumes "handle_command S C run rt ring e w = Some (Returned r, w')"
  shows "res_command_id r = env_command_id e"
  using command_trace [OF assms] by (auto simp: legal_trace_def Let_def)

end

lemma first_invalid_None:
  "first_invalid cs = None \<longleftrightarrow>
     (\<forall>c\<in>set cs. (\<forall>u. capability_unit c = Some u \<longrightarrow> is_valid_unit u)
        \<and> (\<forall>(f, i)\<in>set (capability_kube_ids c). is_valid_k8s_label i))"
proof (induction cs)
  case Nil
  then show ?case by simp
next
  case (Cons c cs)
  have "invalid_identifier c = None \<longleftrightarrow> (\<forall>u. capability_unit c = Some u \<longrightarrow> is_valid_unit u)
      \<and> (\<forall>(f, i)\<in>set (capability_kube_ids c). is_valid_k8s_label i)"
    by (cases "capability_unit c")
      (auto simp: invalid_identifier_def invalid_kube_id_def find_None_iff)
  with Cons.IH show ?case by (auto split: option.splits)
qed

end
