(* ===== verification/Host_Actuator.thy ===== *)
theory Host_Actuator
  imports Actuator Crypto_Props
begin

text \<open>
  The host side of \<^verbatim>\<open>crates/ravn-actuator\<close>: the \<open>systemctl\<close> executor, keyring
  reloading, the per-connection handler, the accept loop with its peer check and its bound on
  concurrent commands, and the start-up trust decision of \<^verbatim>\<open>main.rs\<close>. Processes, clocks and
  files are the operating system's and stand as the parameter \<open>host_os\<close>; a world records every
  argument vector that was spawned and a monotonic clock that only moves forward.
\<close>

section \<open>The world an executor acts on\<close>

record ('o, 'e) world =
  w_os :: 'o
  w_mono :: nat
  w_log :: "'e list"

record proc_output =
  po_success :: bool
  po_status :: string
  po_stdout :: string
  po_stderr :: string

text \<open>
  A process takes an argument vector and some time and returns its output or a spawn error; the
  wall clock may show anything; a sleep may last longer than asked.
\<close>

record 'o host_os =
  os_proc :: "string list \<Rightarrow> 'o \<Rightarrow> (string + proc_output) \<times> nat \<times> 'o"
  os_wall :: "'o \<Rightarrow> nat \<Rightarrow> datetime"
  os_oversleep :: "'o \<Rightarrow> nat"

type_synonym 'o host_world = "('o, string list) world"

definition spawn :: "'o host_os \<Rightarrow> string list \<Rightarrow> 'o host_world \<Rightarrow> (string + proc_output) \<times> 'o host_world" where
  "spawn H argv w =
     (case os_proc H argv (w_os w) of
        (r, d, os') \<Rightarrow> (r, w\<lparr>w_os := os', w_mono := w_mono w + d, w_log := w_log w @ [argv]\<rparr>))"

definition host_runtime :: "'o host_os \<Rightarrow> 'o host_world runtime" where
  "host_runtime H =
     \<lparr>rt_utc_now = (\<lambda>w. os_wall H (w_os w) (w_mono w)),
      rt_instant = w_mono,
      rt_sleep = (\<lambda>n w. w\<lparr>w_mono := w_mono w + n + os_oversleep H (w_os w)\<rparr>)\<rparr>"

section \<open>The systemctl executor\<close>

definition run_ok :: "'o host_os \<Rightarrow> string list \<Rightarrow> 'o host_world \<Rightarrow> (exec_error + unit) \<times> 'o host_world" where
  "run_ok H argv w =
     (case spawn H argv w of
        (Inl e, w') \<Rightarrow> (Inl (SpawnFailed argv e), w')
      | (Inr out, w') \<Rightarrow>
          if po_success out then (Inr (), w')
          else (Inl (ExitFailed argv (po_status out) (trim (po_stderr out))), w'))"

definition system_profile :: string where
  "system_profile = ''/nix/var/nix/profiles/system''"

definition switch_to_configuration :: string where
  "switch_to_configuration = ''/nix/var/nix/profiles/system/bin/switch-to-configuration''"

fun run_systemctl_sync :: "'o host_os \<Rightarrow> 'o host_world run_fun" where
  "run_systemctl_sync H (ResetFailed u) w =
     (case run_ok H [''systemctl'', ''reset-failed'', u] w of
        (Inl e, w') \<Rightarrow> (Inl e, w') | (Inr _, w') \<Rightarrow> (Inr None, w'))"
| "run_systemctl_sync H (RestartUnit u) w =
     (case run_ok H [''systemctl'', ''restart'', u] w of
        (Inl e, w') \<Rightarrow> (Inl e, w') | (Inr _, w') \<Rightarrow> (Inr None, w'))"
| "run_systemctl_sync H (UnitState u) w =
     (case spawn H [''systemctl'', ''is-active'', u] w of
        (Inl e, w') \<Rightarrow> (Inl (SpawnFailed [''systemctl''] e), w')
      | (Inr out, w') \<Rightarrow> (Inr (Some (trim (po_stdout out))), w'))"
| "run_systemctl_sync H NixRollback w =
     (case run_ok H [''nix-env'', ''--rollback'', ''-p'', system_profile] w of
        (Inl e, w') \<Rightarrow> (Inl e, w')
      | (Inr _, w') \<Rightarrow>
          (case run_ok H [switch_to_configuration, ''switch''] w' of
             (Inl e, w2) \<Rightarrow> (Inl e, w2) | (Inr _, w2) \<Rightarrow> (Inr None, w2)))"
| "run_systemctl_sync H (DeletePod ns p) w = (Inl (ReachedSystemctl (DeletePod ns p)), w)"
| "run_systemctl_sync H (RestartDeployment ns d) w = (Inl (ReachedSystemctl (RestartDeployment ns d)), w)"
| "run_systemctl_sync H (PodState ns p) w = (Inl (ReachedSystemctl (PodState ns p)), w)"

text \<open>The argument vectors a capability may spawn: a fixed program, a fixed verb, one operand.\<close>

fun host_argvs :: "capability \<Rightarrow> string list set" where
  "host_argvs (ResetFailed u) = {[''systemctl'', ''reset-failed'', u]}"
| "host_argvs (RestartUnit u) = {[''systemctl'', ''restart'', u]}"
| "host_argvs (UnitState u) = {[''systemctl'', ''is-active'', u]}"
| "host_argvs NixRollback = {[''nix-env'', ''--rollback'', ''-p'', system_profile], [switch_to_configuration, ''switch'']}"
| "host_argvs _ = {}"

lemma spawn_log:
  "spawn H argv w = (r, w') \<Longrightarrow> w_log w' = w_log w @ [argv] \<and> w_mono w \<le> w_mono w'"
  by (auto simp: spawn_def split: prod.splits)

lemma run_ok_log:
  "run_ok H argv w = (r, w') \<Longrightarrow> w_log w' = w_log w @ [argv] \<and> w_mono w \<le> w_mono w'"
  by (auto simp: run_ok_def split: prod.splits sum.splits if_splits dest: spawn_log)

lemma run_systemctl_effects:
  "(\<exists>es. w_log (snd (run_systemctl_sync H c w)) = w_log w @ es \<and> set es \<subseteq> host_argvs c)
   \<and> w_mono w \<le> w_mono (snd (run_systemctl_sync H c w))"
proof (cases c)
  case NixRollback
  obtain r w1 where r1: "run_ok H [''nix-env'', ''--rollback'', ''-p'', system_profile] w = (r, w1)" by fastforce
  obtain q w2 where r2: "run_ok H [switch_to_configuration, ''switch''] w1 = (q, w2)" by fastforce
  show ?thesis
    using run_ok_log [OF r1] run_ok_log [OF r2] by (cases r; cases q) (auto simp: NixRollback r1 r2)
qed (auto split: prod.splits sum.splits dest: run_ok_log spawn_log)

interpretation host: timed_executor "run_systemctl_sync H" "host_runtime H" w_log host_argvs for H
  using run_systemctl_effects by unfold_locales (auto simp: host_runtime_def)

section \<open>Keyring reload\<close>

text \<open>The file is what \<open>read_to_string\<close> gives: \<open>None\<close> when it cannot be read.\<close>

definition keyring_changed :: "'vk keyring \<Rightarrow> 'vk keyring \<Rightarrow> bool" where
  "keyring_changed cur fresh \<longleftrightarrow>
     keyring_kids cur \<noteq> keyring_kids fresh \<or> kr_default_kid cur \<noteq> kr_default_kid fresh"

definition reload_keyring :: "serde \<Rightarrow> ('sk, 'vk) crypto \<Rightarrow> string option \<Rightarrow> 'vk keyring \<Rightarrow> 'vk keyring" where
  "reload_keyring S C file cur =
     (case file of
        None \<Rightarrow> cur
      | Some json \<Rightarrow>
          (case keyring_from_json S C json of
             Inr fresh \<Rightarrow>
               if \<not> keyring_is_empty fresh then (if keyring_changed cur fresh then fresh else cur) else cur
           | Inl _ \<Rightarrow> cur))"

section \<open>One connection\<close>

definition kube_refusal :: "'w runtime \<Rightarrow> envelope \<Rightarrow> 'w \<Rightarrow> action_result" where
  "kube_refusal rt e w =
     make_result rt e Rejected
       (Some (DText ''command contains Kubernetes capabilities; route to the in-cluster K8s executor (#146)''))
       None w"

text \<open>
  \<open>line\<close> is what the peer sent (\<open>None\<close>: closed without a byte); \<open>parse\<close> is serde's reading
  of an envelope. The reply is \<open>None\<close> when the connection ends without one.
\<close>

definition handle_connection ::
  "serde \<Rightarrow> ('sk, 'vk) crypto \<Rightarrow> (string \<Rightarrow> envelope option) \<Rightarrow> 'w run_fun \<Rightarrow> 'w runtime \<Rightarrow> 'vk keyring
     \<Rightarrow> string option \<Rightarrow> 'w \<Rightarrow> (action_result option outcome \<times> 'w) option" where
  "handle_connection S C parse run rt ring line w =
     (case line of
        None \<Rightarrow> Some (Returned None, w)
      | Some l \<Rightarrow>
          (case parse (trim l) of
             None \<Rightarrow> Some (Returned None, w)
           | Some e \<Rightarrow>
               if envelope_contains_kube_capability e then Some (Returned (Some (kube_refusal rt e w)), w)
               else map_option (\<lambda>(out, w'). (case out of Returned r \<Rightarrow> Returned (Some r) | Panicked \<Rightarrow> Panicked, w'))
                      (handle_command S C run rt ring e w)))"

section \<open>The accept loop\<close>

definition max_concurrent_commands :: nat where
  "max_concurrent_commands = 64"

text \<open>
  The loop's state: the current ring and, for every command task still running, the peer it came
  from and the ring snapshot it verifies against.
\<close>

record 'vk serve_state =
  sv_ring :: "'vk keyring"
  sv_tasks :: "(u32 \<times> 'vk keyring) list"

definition peer_allowed :: "u32 option \<Rightarrow> u32 \<Rightarrow> bool" where
  "peer_allowed allowed uid = (case allowed of None \<Rightarrow> True | Some a \<Rightarrow> a = uid)"

text \<open>The ring after the reload that precedes a connection; no path, no reload.\<close>

definition ring_for_connection ::
  "serde \<Rightarrow> ('sk, 'vk) crypto \<Rightarrow> string option option \<Rightarrow> 'vk keyring \<Rightarrow> 'vk keyring" where
  "ring_for_connection S C file ring = (case file of None \<Rightarrow> ring | Some f \<Rightarrow> reload_keyring S C f ring)"

text \<open>
  One turn of the loop. A refused peer changes nothing. An admitted one reloads the ring, takes a
  snapshot and then waits for a permit, so a task starts only while fewer than the maximum run;
  finishing a task releases its permit.
\<close>

inductive serve_step ::
  "serde \<Rightarrow> ('sk, 'vk) crypto \<Rightarrow> u32 option \<Rightarrow> 'vk serve_state \<Rightarrow> 'vk serve_state \<Rightarrow> bool"
  for S :: serde and C :: "('sk, 'vk) crypto" and allowed :: "u32 option" where
  accept: "peer_allowed allowed uid \<Longrightarrow> length (sv_tasks st) < max_concurrent_commands \<Longrightarrow>
     ring = ring_for_connection S C file (sv_ring st) \<Longrightarrow>
     serve_step S C allowed st (st\<lparr>sv_ring := ring, sv_tasks := sv_tasks st @ [(uid, ring)]\<rparr>)"
| refuse_uid: "\<not> peer_allowed allowed uid \<Longrightarrow> serve_step S C allowed st st"
| refuse_unknown: "serve_step S C allowed st st"
| finish: "sv_tasks st = ts @ t # us \<Longrightarrow> serve_step S C allowed st (st\<lparr>sv_tasks := ts @ us\<rparr>)"

inductive serve_reachable ::
  "serde \<Rightarrow> ('sk, 'vk) crypto \<Rightarrow> u32 option \<Rightarrow> 'vk keyring \<Rightarrow> 'vk serve_state \<Rightarrow> bool"
  for S :: serde and C :: "('sk, 'vk) crypto" and allowed :: "u32 option" and ring0 :: "'vk keyring" where
  start: "serve_reachable S C allowed ring0 \<lparr>sv_ring = ring0, sv_tasks = []\<rparr>"
| step: "serve_reachable S C allowed ring0 st \<Longrightarrow> serve_step S C allowed st st' \<Longrightarrow>
     serve_reachable S C allowed ring0 st'"

inductive_cases serve_stepE: "serve_step S C allowed st st'"

text \<open>\<open>main\<close>: the ring the actuator starts with, from the keyring file or the single public key.\<close>

datatype start_error = InvalidKeyringFile key_error | NoKeyConfigured | InvalidPubkey key_error

definition initial_ring ::
  "serde \<Rightarrow> ('sk, 'vk) crypto \<Rightarrow> string option \<Rightarrow> string option \<Rightarrow> start_error + 'vk keyring" where
  "initial_ring S C keyring_file pubkey =
     (case keyring_file of
        Some json \<Rightarrow>
          (case keyring_from_json S C json of Inl e \<Rightarrow> Inl (InvalidKeyringFile e) | Inr r \<Rightarrow> Inr r)
      | None \<Rightarrow>
          (case pubkey of
             None \<Rightarrow> Inl NoKeyConfigured
           | Some b64 \<Rightarrow>
               (case verifying_key_from_b64 C b64 of
                  Inl e \<Rightarrow> Inl (InvalidPubkey e)
                | Inr k \<Rightarrow> Inr (keyring_single C k))))"

end
