(* ===== verification/Host_Props.thy ===== *)
theory Host_Props
  imports Host_Actuator
begin

text \<open>
  What the host actuator does with a command: it always answers, it spawns nothing but a fixed set
  of argument vectors and only for authentic commands, it runs a command's capabilities in order,
  its accept loop bounds concurrency and never forgets its keys, and where its arithmetic and its
  argument validation leave gaps.
\<close>

section \<open>Library facts about the host\<close>

lemma host_runtime_utc_now [simp]: "rt_utc_now (host_runtime H) w = os_wall H (w_os w) (w_mono w)"
  by (simp add: host_runtime_def)

lemma host_argvs_unit:
  "argv \<in> host_argvs c \<Longrightarrow>
     (\<exists>verb u. argv = [''systemctl'', verb, u] \<and> capability_unit c = Some u
        \<and> verb \<in> {''reset-failed'', ''restart'', ''is-active''})
     \<or> c = NixRollback \<and> (argv = [''nix-env'', ''--rollback'', ''-p'', system_profile]
          \<or> argv = [switch_to_configuration, ''switch''])"
  by (cases c) auto

lemma first_invalid_plan_unit:
  assumes "first_invalid (envelope_capabilities e) = None" and "c \<in> set (plan e)" and "capability_unit c = Some u"
  shows "is_valid_unit u"
  using assms by (auto simp: plan_def first_invalid_None split: rollback.splits)

lemma reload_keyring_cases:
  "reload_keyring S C file cur = cur
   \<or> (\<exists>json. file = Some json \<and> keyring_from_json S C json = Inr (reload_keyring S C file cur)
        \<and> \<not> keyring_is_empty (reload_keyring S C file cur))"
  by (auto simp: reload_keyring_def split: option.splits sum.splits)

lemma ring_for_connection_nonempty:
  "\<not> keyring_is_empty cur \<Longrightarrow> \<not> keyring_is_empty (ring_for_connection S C file cur)"
  using reload_keyring_cases [of S C _ cur] by (auto simp: ring_for_connection_def split: option.splits) metis

lemma filed_map_fst: "keyring_filed C r \<Longrightarrow> map fst (kr_keys r) = map (key_id C) (map snd (kr_keys r))"
  by (auto simp: keyring_filed_def)

lemma filed_rings_eq:
  assumes "keyring_filed C a" "keyring_filed C b" "keyring_kids a = keyring_kids b"
    "kr_default_kid a = kr_default_kid b"
    "inj_on (key_id C) (snd ` set (kr_keys a) \<union> snd ` set (kr_keys b))"
  shows "a = b"
proof -
  have fst: "map fst (kr_keys a) = map fst (kr_keys b)"
    using assms(3) by (simp add: keyring_kids_def btree_keys_def)
  then have "map (key_id C) (map snd (kr_keys a)) = map (key_id C) (map snd (kr_keys b))"
    using filed_map_fst assms(1,2) by metis
  then have "map snd (kr_keys a) = map snd (kr_keys b)"
    using assms(5) by (subst (asm) inj_on_map_eq_map) auto
  with fst have "kr_keys a = kr_keys b" by (metis zip_map_fst_snd)
  with assms(4) show ?thesis by simp
qed

section \<open>A concrete host\<close>

text \<open>A host whose every process succeeds at once with a fixed output, for the witnesses.\<close>

definition demo_host :: "string \<Rightarrow> unit host_os" where
  "demo_host out =
     \<lparr>os_proc = (\<lambda>argv os. (Inr \<lparr>po_success = True, po_status = [], po_stdout = out, po_stderr = []\<rparr>, 1, os)),
      os_wall = (\<lambda>os t. int t), os_oversleep = (\<lambda>os. 0)\<rparr>"

definition demo_world :: "unit host_world" where
  "demo_world = \<lparr>w_os = (), w_mono = 0, w_log = []\<rparr>"

definition demo_command :: envelope where
  "demo_command = sign_envelope demo_serde demo_crypto True demo_envelope"

abbreviation demo_run :: "envelope \<Rightarrow> (action_result outcome \<times> unit host_world) option" where
  "demo_run e \<equiv> handle_command demo_serde demo_crypto (run_systemctl_sync (demo_host ''active''))
     (host_runtime (demo_host ''active'')) (keyring_single demo_crypto True) e demo_world"

lemma demo_command_authentic:
  "now \<le> env_expires_at e \<Longrightarrow>
     authentic demo_serde demo_crypto (keyring_single demo_crypto True)
       (sign_envelope demo_serde demo_crypto True e) now"
  by (rule sign_envelope_authentic [OF demo_crypto_ok]) (simp_all add: keyring_get_single demo_crypto_def)

section \<open>Properties\<close>


text \<open>
  C4: everything the host actuator spawns is one of a fixed set of argument vectors (no shell):
  \<open>systemctl\<close> with one of three verbs and a validated unit name that the envelope carries, or the
  two commands of a generation rollback that the envelope carries or declares; and it spawns
  something only for an authentic, unexpired envelope.
\<close>

theorem host_effects_whitelisted:
  assumes "handle_command S C (run_systemctl_sync H) (host_runtime H) ring e w = Some (out, w')"
  shows "\<exists>es. w_log w' = w_log w @ es
     \<and> (es \<noteq> [] \<longrightarrow> authentic S C ring e (os_wall H (w_os w) (w_mono w)))
     \<and> (\<forall>argv\<in>set es.
          (\<exists>verb u. argv = [''systemctl'', verb, u] \<and> is_valid_unit u
             \<and> verb \<in> {''reset-failed'', ''restart'', ''is-active''}
             \<and> (\<exists>c\<in>set (envelope_capabilities e). capability_unit c = Some u))
          \<or> NixRollback \<in> set (plan e)
            \<and> (argv = [''nix-env'', ''--rollback'', ''-p'', system_profile]
               \<or> argv = [switch_to_configuration, ''switch'']))"
proof -
  from host.command_effects [OF assms] obtain es where es: "w_log w' = w_log w @ es"
    "set es \<subseteq> (\<Union>c\<in>set (plan e). host_argvs c)" by blast
  have auth: "authentic S C ring e (os_wall H (w_os w) (w_mono w))"
    and valid: "first_invalid (envelope_capabilities e) = None" if "es \<noteq> []"
    using host.command_effects_authentic [OF assms] es(1) that by simp_all
  have argv: "(\<exists>verb u. argv = [''systemctl'', verb, u] \<and> is_valid_unit u
             \<and> verb \<in> {''reset-failed'', ''restart'', ''is-active''}
             \<and> (\<exists>c\<in>set (envelope_capabilities e). capability_unit c = Some u))
          \<or> NixRollback \<in> set (plan e)
            \<and> (argv = [''nix-env'', ''--rollback'', ''-p'', system_profile]
               \<or> argv = [switch_to_configuration, ''switch''])" if "argv \<in> set es" for argv
  proof -
    from that es(2) obtain c where c: "c \<in> set (plan e)" "argv \<in> host_argvs c" by blast
    have carried: "c \<in> set (envelope_capabilities e)" if "capability_unit c = Some u" for u
      using c(1) that by (auto simp: plan_def split: rollback.splits)
    have "first_invalid (envelope_capabilities e) = None" by (rule valid) (use that in auto)
    note unit_ok = first_invalid_plan_unit [OF this c(1)]
    from host_argvs_unit [OF c(2)] show ?thesis
    proof (elim disjE exE conjE)
      fix verb u
      assume "argv = [''systemctl'', verb, u]" "capability_unit c = Some u"
        "verb \<in> {''reset-failed'', ''restart'', ''is-active''}"
      with unit_ok [of u] carried [of u] show ?thesis
        by (intro disjI1 exI [of _ verb] exI [of _ u] conjI bexI [of _ c])
    next
      assume "c = NixRollback" "argv = [''nix-env'', ''--rollback'', ''-p'', system_profile]"
      with c(1) show ?thesis by blast
    next
      assume "c = NixRollback" "argv = [switch_to_configuration, ''switch'']"
      with c(1) show ?thesis by blast
    qed
  qed
  show ?thesis
    by (intro exI [of _ es] conjI impI ballI) (use es(1) in simp, erule auth, erule argv)
qed

theorem host_effects_whitelisted_witness:
  "(\<exists>out w'. demo_run demo_command = Some (out, w') \<and> w_log w' = [[''systemctl'', ''restart'', ''nginx.service'']])
   \<and> is_valid_unit ''nginx.service''"
proof -
  have ver: "verify_envelope_with demo_serde demo_crypto (keyring_single demo_crypto True) demo_command 0 = Inr ()"
    unfolding demo_command_def verify_envelope_with_Inr
    by (rule demo_command_authentic) (simp add: demo_envelope_def)
  have valid: "first_invalid (envelope_capabilities demo_command) = None"
    unfolding demo_command_def envelope_capabilities_def sign_envelope_sel demo_envelope_def by code_simp
  have run: "\<exists>out w'. demo_run demo_command = Some (out, w') \<and> w_log w' = [[''systemctl'', ''restart'', ''nginx.service'']]"
    using ver valid
    by (auto simp: handle_command_def demo_world_def demo_host_def demo_command_def demo_envelope_def
        run_ok_def spawn_def)
  then obtain out w' where r: "demo_run demo_command = Some (out, w')"
    "w_log w' = [[''systemctl'', ''restart'', ''nginx.service'']]" by blast
  from host_effects_whitelisted [OF r(1)] have "is_valid_unit ''nginx.service''"
    using r(2) by (auto simp: demo_world_def system_profile_def switch_to_configuration_def)
  with r show ?thesis by blast
qed



text \<open>
  A command that is not authentic, has expired, or names an ill-formed unit or Kubernetes
  object is refused before anything runs: the host is exactly as it was and the result says
  \<open>rejected\<close> for that command id.
\<close>

theorem host_refuses_without_effect:
  assumes "\<not> authentic S C ring e (os_wall H (w_os w) (w_mono w))
     \<or> (\<exists>c\<in>set (envelope_capabilities e). (\<exists>u. capability_unit c = Some u \<and> \<not> is_valid_unit u)
          \<or> (\<exists>(f, i)\<in>set (capability_kube_ids c). \<not> is_valid_k8s_label i))"
  shows "\<exists>r. handle_command S C (run_systemctl_sync H) (host_runtime H) ring e w = Some (Returned r, w)
     \<and> res_status r = Rejected \<and> res_command_id r = env_command_id e"
proof -
  obtain out w' where r: "handle_command S C (run_systemctl_sync H) (host_runtime H) ring e w = Some (out, w')"
    using host.command_returns by blast
  have "\<not> authentic S C ring e (os_wall H (w_os w) (w_mono w)) \<or> first_invalid (envelope_capabilities e) \<noteq> None"
    using assms unfolding first_invalid_None by blast
  with handle_command_refused [OF r] r show ?thesis by auto
qed

theorem host_refuses_without_effect_witness:
  "\<exists>r. demo_run (sign_envelope demo_serde demo_crypto True (demo_envelope\<lparr>env_steps := [RestartUnit ''a;b'']\<rparr>))
         = Some (Returned r, demo_world) \<and> res_status r = Rejected \<and> res_command_id r = 7"
proof -
  let ?e = "sign_envelope demo_serde demo_crypto True (demo_envelope\<lparr>env_steps := [RestartUnit ''a;b'']\<rparr>)"
  have "RestartUnit ''a;b'' \<in> set (envelope_capabilities ?e)" by (simp add: envelope_capabilities_def)
  moreover have "capability_unit (RestartUnit ''a;b'') = Some ''a;b'' \<and> \<not> is_valid_unit ''a;b''"
    by code_simp
  ultimately have "\<exists>c\<in>set (envelope_capabilities ?e). (\<exists>u. capability_unit c = Some u \<and> \<not> is_valid_unit u)
          \<or> (\<exists>(f, i)\<in>set (capability_kube_ids c). \<not> is_valid_k8s_label i)" by blast
  from host_refuses_without_effect [where e = ?e and H = "demo_host ''active''" and w = demo_world
      and S = demo_serde and C = demo_crypto and ring = "keyring_single demo_crypto True", OF disjI2, OF this]
  show ?thesis by (simp add: demo_envelope_def)
qed

text \<open>
  The accept loop runs at most 64 commands at a time, only for peers that are allowed to
  connect, and a loop that starts with a trusted key never verifies against an empty ring: however
  the keyring file changes, every task holds a ring with at least one key.
\<close>

theorem serve_invariant:
  assumes "serve_reachable S C allowed ring0 st" and "\<not> keyring_is_empty ring0"
  shows "length (sv_tasks st) \<le> 64 \<and> \<not> keyring_is_empty (sv_ring st)
     \<and> (\<forall>(uid, ring)\<in>set (sv_tasks st). peer_allowed allowed uid \<and> \<not> keyring_is_empty ring)"
  using assms
proof (induction rule: serve_reachable.induct)
  case start
  then show ?case by simp
next
  case (step st st')
  from step.hyps(2) step.IH [OF step.prems] show ?case
    by (cases rule: serve_step.cases)
      (auto simp: max_concurrent_commands_def ring_for_connection_nonempty)
qed

theorem serve_invariant_witness:
  "length (sv_tasks \<lparr>sv_ring = keyring_single demo_crypto True, sv_tasks = [(5 :: u32, keyring_single demo_crypto True)]\<rparr>) \<le> 64
   \<and> peer_allowed (Some 5) 5"
proof -
  let ?r = "keyring_single demo_crypto True"
  have ne: "\<not> keyring_is_empty ?r" by (simp add: keyring_is_empty_def keyring_single_def Let_def)
  have "serve_step demo_serde demo_crypto (Some 5) \<lparr>sv_ring = ?r, sv_tasks = []\<rparr>
      (\<lparr>sv_ring = ?r, sv_tasks = []\<rparr>\<lparr>sv_ring := ?r, sv_tasks := sv_tasks \<lparr>sv_ring = ?r, sv_tasks = []\<rparr> @ [(5, ?r)]\<rparr>)"
    by (rule serve_step.accept [of _ _ _ _ _ _ None])
      (simp_all add: peer_allowed_def max_concurrent_commands_def ring_for_connection_def)
  then have "serve_reachable demo_serde demo_crypto (Some 5) ?r \<lparr>sv_ring = ?r, sv_tasks = [(5, ?r)]\<rparr>"
    using serve_reachable.step [OF serve_reachable.start] by fastforce
  from serve_invariant [OF this ne] show ?thesis by simp
qed

text \<open>
  Reloading picks up a rotation exactly. When the keyring file holds the document of a
  non-empty, well-formed ring, the reloaded ring is that ring (keys, ids and default), provided
  both rings file every key under its own id and no two of their keys share an id.
\<close>

theorem reload_keyring_exact:
  assumes "serde_ok S" "crypto_ok C" "keyring_ok fresh" "\<not> keyring_is_empty fresh"
    and "keyring_filed C fresh" "keyring_filed C cur"
    and "inj_on (key_id C) (snd ` set (kr_keys cur) \<union> snd ` set (kr_keys fresh))"
  shows "reload_keyring S C (Some (keyring_to_json S C fresh)) cur = fresh"
  using keyring_json_roundtrip [OF assms(1,2,3)] assms(4) filed_rings_eq [OF assms(6,5) _ _ assms(7)]
  by (auto simp: reload_keyring_def keyring_changed_def)

theorem reload_keyring_exact_witness:
  "reload_keyring demo_serde demo_crypto
     (Some (keyring_to_json demo_serde demo_crypto (keyring_single demo_crypto False)))
     (keyring_single demo_crypto True) = keyring_single demo_crypto False"
  by (rule reload_keyring_exact [OF demo_serde_ok demo_crypto_ok keyring_ok_single(1)])
    (use demo_key_ids in \<open>auto simp: keyring_is_empty_def keyring_ok_single keyring_single_def Let_def
      keyring_filed_def inj_on_def\<close>)

text \<open>
  A reload compares key ids and the default id only, so a document that gives an id already
  known a different key leaves the old key in force: the ring stays as it was although the file
  holds another one.
\<close>

theorem reload_keyring_ignores_replaced_key:
  assumes "serde_ok S" "crypto_ok C" "keyring_ok fresh"
    and "keyring_kids fresh = keyring_kids cur" "kr_default_kid fresh = kr_default_kid cur"
  shows "keyring_from_json S C (keyring_to_json S C fresh) = Inr fresh
     \<and> reload_keyring S C (Some (keyring_to_json S C fresh)) cur = cur"
  using keyring_json_roundtrip [OF assms(1-3)] assms(4,5)
  by (simp add: reload_keyring_def keyring_changed_def)

theorem reload_keyring_ignores_replaced_key_witness:
  "reload_keyring demo_serde demo_crypto
     (Some (keyring_to_json demo_serde demo_crypto \<lparr>kr_keys = [(''k'', False)], kr_default_kid = Some ''k''\<rparr>))
     \<lparr>kr_keys = [(''k'', True)], kr_default_kid = Some ''k''\<rparr>
   = \<lparr>kr_keys = [(''k'', True)], kr_default_kid = Some ''k''\<rparr>"
  using reload_keyring_ignores_replaced_key [OF demo_serde_ok demo_crypto_ok,
      of "\<lparr>kr_keys = [(''k'', False)], kr_default_kid = Some ''k''\<rparr>"
         "\<lparr>kr_keys = [(''k'', True)], kr_default_kid = Some ''k''\<rparr>"]
  by (simp add: keyring_ok_def keyring_kids_def btree_keys_def btree_ok_def)

text \<open>
  A verify timeout near the top of its 64 bits is not refused: after an authentic command with
  no preconditions has run its steps, adding the timeout to the clock overflows and the task
  panics, so the steps have taken effect and no result is ever produced.
\<close>

theorem oversized_timeout_panics:
  assumes "authentic S C ring e (os_wall H (w_os w) (w_mono w))"
    and "first_invalid (envelope_capabilities e) = None"
    and "env_preconditions e = []"
    and "run_steps (run_systemctl_sync H) (host_runtime H) e (env_steps e) w = Inr w'"
    and "env_verify e = Some v" and "2 ^ 63 \<le> unat (vf_timeout_s v)"
  shows "handle_command S C (run_systemctl_sync H) (host_runtime H) ring e w = Some (Panicked, w')"
proof -
  have "2 ^ 63 \<le> (rt_instant (host_runtime H) w' + unat (vf_timeout_s v) * nanos) div nanos"
    using assms(6) by (simp add: div_add1_eq)
  then have "instant_add (rt_instant (host_runtime H) w') (vf_timeout_s v) = None"
    by (simp add: instant_add_def)
  with assms show ?thesis by (simp add: handle_command_def verify_envelope_with_Inr [symmetric])
qed

theorem oversized_timeout_panics_witness:
  "\<exists>w'. demo_run (sign_envelope demo_serde demo_crypto True (demo_envelope
       \<lparr>env_verify := Some \<lparr>vf_check = UnitState ''nginx.service'', vf_equals = ''active'', vf_timeout_s = - 1\<rparr>\<rparr>))
     = Some (Panicked, w') \<and> w_log w' = [[''systemctl'', ''restart'', ''nginx.service'']]"
proof -
  let ?v = "\<lparr>vf_check = UnitState ''nginx.service'', vf_equals = ''active'', vf_timeout_s = - 1\<rparr> :: verify"
  let ?e = "sign_envelope demo_serde demo_crypto True (demo_envelope\<lparr>env_verify := Some ?v\<rparr>)"
  let ?H = "demo_host ''active''"
  have unit: "is_valid_unit ''nginx.service''" by code_simp
  have valid: "first_invalid (envelope_capabilities ?e) = None"
    unfolding first_invalid_None envelope_capabilities_def sign_envelope_sel
    using unit by (simp add: demo_envelope_def)
  have auth: "authentic demo_serde demo_crypto (keyring_single demo_crypto True) ?e (os_wall ?H (w_os demo_world) (w_mono demo_world))"
    by (rule demo_command_authentic) (simp add: demo_envelope_def demo_host_def demo_world_def)
  have steps: "run_steps (run_systemctl_sync ?H) (host_runtime ?H) ?e (env_steps ?e) demo_world
      = Inr (demo_world\<lparr>w_mono := 1, w_log := [[''systemctl'', ''restart'', ''nginx.service'']]\<rparr>)"
    by (simp add: demo_envelope_def demo_host_def demo_world_def run_ok_def spawn_def)
  from oversized_timeout_panics [OF auth valid _ steps, of ?v] show ?thesis
    by (simp add: demo_envelope_def unsigned_minus_1_eq_mask mask_eq_exp_minus_1)
qed

end
