(* ===== verification/Policy.thy ===== *)
theory Policy
  imports Core_Types
begin

text \<open>
  \<^verbatim>\<open>crates/ravn-server/src/policy.rs\<close>: the policy engine. Rules select a decision per risk
  tier and host pattern, with the first match winning and approval as the default; the kill switch,
  the ban on automatic dangerous actions and a sliding-window circuit breaker guard the result. The
  two-pointer host matcher is a terminating recursion over its four loop variables and is compared
  with a structural definition of glob matching; the breaker's bound is proved for every sequence of
  evaluations whose clock does not run backwards.
\<close>

section \<open>Glob matching\<close>

text \<open>
  The loop of \<open>glob_match\<close>; \<open>None\<close> for \<open>star\<close> is the initial \<open>None\<close>. It returns
  \<open>None\<close> for the early \<open>return false\<close> and the final pattern index otherwise.
\<close>

function glob_loop :: "string \<Rightarrow> string \<Rightarrow> nat \<Rightarrow> nat \<Rightarrow> nat option \<Rightarrow> nat \<Rightarrow> nat option" where
  "glob_loop p t pi ti star star_ti =
     (if ti < length t
      then if pi < length p \<and> (p ! pi = CHR ''?'' \<or> p ! pi = t ! ti)
           then glob_loop p t (pi + 1) (ti + 1) star star_ti
           else if pi < length p \<and> p ! pi = CHR ''*''
           then glob_loop p t (pi + 1) ti (Some pi) ti
           else (case star of
                   Some s \<Rightarrow> glob_loop p t (s + 1) (star_ti + 1) star (star_ti + 1)
                 | None \<Rightarrow> None)
      else Some pi)"
  by pat_completeness auto
termination
  by (relation "measures
        [\<lambda>(p, t, pi, ti, star, star_ti). if star_ti \<le> ti then 0 else 1,
         \<lambda>(p, t, pi, ti, star, star_ti). length t - star_ti,
         \<lambda>(p, t, pi, ti, star, star_ti). length p - pi]") auto

declare glob_loop.simps [simp del]

text \<open>The trailing loop over stars and the final comparison.\<close>

function skip_stars :: "string \<Rightarrow> nat \<Rightarrow> nat" where
  "skip_stars p pi = (if pi < length p \<and> p ! pi = CHR ''*'' then skip_stars p (pi + 1) else pi)"
  by pat_completeness auto
termination by (relation "measure (\<lambda>(p, pi). length p - pi)") auto

declare skip_stars.simps [simp del]

definition glob_match :: "string \<Rightarrow> string \<Rightarrow> bool" where
  "glob_match p t =
     (case glob_loop p t 0 0 None 0 of None \<Rightarrow> False | Some pi \<Rightarrow> skip_stars p pi = length p)"

section \<open>Rules and the policy\<close>

datatype policy_decision = Auto | Approve | Forbid

record policy_rule =
  rule_host :: "string option"
  rule_tier :: risk_tier
  rule_decision :: policy_decision

record policy =
  pol_rules :: "policy_rule list"

definition rule_matches :: "policy_rule \<Rightarrow> string \<Rightarrow> risk_tier \<Rightarrow> bool" where
  "rule_matches r host tier \<longleftrightarrow>
     rule_tier r = tier \<and> (case rule_host r of None \<Rightarrow> True | Some g \<Rightarrow> glob_match g host)"

datatype 'e policy_file = PolicyText string | PolicyNotFound | PolicyUnreadable 'e

text \<open>\<open>toml::from_str\<close> is the parameter \<open>parse\<close>.\<close>

definition policy_load_file :: "(string \<Rightarrow> 'e + policy) \<Rightarrow> 'e policy_file \<Rightarrow> 'e + policy" where
  "policy_load_file parse file =
     (case file of
        PolicyText text \<Rightarrow> parse text
      | PolicyNotFound \<Rightarrow> Inr \<lparr>pol_rules = []\<rparr>
      | PolicyUnreadable e \<Rightarrow> Inl e)"

definition decide :: "policy \<Rightarrow> string \<Rightarrow> risk_tier \<Rightarrow> policy_decision" where
  "decide pol host tier =
     (case find (\<lambda>r. rule_matches r host tier) (pol_rules pol) of
        Some r \<Rightarrow> rule_decision r
      | None \<Rightarrow> Approve)"

section \<open>The circuit breaker\<close>

type_synonym hit_log = "string \<times> string \<Rightarrow> datetime list"

record circuit_breaker =
  br_max_auto :: u32
  br_window :: nat
  br_hits :: hit_log

text \<open>
  The window is a \<open>std::time::Duration\<close> in nanoseconds; one that does not fit chrono's signed
  milliseconds becomes zero. A pair that was never seen has an empty hit list.
\<close>

definition breaker_new :: "u32 \<Rightarrow> nat \<Rightarrow> circuit_breaker" where
  "breaker_new max_auto window = \<lparr>br_max_auto = max_auto, br_window = window, br_hits = (\<lambda>_. [])\<rparr>"

definition window_duration :: "nat \<Rightarrow> int" where
  "window_duration w = (if w \<le> (2 ^ 63 - 1) * 1000000 then int w else 0)"

definition tripped :: "circuit_breaker \<Rightarrow> string \<Rightarrow> string \<Rightarrow> datetime \<Rightarrow> bool \<times> circuit_breaker" where
  "tripped b host tmpl now =
     (let cutoff = now - window_duration (br_window b);
          entry = filter (\<lambda>t. t > cutoff) (br_hits b (host, tmpl))
      in (br_max_auto b \<le> word_of_nat (length entry), b\<lparr>br_hits := (br_hits b)((host, tmpl) := entry)\<rparr>))"

definition breaker_record :: "circuit_breaker \<Rightarrow> string \<Rightarrow> string \<Rightarrow> datetime \<Rightarrow> circuit_breaker" where
  "breaker_record b host tmpl now =
     b\<lparr>br_hits := (br_hits b)((host, tmpl) := br_hits b (host, tmpl) @ [now])\<rparr>"

section \<open>The engine\<close>

record policy_engine =
  pe_policy :: policy
  pe_auto_enabled :: bool
  pe_breaker :: circuit_breaker

definition policy_engine_new :: "policy \<Rightarrow> bool \<Rightarrow> u32 \<Rightarrow> nat \<Rightarrow> policy_engine" where
  "policy_engine_new pol auto_enabled max_auto window =
     \<lparr>pe_policy = pol, pe_auto_enabled = auto_enabled, pe_breaker = breaker_new max_auto window\<rparr>"

record evaluate_result =
  evr_decision :: policy_decision
  evr_breaker_tripped :: bool

definition evaluate ::
  "policy_engine \<Rightarrow> string \<Rightarrow> risk_tier \<Rightarrow> string \<Rightarrow> datetime \<Rightarrow> evaluate_result \<times> policy_engine" where
  "evaluate eng host tier tmpl now =
     (if \<not> pe_auto_enabled eng
      then (\<lparr>evr_decision = (case decide (pe_policy eng) host tier of Forbid \<Rightarrow> Forbid | _ \<Rightarrow> Approve),
             evr_breaker_tripped = False\<rparr>, eng)
      else
        let d0 = decide (pe_policy eng) host tier;
            d = (if d0 = Auto \<and> tier = Dangerous then Approve else d0)
        in if d = Auto
           then case tripped (pe_breaker eng) host tmpl now of (trip, b) \<Rightarrow>
                  if trip
                  then (\<lparr>evr_decision = Approve, evr_breaker_tripped = True\<rparr>, eng\<lparr>pe_breaker := b\<rparr>)
                  else (\<lparr>evr_decision = Auto, evr_breaker_tripped = False\<rparr>,
                        eng\<lparr>pe_breaker := breaker_record b host tmpl now\<rparr>)
           else (\<lparr>evr_decision = d, evr_breaker_tripped = False\<rparr>, eng))"

section \<open>A structural definition of glob matching\<close>

fun glob_spec :: "string \<Rightarrow> string \<Rightarrow> bool" where
  "glob_spec [] t \<longleftrightarrow> t = []"
| "glob_spec (c # p) [] \<longleftrightarrow> c = CHR ''*'' \<and> glob_spec p []"
| "glob_spec (c # p) (x # t) \<longleftrightarrow>
     (if c = CHR ''*'' then glob_spec p (x # t) \<or> glob_spec (c # p) t
      else (c = CHR ''?'' \<or> c = x) \<and> glob_spec p t)"

lemma glob_spec_star: "glob_spec (CHR ''*'' # p) t \<longleftrightarrow> (\<exists>k\<le>length t. glob_spec p (drop k t))"
proof (induction t)
  case Nil
  then show ?case by simp
next
  case (Cons x t)
  have "(\<exists>k\<le>length (x # t). glob_spec p (drop k (x # t)))
      \<longleftrightarrow> glob_spec p (x # t) \<or> (\<exists>k\<le>length t. glob_spec p (drop k t))" (is "?L \<longleftrightarrow> ?R")
  proof
    assume ?L
    then obtain k where "k \<le> length (x # t)" "glob_spec p (drop k (x # t))" by blast
    then show ?R by (cases k) auto
  next
    assume ?R
    then show ?L
    proof
      assume "glob_spec p (x # t)"
      then show ?L by (intro exI [of _ 0]) simp
    next
      assume "\<exists>k\<le>length t. glob_spec p (drop k t)"
      then obtain k where "k \<le> length t" "glob_spec p (drop k t)" by blast
      then show ?L by (intro exI [of _ "Suc k"]) simp
    qed
  qed
  with Cons.IH show ?case by simp
qed

lemma glob_spec_Cons:
  "c \<noteq> CHR ''*'' \<Longrightarrow> glob_spec (c # p) t \<longleftrightarrow> t \<noteq> [] \<and> (c = CHR ''?'' \<or> c = hd t) \<and> glob_spec p (tl t)"
  by (cases t) auto

lemma glob_spec_Nil: "glob_spec p [] \<longleftrightarrow> (\<forall>c\<in>set p. c = CHR ''*'')"
  by (induction p) auto

subsection \<open>The two-pointer loop against the structural definition\<close>

abbreviation glob_at :: "string \<Rightarrow> string \<Rightarrow> nat \<Rightarrow> nat \<Rightarrow> bool" where
  "glob_at p t i j \<equiv> glob_spec (drop i p) (drop j t)"

lemma glob_at_char:
  assumes "i < length p" "p ! i \<noteq> CHR ''*''"
  shows "glob_at p t i j \<longleftrightarrow> j < length t \<and> (p ! i = CHR ''?'' \<or> p ! i = t ! j) \<and> glob_at p t (Suc i) (Suc j)"
  using assms by (auto simp: Cons_nth_drop_Suc [symmetric] glob_spec_Cons hd_drop_conv_nth tl_drop drop_Suc)

lemma glob_at_star:
  assumes "i < length p" "p ! i = CHR ''*''"
  shows "glob_at p t i j \<longleftrightarrow> (\<exists>k\<ge>j. (k \<le> length t \<or> k = j) \<and> glob_at p t (Suc i) k)"
proof -
  have "glob_at p t i j \<longleftrightarrow> (\<exists>k\<le>length t - j. glob_at p t (Suc i) (k + j))"
    using assms by (simp add: Cons_nth_drop_Suc [symmetric] glob_spec_star)
  also have "\<dots> \<longleftrightarrow> (\<exists>k\<ge>j. (k \<le> length t \<or> k = j) \<and> glob_at p t (Suc i) k)" (is "?L \<longleftrightarrow> ?R")
  proof
    assume ?L
    then obtain k where "k \<le> length t - j" "glob_at p t (Suc i) (k + j)" by blast
    then show ?R by (intro exI [of _ "k + j"]) auto
  next
    assume ?R
    then obtain k where "k \<ge> j" "k \<le> length t \<or> k = j" "glob_at p t (Suc i) k" by blast
    then show ?L by (intro exI [of _ "k - j"]) auto
  qed
  finally show ?thesis .
qed

text \<open>A stretch of the pattern without stars consumes as many characters as it is long.\<close>

lemma glob_at_stretch:
  assumes "glob_at p t i j" "i + n \<le> length p" "\<forall>m<n. p ! (i + m) \<noteq> CHR ''*''" "j \<le> length t"
  shows "glob_at p t (i + n) (j + n) \<and> j + n \<le> length t"
  using assms
proof (induction n arbitrary: i j)
  case 0
  then show ?case by simp
next
  case (Suc n)
  from Suc.prems(3) have "p ! (i + 0) \<noteq> CHR ''*''" by blast
  then have ne: "p ! i \<noteq> CHR ''*''" by simp
  from Suc.prems(2) have i: "i < length p" by simp
  from Suc.prems(1) have step: "j < length t" "glob_at p t (Suc i) (Suc j)"
    unfolding glob_at_char [OF i ne] by simp_all
  moreover have "\<forall>m<n. p ! (Suc i + m) \<noteq> CHR ''*''" using Suc.prems(3) by auto
  ultimately show ?case using Suc.IH [of "Suc i" "Suc j"] Suc.prems(2) by simp
qed

text \<open>
  The loop invariant: since the last star at \<open>s\<close> was seen with the text at \<open>star_ti\<close>, the
  pattern moved over a stretch without stars, one text character each.
\<close>

definition glob_inv :: "string \<Rightarrow> string \<Rightarrow> nat \<Rightarrow> nat \<Rightarrow> nat option \<Rightarrow> nat \<Rightarrow> bool" where
  "glob_inv p t pi ti star star_ti \<longleftrightarrow>
     pi \<le> length p \<and> ti \<le> length t
     \<and> (case star of
          None \<Rightarrow> True
        | Some s \<Rightarrow> s < pi \<and> star_ti \<le> ti \<and> ti - star_ti = pi - Suc s
            \<and> (\<forall>m. s < m \<and> m < pi \<longrightarrow> p ! m \<noteq> CHR ''*''))"

text \<open>What the loop still has to find: a match here, or one with the last star taking more.\<close>

definition glob_goal :: "string \<Rightarrow> string \<Rightarrow> nat \<Rightarrow> nat \<Rightarrow> nat option \<Rightarrow> nat \<Rightarrow> bool" where
  "glob_goal p t pi ti star star_ti \<longleftrightarrow>
     glob_at p t pi ti
     \<or> (case star of None \<Rightarrow> False | Some s \<Rightarrow> \<exists>k>star_ti. k \<le> length t \<and> glob_at p t (Suc s) k)"

text \<open>Giving the last star more text moves the current position further along the text.\<close>

lemma glob_goal_shift:
  assumes "glob_inv p t pi ti (Some s) star_ti" "k > star_ti" "k \<le> length t" "glob_at p t (Suc s) k"
  shows "\<exists>j>ti. j \<le> length t \<and> glob_at p t pi j"
proof -
  let ?n = "pi - Suc s"
  have "\<forall>m<?n. p ! (Suc s + m) \<noteq> CHR ''*''" using assms(1) by (auto simp: glob_inv_def)
  with glob_at_stretch [OF assms(4), of ?n] assms
  have "glob_at p t pi (k + ?n)" "k + ?n \<le> length t" by (auto simp: glob_inv_def)
  moreover have "k + ?n > ti" using assms by (auto simp: glob_inv_def)
  ultimately show ?thesis by blast
qed

lemma skip_stars_spec:
  assumes "pi \<le> length p"
  shows "skip_stars p pi = length p \<longleftrightarrow> glob_spec (drop pi p) []"
  using assms
proof (induction p pi rule: skip_stars.induct)
  case (1 p pi)
  show ?case
  proof (cases "pi < length p")
    case True
    then have "drop pi p = p ! pi # drop (Suc pi) p" by (simp add: Cons_nth_drop_Suc)
    with 1 True show ?thesis by (simp add: skip_stars.simps [of p pi])
  next
    case False
    with 1 have "pi = length p" by simp
    then show ?thesis by (simp add: skip_stars.simps [of p "length p"])
  qed
qed

lemma glob_loop_goal:
  assumes "CHR ''*'' \<notin> set t" "glob_inv p t pi ti star star_ti"
  shows "(case glob_loop p t pi ti star star_ti of None \<Rightarrow> False | Some q \<Rightarrow> skip_stars p q = length p)
     \<longleftrightarrow> glob_goal p t pi ti star star_ti"
  using assms
proof (induction p t pi ti star star_ti rule: glob_loop.induct)
  case (1 p t pi ti star star_ti)
  note step = glob_loop.simps [of p t pi ti star star_ti]
  consider (fin) "\<not> ti < length t"
  | (char) "ti < length t" "pi < length p" "p ! pi = CHR ''?'' \<or> p ! pi = t ! ti"
  | (star) "ti < length t" "pi < length p" "\<not> (p ! pi = CHR ''?'' \<or> p ! pi = t ! ti)" "p ! pi = CHR ''*''"
  | (retry) "ti < length t" "pi < length p \<longrightarrow> \<not> (p ! pi = CHR ''?'' \<or> p ! pi = t ! ti) \<and> p ! pi \<noteq> CHR ''*''"
    by blast
  then show ?case
  proof cases
    case fin
    with 1(5) have ti: "ti = length t" and pi: "pi \<le> length p" by (auto simp: glob_inv_def)
    have "\<not> (\<exists>k>star_ti. k \<le> length t \<and> glob_at p t (Suc s) k)" if "star = Some s" for s
      using glob_goal_shift [of p t pi ti s star_ti] 1(5) that ti by fastforce
    then have "glob_goal p t pi ti star star_ti \<longleftrightarrow> glob_at p t pi ti"
      by (auto simp: glob_goal_def split: option.splits)
    moreover have "glob_loop p t pi ti star star_ti = Some pi" using fin by (simp add: step)
    ultimately show ?thesis using skip_stars_spec [OF pi] ti by simp
  next
    case char
    then have "t ! ti \<in> set t" by simp
    with char 1(4) have ne: "p ! pi \<noteq> CHR ''*''" by force
    have inv: "glob_inv p t (pi + 1) (ti + 1) star star_ti"
      using 1(5) char ne by (auto simp: glob_inv_def less_Suc_eq split: option.splits)
    have "glob_goal p t pi ti star star_ti = glob_goal p t (pi + 1) (ti + 1) star star_ti"
      using glob_at_char [OF char(2) ne] char by (auto simp: glob_goal_def)
    with 1(1) [OF char(1) _ 1(4) inv] char show ?thesis by (simp add: step)
  next
    case star
    have inv: "glob_inv p t (pi + 1) ti (Some pi) ti"
      using 1(5) star by (auto simp: glob_inv_def)
    have "glob_at p t pi ti = glob_goal p t (pi + 1) ti (Some pi) ti"
      unfolding glob_at_star [OF star(2,4)] glob_goal_def using star(1) by (auto simp: le_less)
    moreover have "glob_at p t pi ti" if s: "star = Some s" "\<exists>k>star_ti. k \<le> length t \<and> glob_at p t (Suc s) k" for s
    proof -
      obtain j where "j > ti" "j \<le> length t" "glob_at p t pi j"
        using glob_goal_shift [of p t pi ti s star_ti] 1(5) s by blast
      then obtain k where "k \<ge> j" "k \<le> length t" "glob_at p t (Suc pi) k"
        using glob_at_star [OF star(2,4)] by auto
      with \<open>j > ti\<close> show ?thesis unfolding glob_at_star [OF star(2,4)] by (intro exI [of _ k]) simp
    qed
    ultimately have "glob_goal p t pi ti star star_ti = glob_goal p t (pi + 1) ti (Some pi) ti"
      by (auto simp: glob_goal_def [of p t pi ti star star_ti] split: option.splits)
    with 1(2) [OF star(1) _ _ 1(4) inv] star show ?thesis by (simp add: step)
  next
    case retry
    have no: "\<not> glob_at p t pi ti"
    proof (cases "pi < length p")
      case True
      with retry glob_at_char [OF True] show ?thesis by blast
    next
      case False
      with retry(1) show ?thesis by simp
    qed
    show ?thesis
    proof (cases star)
      case None
      then have "glob_loop p t pi ti star star_ti = None" using retry by (subst step) auto
      then show ?thesis using no None by (simp add: glob_goal_def)
    next
      case (Some s)
      have inv: "glob_inv p t (s + 1) (star_ti + 1) star (star_ti + 1)"
        using 1(5) retry(1) Some by (auto simp: glob_inv_def)
      have "(\<exists>k>star_ti. k \<le> length t \<and> glob_at p t (Suc s) k) \<longleftrightarrow>
          glob_at p t (Suc s) (Suc star_ti) \<or> (\<exists>k>Suc star_ti. k \<le> length t \<and> glob_at p t (Suc s) k)"
        using inv by (auto simp: glob_inv_def) (metis Suc_lessI, metis Suc_le_eq Suc_leD less_Suc_eq_le Suc_lessD)+
      then have "glob_goal p t pi ti star star_ti = glob_goal p t (s + 1) (star_ti + 1) star (star_ti + 1)"
        using no Some by (simp add: glob_goal_def)
      moreover have "glob_loop p t pi ti star star_ti = glob_loop p t (s + 1) (star_ti + 1) star (star_ti + 1)"
        using retry Some by (subst step) auto
      ultimately show ?thesis using 1(3) [OF retry(1) _ _ Some 1(4) inv] retry by auto
    qed
  qed
qed

lemma glob_match_spec: "CHR ''*'' \<notin> set t \<Longrightarrow> glob_match p t \<longleftrightarrow> glob_spec p t"
  using glob_loop_goal [of t p 0 0 None 0] by (simp add: glob_match_def glob_inv_def glob_goal_def)

section \<open>The breaker's window\<close>

text \<open>
  A request is \<open>(host, tier, template, now)\<close>. \<open>evaluate_all\<close> runs a list of them through the
  engine; \<open>auto_times\<close> collects when a pair was decided automatically.
\<close>

type_synonym policy_request = "string \<times> risk_tier \<times> string \<times> datetime"

fun evaluate_all :: "policy_engine \<Rightarrow> policy_request list \<Rightarrow> evaluate_result list \<times> policy_engine" where
  "evaluate_all eng [] = ([], eng)"
| "evaluate_all eng ((host, tier, tmpl, now) # rs) =
     (let (r, eng1) = evaluate eng host tier tmpl now; (qs, eng2) = evaluate_all eng1 rs in (r # qs, eng2))"

fun auto_times :: "string \<times> string \<Rightarrow> policy_request list \<Rightarrow> evaluate_result list \<Rightarrow> datetime list" where
  "auto_times key ((host, tier, tmpl, now) # rs) (q # qs) =
     (if evr_decision q = Auto \<and> (host, tmpl) = key then now # auto_times key rs qs else auto_times key rs qs)"
| "auto_times key _ _ = []"

fun request_time :: "policy_request \<Rightarrow> datetime" where
  "request_time (host, tier, tmpl, now) = now"

text \<open>
  The invariant for one pair, given its automatic decisions so far and a time no later than any
  request to come: the hit list is short, it agrees with the history on everything that can still
  be inside a window, and no window of the history holds more than the cap.
\<close>

definition in_window :: "int \<Rightarrow> datetime \<Rightarrow> datetime list \<Rightarrow> datetime list" where
  "in_window w t ts = filter (\<lambda>x. t - w < x \<and> x \<le> t) ts"

definition breaker_inv :: "circuit_breaker \<Rightarrow> string \<times> string \<Rightarrow> datetime list \<Rightarrow> datetime \<Rightarrow> bool" where
  "breaker_inv b key hist now \<longleftrightarrow>
     length (br_hits b key) \<le> unat (br_max_auto b)
     \<and> (\<forall>c\<ge>now - window_duration (br_window b). filter (\<lambda>x. c < x) (br_hits b key) = filter (\<lambda>x. c < x) hist)
     \<and> (\<forall>x\<in>set hist. x \<le> now)
     \<and> (\<forall>t. length (in_window (window_duration (br_window b)) t hist) \<le> unat (br_max_auto b))"

lemma breaker_inv_later: "breaker_inv b key hist now \<Longrightarrow> now \<le> now' \<Longrightarrow> breaker_inv b key hist now'"
  by (force simp: breaker_inv_def)

lemma window_duration_nonneg: "0 \<le> window_duration w"
  by (simp add: window_duration_def)

lemma breaker_inv_new: "breaker_inv (breaker_new m w) key [] now"
  by (simp add: breaker_inv_def breaker_new_def in_window_def)

lemma length_filter_mono: "(\<And>x. P x \<Longrightarrow> Q x) \<Longrightarrow> length (filter P xs) \<le> length (filter Q xs)"
  by (induction xs) (auto simp: le_SucI)

lemma tripped_keeps:
  assumes "breaker_inv b key hist now" "tripped b host tmpl now = (trip, b')"
  shows "breaker_inv b' key hist now" and "br_max_auto b' = br_max_auto b" "br_window b' = br_window b"
proof -
  let ?c = "now - window_duration (br_window b)"
  have "filter (\<lambda>x. c < x) (filter (\<lambda>t. ?c < t) xs) = filter (\<lambda>x. c < x) xs" if "c \<ge> ?c" for c xs
    using that by (auto simp: filter_filter intro!: filter_cong)
  moreover have "length (filter P xs) \<le> n" if "length xs \<le> n" for P :: "int \<Rightarrow> bool" and xs n
    using that le_trans length_filter_le by blast
  moreover have "br_hits b' key = br_hits b key \<or> br_hits b' key = filter (\<lambda>t. ?c < t) (br_hits b key)"
    and "br_max_auto b' = br_max_auto b" "br_window b' = br_window b"
    using assms(2) by (auto simp: tripped_def Let_def)
  ultimately show "breaker_inv b' key hist now"
    using assms(1) unfolding breaker_inv_def by metis
qed (use assms in \<open>auto simp: tripped_def Let_def\<close>)

lemma tripped_hits:
  assumes "breaker_inv b (host, tmpl) hist now" "tripped b host tmpl now = (False, b')"
  shows "br_hits b' (host, tmpl) = filter (\<lambda>x. now - window_duration (br_window b) < x) hist"
    and "length (br_hits b' (host, tmpl)) < unat (br_max_auto b)"
proof -
  let ?e = "filter (\<lambda>x. now - window_duration (br_window b) < x) (br_hits b (host, tmpl))"
  have hits: "br_hits b' (host, tmpl) = ?e" and lt: "(word_of_nat (length ?e) :: u32) < br_max_auto b"
    using assms(2) by (auto simp: tripped_def Let_def)
  show "br_hits b' (host, tmpl) = filter (\<lambda>x. now - window_duration (br_window b) < x) hist"
    using hits assms(1) by (simp add: breaker_inv_def)
  have "length ?e \<le> unat (br_max_auto b)"
    using assms(1) length_filter_le le_trans unfolding breaker_inv_def by blast
  moreover have "unat (br_max_auto b) < 2 ^ 32" using unsigned_less [of "br_max_auto b"] by simp
  ultimately have "unat (word_of_nat (length ?e) :: u32) = length ?e" by (simp add: unat_of_nat)
  with lt hits show "length (br_hits b' (host, tmpl)) < unat (br_max_auto b)" by (simp add: word_less_nat_alt)
qed

lemma record_keeps:
  assumes inv: "breaker_inv b (host, tmpl) hist now" and "tripped b host tmpl now = (False, b')"
  shows "breaker_inv (breaker_record b' host tmpl now) (host, tmpl) (hist @ [now]) now"
proof -
  note keep = tripped_keeps [OF assms] and hits = tripped_hits [OF assms]
  let ?w = "window_duration (br_window b)"
  have "length (in_window ?w t (hist @ [now])) \<le> unat (br_max_auto b)" for t
  proof (cases "now \<le> t")
    case False
    then have "in_window ?w t (hist @ [now]) = in_window ?w t hist" by (simp add: in_window_def)
    with inv show ?thesis by (simp add: breaker_inv_def)
  next
    case True
    then have "length (filter (\<lambda>x. t - ?w < x \<and> x \<le> t) hist) \<le> length (filter (\<lambda>x. now - ?w < x) hist)"
      by (intro length_filter_mono) simp
    then show ?thesis using hits by (auto simp: in_window_def)
  qed
  with keep hits show ?thesis by (auto simp: breaker_inv_def breaker_record_def)
qed

lemma breaker_record_other:
  "key \<noteq> (host, tmpl) \<Longrightarrow> breaker_inv (breaker_record b host tmpl now) key hist t = breaker_inv b key hist t"
  by (simp add: breaker_inv_def breaker_record_def)

lemma evaluate_cases:
  obtains (manual) r where "evaluate eng host tier tmpl now = (r, eng)" "evr_decision r \<noteq> Auto"
      "\<not> evr_breaker_tripped r"
  | (trip) b where "tripped (pe_breaker eng) host tmpl now = (True, b)"
      "evaluate eng host tier tmpl now =
         (\<lparr>evr_decision = Approve, evr_breaker_tripped = True\<rparr>, eng\<lparr>pe_breaker := b\<rparr>)"
      "pe_auto_enabled eng" "tier \<noteq> Dangerous" "decide (pe_policy eng) host tier = Auto"
  | (auto) b where "tripped (pe_breaker eng) host tmpl now = (False, b)"
      "evaluate eng host tier tmpl now =
         (\<lparr>evr_decision = Auto, evr_breaker_tripped = False\<rparr>,
          eng\<lparr>pe_breaker := breaker_record b host tmpl now\<rparr>)"
      "pe_auto_enabled eng" "tier \<noteq> Dangerous" "decide (pe_policy eng) host tier = Auto"
proof (cases "pe_auto_enabled eng \<and> tier \<noteq> Dangerous \<and> decide (pe_policy eng) host tier = Auto")
  case False
  then show thesis
    by (intro manual [of "fst (evaluate eng host tier tmpl now)"])
      (auto simp: evaluate_def Let_def split: policy_decision.splits)
next
  case True
  obtain t b where tb: "tripped (pe_breaker eng) host tmpl now = (t, b)" by fastforce
  with True show thesis
    by (cases t) (auto simp: evaluate_def intro: trip auto)
qed

lemma evaluate_all_inv:
  assumes "breaker_inv (pe_breaker eng) key hist t0" "sorted (t0 # map request_time rs)"
    and "evaluate_all eng rs = (qs, eng')"
  shows "\<exists>t. breaker_inv (pe_breaker eng') key (hist @ auto_times key rs qs) t
     \<and> br_max_auto (pe_breaker eng') = br_max_auto (pe_breaker eng)
     \<and> br_window (pe_breaker eng') = br_window (pe_breaker eng)"
  using assms
proof (induction eng rs arbitrary: hist t0 qs rule: evaluate_all.induct)
  case (1 eng)
  then show ?case by auto
next
  case (2 eng host tier tmpl now rs)
  obtain r eng1 where ev: "evaluate eng host tier tmpl now = (r, eng1)" by fastforce
  obtain qs1 where rest: "evaluate_all eng1 rs = (qs1, eng')" and qs: "qs = r # qs1"
    using 2(4) ev by (auto split: prod.splits)
  have inv: "breaker_inv (pe_breaker eng) key hist now" and sorted: "sorted (now # map request_time rs)"
    using breaker_inv_later [OF 2(2)] 2(3) by auto
  let ?h = "hist @ (if evr_decision r = Auto \<and> (host, tmpl) = key then [now] else [])"
  have "breaker_inv (pe_breaker eng1) key ?h now \<and> br_max_auto (pe_breaker eng1) = br_max_auto (pe_breaker eng)
      \<and> br_window (pe_breaker eng1) = br_window (pe_breaker eng)"
  proof (cases rule: evaluate_cases [of eng host tier tmpl now])
    case (manual r)
    with ev inv show ?thesis by simp
  next
    case (trip b)
    with ev tripped_keeps [OF inv trip(1)] show ?thesis by auto
  next
    case (auto b)
    show ?thesis
    proof (cases "key = (host, tmpl)")
      case True
      with auto ev record_keeps [OF _ auto(1)] inv tripped_keeps(2,3) [OF inv auto(1)] show ?thesis
        by (auto simp: breaker_record_def)
    next
      case False
      with auto ev tripped_keeps [OF inv auto(1)] show ?thesis
        by (auto simp: breaker_record_other) (simp_all add: breaker_record_def)
    qed
  qed
  then obtain t where "breaker_inv (pe_breaker eng') key (?h @ auto_times key rs qs1) t"
      "br_max_auto (pe_breaker eng') = br_max_auto (pe_breaker eng)"
      "br_window (pe_breaker eng') = br_window (pe_breaker eng)"
    using 2(1) [OF ev [symmetric] refl _ sorted rest, of ?h] by auto
  then show ?case by (intro exI [of _ t]) (auto simp: qs split: if_splits)
qed

section \<open>Properties\<close>

text \<open>
  C37: the two-pointer host matcher decides exactly the pattern language (\<open>*\<close> for any run,
  \<open>?\<close> for one byte, anything else itself) on every text without a \<open>*\<close>: backtracking to
  the last star only is enough.
\<close>

theorem glob_match_correct:
  assumes "CHR ''*'' \<notin> set t"
  shows "glob_match p t \<longleftrightarrow> glob_spec p t"
  using assms by (rule glob_match_spec)

theorem glob_match_correct_witness: "glob_match ''*-e?g*'' ''web-edge'' \<and> \<not> glob_match ''*.prod'' ''web-edge''"
proof -
  have "CHR ''*'' \<notin> set ''web-edge''" by simp
  note eq = glob_match_correct [OF this]
  show ?thesis unfolding eq by code_simp
qed

text \<open>
  A text that itself begins with \<open>*\<close> escapes the pattern \<open>*\<close>: the star is taken as a
  literal match first and is not remembered, so the pattern that should match every host does not
  match a host called \<open>*x\<close>, and a rule for all hosts is skipped for it.
\<close>

theorem glob_match_literal_star:
  assumes "x \<noteq> []"
  shows "glob_spec ''*'' (CHR ''*'' # x) \<and> \<not> glob_match ''*'' (CHR ''*'' # x)
     \<and> decide \<lparr>pol_rules = [\<lparr>rule_host = Some ''*'', rule_tier = tier, rule_decision = Forbid\<rparr>]\<rparr>
         (CHR ''*'' # x) tier = Approve"
proof -
  have "glob_spec ''*'' t" for t by (induction t) auto
  moreover have "glob_loop ''*'' (CHR ''*'' # x) 1 1 None 0 = None"
    using assms by (subst glob_loop.simps) simp
  then have "glob_loop ''*'' (CHR ''*'' # x) 0 0 None 0 = None" by (subst glob_loop.simps) simp
  then have "\<not> glob_match ''*'' (CHR ''*'' # x)" by (simp add: glob_match_def)
  ultimately show ?thesis by (simp add: decide_def rule_matches_def)
qed

theorem glob_match_literal_star_witness: "glob_spec ''*'' ''*x'' \<and> \<not> glob_match ''*'' ''*x''"
  using glob_match_literal_star [of "''x''" Safe] by simp


text \<open>
  C16: the circuit breaker holds. For an engine fresh from start-up and any sequence of evaluations
  whose clock does not run backwards, no window of the configured length contains more than
  \<open>max_auto\<close> automatic decisions for one host and template.
\<close>

theorem breaker_window_bound:
  assumes "evaluate_all (policy_engine_new pol on max_auto window) rs = (qs, eng)"
    and "sorted (map request_time rs)"
  shows "length (in_window (window_duration window) t (auto_times (host, tmpl) rs qs)) \<le> unat max_auto"
proof -
  let ?eng = "policy_engine_new pol on max_auto window"
  define t0 where "t0 = (case rs of [] \<Rightarrow> 0 | r # _ \<Rightarrow> request_time r)"
  have "breaker_inv (pe_breaker ?eng) (host, tmpl) [] t0"
    by (simp add: policy_engine_new_def breaker_inv_new)
  moreover have "sorted (t0 # map request_time rs)"
    using assms(2) by (cases rs) (auto simp: t0_def)
  ultimately obtain u where "breaker_inv (pe_breaker eng) (host, tmpl) ([] @ auto_times (host, tmpl) rs qs) u"
      "br_max_auto (pe_breaker eng) = max_auto" "br_window (pe_breaker eng) = window"
    using evaluate_all_inv [OF _ _ assms(1)] by (fastforce simp: policy_engine_new_def breaker_new_def)
  then show ?thesis by (simp add: breaker_inv_def)
qed

theorem breaker_window_bound_witness:
  "let rs = [(''h'', Safe, ''t'', 0), (''h'', Safe, ''t'', 5), (''h'', Safe, ''t'', 20)];
       eng = policy_engine_new \<lparr>pol_rules = [\<lparr>rule_host = None, rule_tier = Safe, rule_decision = Auto\<rparr>]\<rparr> True 1 10;
       qs = fst (evaluate_all eng rs)
   in map evr_decision qs = [Auto, Approve, Auto]
      \<and> length (in_window (window_duration 10) 20 (auto_times (''h'', ''t'') rs qs)) \<le> unat (1 :: u32)"
proof -
  let ?rs = "[(''h'', Safe, ''t'', 0), (''h'', Safe, ''t'', 5), (''h'', Safe, ''t'', 20)] :: policy_request list"
  let ?eng = "policy_engine_new \<lparr>pol_rules = [\<lparr>rule_host = None, rule_tier = Safe, rule_decision = Auto\<rparr>]\<rparr> True 1 10"
  have run: "map evr_decision (fst (evaluate_all ?eng ?rs)) = [Auto, Approve, Auto]"
    by (simp add: policy_engine_new_def breaker_new_def evaluate_def decide_def rule_matches_def tripped_def
        breaker_record_def window_duration_def Let_def)
  obtain qs eng where ev: "evaluate_all ?eng ?rs = (qs, eng)" by fastforce
  have "sorted (map request_time ?rs)" by simp
  from breaker_window_bound [OF ev this, of 20 "''h''" "''t''"] ev run show ?thesis
    unfolding Let_def by simp
qed

end
