(* ===== verification/Command_Queue.thy ===== *)
theory Command_Queue
  imports Crypto_Props
begin

text \<open>
  \<^verbatim>\<open>crates/ravn-server/src/command.rs\<close>: the control plane's signing key with the keyring it
  publishes, and the in-memory queue agents pull their commands from. Files are inputs: what a path
  holds when it is read, and whether writing it works. The queue's contract is the locale
  \<open>command_channel\<close>; that every command reaches its agent once and in order is proved there and
  interpreted on the queue.
\<close>

section \<open>The command signer\<close>

record 'sk command_signer =
  cs_key :: 'sk
  cs_pubkey_b64 :: string
  cs_keyring_json :: string

datatype signer_error =
    ReadKeyFailed
  | InvalidSigningKey key_error
  | PersistKeyFailed
  | PreviousKeysFailed
  | InvalidPreviousKey string key_error

text \<open>
  What \<open>RAVN_COMMAND_KEY\<close> gives: no path; an existing file with its text (\<open>None\<close>: unreadable);
  or a path with no file yet, and whether the new key can be written there.
\<close>

datatype key_location = NoKeyPath | KeyFile "string option" | KeyFileAbsent bool

text \<open>\<open>persist_key\<close>: the text written to the file, if the write works.\<close>

definition persist_key :: "('sk, 'vk) crypto \<Rightarrow> 'sk \<Rightarrow> bool \<Rightarrow> string option" where
  "persist_key C k writable = (if writable then Some (signing_key_to_b64 C k) else None)"

text \<open>The signing key and the file text that start-up writes; \<open>fresh\<close> is a newly generated key.\<close>

definition load_signing_key ::
  "('sk, 'vk) crypto \<Rightarrow> 'sk \<Rightarrow> key_location \<Rightarrow> signer_error + ('sk \<times> string option)" where
  "load_signing_key C fresh loc =
     (case loc of
        KeyFile None \<Rightarrow> Inl ReadKeyFailed
      | KeyFile (Some b64) \<Rightarrow>
          (case signing_key_from_b64 C b64 of
             Inl e \<Rightarrow> Inl (InvalidSigningKey e)
           | Inr k \<Rightarrow> Inr (k, None))
      | KeyFileAbsent writable \<Rightarrow>
          (case persist_key C fresh writable of
             None \<Rightarrow> Inl PersistKeyFailed
           | Some text \<Rightarrow> Inr (fresh, Some text))
      | NoKeyPath \<Rightarrow> Inr (fresh, None))"

text \<open>A directory entry: whether it is a regular file and its text, \<open>None\<close> for an I/O error.\<close>

record dir_entry =
  de_name :: string
  de_is_file :: "bool option"
  de_contents :: "string option"

fun read_entries :: "dir_entry list \<Rightarrow> (string \<times> string) list \<Rightarrow> signer_error + (string \<times> string) list" where
  "read_entries [] out = Inr out"
| "read_entries (d # ds) out =
     (case de_is_file d of
        None \<Rightarrow> Inl PreviousKeysFailed
      | Some False \<Rightarrow> read_entries ds out
      | Some True \<Rightarrow>
          (case de_contents d of
             None \<Rightarrow> Inl PreviousKeysFailed
           | Some text \<Rightarrow> read_entries ds (out @ [(de_name d, text)])))"

text \<open>\<open>None\<close>: the directory does not exist; \<open>Some None\<close>: it cannot be listed.\<close>

definition read_previous_pubkeys ::
  "dir_entry list option option \<Rightarrow> signer_error + (string \<times> string) list" where
  "read_previous_pubkeys dir =
     (case dir of
        None \<Rightarrow> Inr []
      | Some None \<Rightarrow> Inl PreviousKeysFailed
      | Some (Some ds) \<Rightarrow> read_entries ds [])"

fun insert_previous ::
  "('sk, 'vk) crypto \<Rightarrow> (string \<times> string) list \<Rightarrow> 'vk keyring \<Rightarrow> signer_error + 'vk keyring" where
  "insert_previous C [] ring = Inr ring"
| "insert_previous C ((file, b64) # rest) ring =
     (case verifying_key_from_b64 C b64 of
        Inl e \<Rightarrow> Inl (InvalidPreviousKey file e)
      | Inr prev \<Rightarrow> insert_previous C rest (snd (keyring_insert C prev ring)))"

definition load_or_generate_with_previous ::
  "serde \<Rightarrow> ('sk, 'vk) crypto \<Rightarrow> 'sk \<Rightarrow> key_location \<Rightarrow> dir_entry list option option option
     \<Rightarrow> signer_error + 'sk command_signer" where
  "load_or_generate_with_previous S C fresh loc prev =
     (case load_signing_key C fresh loc of
        Inl e \<Rightarrow> Inl e
      | Inr (key, _) \<Rightarrow>
          let active = verifying_key C key;
              files = (case prev of None \<Rightarrow> Inr [] | Some dir \<Rightarrow> read_previous_pubkeys dir)
          in case files of
               Inl e \<Rightarrow> Inl e
             | Inr fs \<Rightarrow>
                 (case insert_previous C fs (keyring_single C active) of
                    Inl e \<Rightarrow> Inl e
                  | Inr ring \<Rightarrow>
                      Inr \<lparr>cs_key = key, cs_pubkey_b64 = verifying_key_to_b64 C active,
                           cs_keyring_json = keyring_to_json S C (snd (keyring_set_default (key_id C active) ring))\<rparr>))"

definition signer_sign :: "serde \<Rightarrow> ('sk, 'vk) crypto \<Rightarrow> 'sk command_signer \<Rightarrow> envelope \<Rightarrow> envelope" where
  "signer_sign S C s e = sign_envelope S C (cs_key s) e"

section \<open>The command queue\<close>

record command_queue =
  cq_pending :: "uuid \<rightharpoonup> envelope list"
  cq_results :: "action_result list"

definition queue_default :: command_queue where
  "queue_default = \<lparr>cq_pending = Map.empty, cq_results = []\<rparr>"

definition enqueue :: "envelope \<Rightarrow> command_queue \<Rightarrow> command_queue" where
  "enqueue e q =
     (let a = agent_uuid (env_agent_id e);
          old = (case cq_pending q a of None \<Rightarrow> [] | Some es \<Rightarrow> es)
      in q\<lparr>cq_pending := (cq_pending q)(a \<mapsto> old @ [e])\<rparr>)"

definition take_for :: "uuid \<Rightarrow> command_queue \<Rightarrow> envelope list \<times> command_queue" where
  "take_for a q =
     (case cq_pending q a of
        Some es \<Rightarrow> (es, q\<lparr>cq_pending := (cq_pending q)(a \<mapsto> [])\<rparr>)
      | None \<Rightarrow> ([], q))"

definition queue_record_result :: "action_result \<Rightarrow> command_queue \<Rightarrow> command_queue" where
  "queue_record_result r q = q\<lparr>cq_results := cq_results q @ [r]\<rparr>"

definition queued_for :: "command_queue \<Rightarrow> uuid \<Rightarrow> envelope list" where
  "queued_for q a = (case cq_pending q a of None \<Rightarrow> [] | Some es \<Rightarrow> es)"

section \<open>The channel contract\<close>

datatype channel_op = Enqueue envelope | Take uuid

text \<open>Running operations: the batches handed out, each with the agent that pulled it.\<close>

fun channel_run ::
  "(envelope \<Rightarrow> 'q \<Rightarrow> 'q) \<Rightarrow> (uuid \<Rightarrow> 'q \<Rightarrow> envelope list \<times> 'q) \<Rightarrow> channel_op list \<Rightarrow> 'q
     \<Rightarrow> (uuid \<times> envelope) list \<times> 'q" where
  "channel_run enq pull [] q = ([], q)"
| "channel_run enq pull (Enqueue e # ops) q = channel_run enq pull ops (enq e q)"
| "channel_run enq pull (Take a # ops) q =
     (let (es, q1) = pull a q; (ds, q2) = channel_run enq pull ops q1 in (map (Pair a) es @ ds, q2))"

fun enqueued :: "channel_op list \<Rightarrow> envelope list" where
  "enqueued [] = []"
| "enqueued (Enqueue e # ops) = e # enqueued ops"
| "enqueued (Take a # ops) = enqueued ops"

definition for_agent :: "uuid \<Rightarrow> envelope list \<Rightarrow> envelope list" where
  "for_agent a = filter (\<lambda>e. agent_uuid (env_agent_id e) = a)"

definition pulled_by :: "uuid \<Rightarrow> (uuid \<times> envelope) list \<Rightarrow> envelope list" where
  "pulled_by a ds = map snd (filter (\<lambda>d. fst d = a) ds)"

locale command_channel =
  fixes enq :: "envelope \<Rightarrow> 'q \<Rightarrow> 'q" and pull :: "uuid \<Rightarrow> 'q \<Rightarrow> envelope list \<times> 'q"
    and waiting :: "'q \<Rightarrow> uuid \<Rightarrow> envelope list"
  assumes waiting_enq: "waiting (enq e q) a = waiting q a @ for_agent a [e]"
    and take_waiting: "fst (pull b q) = waiting q b"
    and waiting_take: "waiting (snd (pull b q)) a = (if a = b then [] else waiting q a)"
begin

lemma pulled_by_pairs: "pulled_by a (map (Pair b) es @ ds) = (if a = b then es else []) @ pulled_by a ds"
  by (simp add: pulled_by_def comp_def)

lemma delivered_in_order:
  "channel_run enq pull ops q = (ds, q') \<Longrightarrow>
     pulled_by a ds @ waiting q' a = waiting q a @ for_agent a (enqueued ops)"
proof (induction ops arbitrary: q ds)
  case Nil
  then show ?case by (simp add: pulled_by_def for_agent_def)
next
  case (Cons op ops)
  show ?case
  proof (cases op)
    case (Enqueue e)
    with Cons show ?thesis by (auto simp: waiting_enq for_agent_def)
  next
    case (Take b)
    obtain es q1 where t: "pull b q = (es, q1)" by fastforce
    obtain ds1 where r: "channel_run enq pull ops q1 = (ds1, q')" and ds: "ds = map (Pair b) es @ ds1"
      using Cons.prems t Take by (auto split: prod.splits)
    have "es = waiting q b" "waiting q1 a = (if a = b then [] else waiting q a)"
      using take_waiting [of b q] waiting_take [of b q a] t by simp_all
    with Cons.IH [OF r] ds Take show ?thesis by (simp add: pulled_by_pairs split: if_splits)
  qed
qed

lemma delivered_to_target:
  assumes "channel_run enq pull ops q = (ds, q')" "\<And>a. waiting q a = []" "(a, e) \<in> set ds"
  shows "agent_uuid (env_agent_id e) = a" and "e \<in> set (enqueued ops)"
proof -
  have "e \<in> set (pulled_by a ds)" using assms(3) by (force simp: pulled_by_def)
  then have "e \<in> set (for_agent a (enqueued ops))"
    using delivered_in_order [OF assms(1), of a] assms(2) by (metis Un_iff append_Nil set_append)
  then show "agent_uuid (env_agent_id e) = a" "e \<in> set (enqueued ops)" by (simp_all add: for_agent_def)
qed

end

interpretation queue: command_channel enqueue take_for queued_for
  by unfold_locales
    (auto simp: enqueue_def take_for_def queued_for_def for_agent_def Let_def split: option.splits)

section \<open>Library facts about the signer\<close>

lemma insert_previous_ok:
  assumes "insert_previous C fs ring = Inr ring'" "keyring_ok ring" "keyring_filed C ring"
  shows "keyring_ok ring'" "keyring_filed C ring'"
proof -
  have "keyring_ok ring' \<and> keyring_filed C ring'"
    using assms by (induction C fs ring rule: insert_previous.induct) (auto split: sum.splits intro: wf_intros)
  then show "keyring_ok ring'" "keyring_filed C ring'" by simp_all
qed

lemma insert_previous_get:
  assumes "insert_previous C fs ring = Inr ring'" "keyring_ok ring" "keyring_get ring kid = Some k"
    and "\<And>f b k'. (f, b) \<in> set fs \<Longrightarrow> verifying_key_from_b64 C b = Inr k' \<Longrightarrow> key_id C k' = kid \<Longrightarrow> k' = k"
  shows "keyring_get ring' kid = Some k"
  using assms
proof (induction C fs ring rule: insert_previous.induct)
  case (1 C ring)
  then show ?case by simp
next
  case (2 C nm b64 rest ring)
  from 2(2) obtain prev where prev: "verifying_key_from_b64 C b64 = Inr prev"
    and rest: "insert_previous C rest (snd (keyring_insert C prev ring)) = Inr ring'"
    by (auto split: sum.splits)
  have "keyring_get (snd (keyring_insert C prev ring)) kid = Some k"
    using 2(4) 2(5) [of nm b64 prev] prev by (simp add: keyring_get_insert [OF 2(3)])
  then show ?case
    using 2(1) [OF prev rest keyring_ok_insert(1) [OF 2(3)]] 2(5) by (meson list.set_intros(2))
qed

lemma insert_previous_present:
  assumes "insert_previous C fs ring = Inr ring'" "keyring_ok ring" "(f, b) \<in> set fs"
    and "verifying_key_from_b64 C b = Inr k"
    and "\<And>f b k'. (f, b) \<in> set fs \<Longrightarrow> verifying_key_from_b64 C b = Inr k' \<Longrightarrow> key_id C k' = key_id C k \<Longrightarrow> k' = k"
  shows "keyring_get ring' (key_id C k) = Some k"
  using assms
proof (induction C fs ring rule: insert_previous.induct)
  case (1 C ring)
  then show ?case by simp
next
  case (2 C nm b64 rest ring)
  from 2(2) obtain prev where prev: "verifying_key_from_b64 C b64 = Inr prev"
    and rest: "insert_previous C rest (snd (keyring_insert C prev ring)) = Inr ring'"
    by (auto split: sum.splits)
  note ok = keyring_ok_insert(1) [OF 2(3)]
  show ?case
  proof (cases "(f, b) \<in> set rest")
    case True
    then show ?thesis using 2(1) [OF prev rest ok True 2(5)] 2(6) by (meson list.set_intros(2))
  next
    case False
    with 2(4,5) prev have "prev = k" by simp
    then have "keyring_get (snd (keyring_insert C prev ring)) (key_id C k) = Some k"
      by (simp add: keyring_get_insert [OF 2(3)])
    from insert_previous_get [OF rest ok this] 2(6) show ?thesis by (meson list.set_intros(2))
  qed
qed

lemma load_signerE:
  assumes "load_or_generate_with_previous S C fresh loc prev = Inr s"
  obtains written fs ring where
    "load_signing_key C fresh loc = Inr (cs_key s, written)"
    "(case prev of None \<Rightarrow> Inr [] | Some dir \<Rightarrow> read_previous_pubkeys dir) = Inr fs"
    "insert_previous C fs (keyring_single C (verifying_key C (cs_key s))) = Inr ring"
    "cs_keyring_json s =
       keyring_to_json S C (snd (keyring_set_default (key_id C (verifying_key C (cs_key s))) ring))"
    "cs_pubkey_b64 s = verifying_key_to_b64 C (verifying_key C (cs_key s))"
  using assms unfolding load_or_generate_with_previous_def Let_def
  by (auto split: sum.splits prod.splits)

lemma set_default_present:
  "keyring_get r kid = Some k \<Longrightarrow>
     kr_default_kid (snd (keyring_set_default kid r)) = Some kid
     \<and> keyring_default_key (snd (keyring_set_default kid r)) = Some k"
  by (simp add: keyring_set_default_def keyring_default_key_def keyring_get_def)

section \<open>Properties\<close>

lemma published_ring:
  assumes "serde_ok S" "crypto_ok C"
    and load: "load_or_generate_with_previous S C fresh loc prev = Inr s"
    and files: "(case prev of None \<Rightarrow> Inr [] | Some dir \<Rightarrow> read_previous_pubkeys dir) = Inr fs"
    and ids: "\<And>f b k. (f, b) \<in> set fs \<Longrightarrow> verifying_key_from_b64 C b = Inr k
       \<Longrightarrow> key_id C k = key_id C (verifying_key C (cs_key s)) \<Longrightarrow> k = verifying_key C (cs_key s)"
  obtains ring where "keyring_from_json S C (cs_keyring_json s) = Inr ring" "keyring_ok ring"
    "keyring_default_key ring = Some (verifying_key C (cs_key s))"
    "keyring_get ring (key_id C (verifying_key C (cs_key s))) = Some (verifying_key C (cs_key s))"
proof -
  let ?k = "verifying_key C (cs_key s)"
  from load_signerE [OF load] files obtain ring where ring:
      "insert_previous C fs (keyring_single C ?k) = Inr ring"
      "cs_keyring_json s = keyring_to_json S C (snd (keyring_set_default (key_id C ?k) ring))"
    by (metis sum.inject(2))
  let ?ring = "snd (keyring_set_default (key_id C ?k) ring)"
  have get: "keyring_get ring (key_id C ?k) = Some ?k"
    by (rule insert_previous_get [OF ring(1)]) (use ids in \<open>auto simp: keyring_get_single wf_intros\<close>)
  have ok: "keyring_ok ?ring"
    using insert_previous_ok [OF ring(1)] by (auto intro: wf_intros)
  moreover have "keyring_from_json S C (cs_keyring_json s) = Inr ?ring"
    unfolding ring(2) by (rule keyring_json_roundtrip [OF assms(1,2) ok])
  moreover have "keyring_get ?ring (key_id C ?k) = Some ?k" by (simp add: get)
  ultimately show thesis using that set_default_present [OF get] by blast
qed

text \<open>
  What the control plane publishes verifies what it signs. If start-up succeeds and no previous
  key shares the active key's id without being that key, then reading the published keyring
  document gives a well-formed ring whose default is the active key, in which every envelope the
  signer signs is authentic until it expires, whatever its contents.
\<close>

theorem published_keyring_verifies:
  assumes "serde_ok S" "crypto_ok C"
    and load: "load_or_generate_with_previous S C fresh loc prev = Inr s"
    and files: "(case prev of None \<Rightarrow> Inr [] | Some dir \<Rightarrow> read_previous_pubkeys dir) = Inr fs"
    and ids: "\<And>f b k. (f, b) \<in> set fs \<Longrightarrow> verifying_key_from_b64 C b = Inr k
       \<Longrightarrow> key_id C k = key_id C (verifying_key C (cs_key s)) \<Longrightarrow> k = verifying_key C (cs_key s)"
  shows "\<exists>ring. keyring_from_json S C (cs_keyring_json s) = Inr ring \<and> keyring_ok ring
     \<and> keyring_default_key ring = Some (verifying_key C (cs_key s))
     \<and> (\<forall>e now. now \<le> env_expires_at e \<longrightarrow> authentic S C ring (signer_sign S C s e) now)"
proof -
  obtain ring where ring: "keyring_from_json S C (cs_keyring_json s) = Inr ring" "keyring_ok ring"
    "keyring_default_key ring = Some (verifying_key C (cs_key s))"
    "keyring_get ring (key_id C (verifying_key C (cs_key s))) = Some (verifying_key C (cs_key s))"
    by (rule published_ring [OF assms])
  have "authentic S C ring (signer_sign S C s e) now" if "now \<le> env_expires_at e" for e now
    unfolding signer_sign_def by (rule sign_envelope_authentic [OF assms(2) ring(4) that])
  with ring show ?thesis by blast
qed

theorem published_keyring_verifies_witness:
  "\<exists>s ring. load_or_generate_with_previous demo_serde demo_crypto True NoKeyPath
       (Some (Some (Some [\<lparr>de_name = ''old'', de_is_file = Some True,
          de_contents = Some (verifying_key_to_b64 demo_crypto False)\<rparr>]))) = Inr s
     \<and> keyring_from_json demo_serde demo_crypto (cs_keyring_json s) = Inr ring
     \<and> authentic demo_serde demo_crypto ring (signer_sign demo_serde demo_crypto s demo_envelope) 100"
proof -
  let ?prev = "Some (Some (Some [\<lparr>de_name = ''old'', de_is_file = Some True,
          de_contents = Some (verifying_key_to_b64 demo_crypto False)\<rparr>]))"
  have vk: "verifying_key demo_crypto b = b" for b by (simp add: demo_crypto_def)
  note rt = verifying_key_b64_roundtrip [OF demo_crypto_ok]
  have files: "(case ?prev of None \<Rightarrow> Inr [] | Some dir \<Rightarrow> read_previous_pubkeys dir)
      = (Inr [(''old'', verifying_key_to_b64 demo_crypto False)] :: signer_error + _)"
    by (simp add: read_previous_pubkeys_def)
  obtain s where s: "load_or_generate_with_previous demo_serde demo_crypto True NoKeyPath ?prev = Inr s"
    using files by (auto simp: load_or_generate_with_previous_def load_signing_key_def rt Let_def)
  then have key: "cs_key s = True"
    by (auto elim!: load_signerE simp: load_signing_key_def)
  have "k = verifying_key demo_crypto (cs_key s)"
    if "(f, b) \<in> set [(''old'', verifying_key_to_b64 demo_crypto False)]"
      "verifying_key_from_b64 demo_crypto b = Inr k"
      "key_id demo_crypto k = key_id demo_crypto (verifying_key demo_crypto (cs_key s))" for f b k
    using that demo_key_ids by (auto simp: rt vk key)
  from published_keyring_verifies [OF demo_serde_ok demo_crypto_ok s files this] s show ?thesis
    by (fastforce simp: demo_envelope_def)
qed

text \<open>
  A restart keeps the signing key. The text that start-up writes for a newly generated key is
  read back as that key, so the same public key and the same ring are published again.
\<close>

theorem signing_key_survives_restart:
  assumes "crypto_ok C" and "load_signing_key C fresh (KeyFileAbsent True) = Inr (k, Some text)"
  shows "load_signing_key C other (KeyFile (Some text)) = Inr (k, None)
     \<and> load_or_generate_with_previous S C other (KeyFile (Some text)) prev
         = load_or_generate_with_previous S C fresh (KeyFileAbsent True) prev"
proof -
  from assms(2) have k: "k = fresh" and written: "text = signing_key_to_b64 C fresh"
    by (auto simp: load_signing_key_def persist_key_def)
  have "signing_key_from_b64 C text = Inr fresh"
    using crypto_okD [OF assms(1)] by (simp add: written signing_key_from_b64_def signing_key_to_b64_def)
  with assms(2) k show ?thesis by (simp add: load_signing_key_def load_or_generate_with_previous_def)
qed

theorem signing_key_survives_restart_witness:
  "load_signing_key demo_crypto False (KeyFile (Some (signing_key_to_b64 demo_crypto True))) = Inr (True, None)"
  using signing_key_survives_restart [OF demo_crypto_ok, of True True "signing_key_to_b64 demo_crypto True" False]
  by (simp add: load_signing_key_def persist_key_def)

text \<open>
  C28: the queue delivers every command to its agent once and in order. Over any interleaving of
  enqueues and pulls on an empty queue, what an agent has pulled followed by what still waits for
  it is exactly the sequence of commands enqueued for it, and nothing pulled by an agent is
  addressed to another.
\<close>

theorem queue_delivers_in_order:
  assumes "channel_run enqueue take_for ops queue_default = (ds, q)"
  shows "pulled_by a ds @ queued_for q a = for_agent a (enqueued ops)
     \<and> (\<forall>b e. (b, e) \<in> set ds \<longrightarrow> agent_uuid (env_agent_id e) = b)"
proof -
  have "queued_for queue_default b = []" for b by (simp add: queued_for_def queue_default_def)
  with queue.delivered_in_order [OF assms, of a] queue.delivered_to_target [OF assms] show ?thesis by simp
qed

theorem queue_delivers_in_order_witness:
  "pulled_by 1 (fst (channel_run enqueue take_for [Enqueue demo_envelope, Take 1, Take 1] queue_default))
     = [demo_envelope]"
proof -
  let ?r = "channel_run enqueue take_for [Enqueue demo_envelope, Take 1, Take 1] queue_default"
  have "queued_for (snd ?r) 1 = []"
    by (simp add: enqueue_def take_for_def queued_for_def queue_default_def demo_envelope_def Let_def)
  moreover have "for_agent 1 (enqueued [Enqueue demo_envelope, Take 1, Take 1]) = [demo_envelope]"
    by (simp add: for_agent_def demo_envelope_def)
  ultimately show ?thesis
    using queue_delivers_in_order [of "[Enqueue demo_envelope, Take 1, Take 1]" "fst ?r" "snd ?r" 1] by simp
qed

end
