(* ===== verification/Remediation_Store.thy ===== *)
theory Remediation_Store
  imports Crypto_Props
begin

text \<open>
  The audit trail of remediations: the rows of \<open>remediation_records\<close> with the queries of
  \<^verbatim>\<open>crates/ravn-server/src/db.rs\<close>, and \<open>RemediationStore\<close> of
  \<^verbatim>\<open>crates/ravn-server/src/remediation.rs\<close> with its cache of pending keys. A table is the list
  of its rows in insertion order; a JSON column holds the value that was serialized into it. Every
  database call may fail: the store's operations take, per call, whether the database answers
  (\<open>True\<close>) or not, and a call that fails changes nothing.
\<close>

section \<open>Rows\<close>

record remediation_row =
  row_proposal_id :: uuid
  row_created_at :: datetime
  row_proposal :: proposal
  row_decision_state :: string
  row_decision :: decision
  row_command_id :: "uuid option"
  row_signature :: "string option"
  row_result :: "action_result option"
  row_fault_signature :: string
  row_updated_at :: datetime

definition into_record :: "remediation_row \<Rightarrow> remediation_record" where
  "into_record r =
     \<lparr>rr_proposal = row_proposal r, rr_decision = row_decision r, rr_command_id = row_command_id r,
      rr_signature = row_signature r, rr_result = row_result r, rr_updated_at = row_updated_at r\<rparr>"

fun decision_state_tag :: "decision \<Rightarrow> string" where
  "decision_state_tag Pending = ''pending''"
| "decision_state_tag (Approved _) = ''approved''"
| "decision_state_tag (RejectedBy _ _ _) = ''rejected''"

text \<open>The primary key is \<open>(proposal_id, proposal_created_at)\<close>; a conflict is ignored.\<close>

definition insert_row :: "remediation_row \<Rightarrow> remediation_row list \<Rightarrow> remediation_row list" where
  "insert_row r rows =
     (if \<exists>x\<in>set rows. row_proposal_id x = row_proposal_id r \<and> row_created_at x = row_created_at r
      then rows else rows @ [r])"

definition db_insert_remediation ::
  "datetime \<Rightarrow> proposal \<Rightarrow> string \<Rightarrow> remediation_row list \<Rightarrow> remediation_row list" where
  "db_insert_remediation now p fault rows =
     insert_row
       \<lparr>row_proposal_id = pr_id p, row_created_at = pr_created_at p, row_proposal = p,
        row_decision_state = ''pending'', row_decision = Pending, row_command_id = None,
        row_signature = None, row_result = None, row_fault_signature = fault, row_updated_at = now\<rparr> rows"

definition db_insert_auto_approved ::
  "datetime \<Rightarrow> proposal \<Rightarrow> decision \<Rightarrow> uuid \<Rightarrow> string option \<Rightarrow> string \<Rightarrow> remediation_row list
     \<Rightarrow> remediation_row list" where
  "db_insert_auto_approved now p d cid sg fault rows =
     insert_row
       \<lparr>row_proposal_id = pr_id p, row_created_at = pr_created_at p, row_proposal = p,
        row_decision_state = decision_state_tag d, row_decision = d, row_command_id = Some cid,
        row_signature = sg, row_result = None, row_fault_signature = fault, row_updated_at = now\<rparr> rows"

text \<open>\<open>UPDATE .. SET .. WHERE ..\<close>, and whether any row was affected.\<close>

definition update_where ::
  "('r \<Rightarrow> bool) \<Rightarrow> ('r \<Rightarrow> 'r) \<Rightarrow> 'r list \<Rightarrow> bool \<times> 'r list" where
  "update_where P f rows = (\<exists>r\<in>set rows. P r, map (\<lambda>r. if P r then f r else r) rows)"

definition db_approve_remediation ::
  "datetime \<Rightarrow> uuid \<Rightarrow> decision \<Rightarrow> uuid \<Rightarrow> string option \<Rightarrow> remediation_row list
     \<Rightarrow> bool \<times> remediation_row list" where
  "db_approve_remediation now pid d cid sg rows =
     update_where (\<lambda>r. row_proposal_id r = pid \<and> row_decision_state r = ''pending'')
       (\<lambda>r. r\<lparr>row_decision_state := decision_state_tag d, row_decision := d, row_command_id := Some cid,
              row_signature := sg, row_updated_at := now\<rparr>) rows"

definition db_reject_remediation ::
  "datetime \<Rightarrow> uuid \<Rightarrow> decision \<Rightarrow> remediation_row list \<Rightarrow> bool \<times> remediation_row list" where
  "db_reject_remediation now pid d rows =
     update_where (\<lambda>r. row_proposal_id r = pid)
       (\<lambda>r. r\<lparr>row_decision_state := decision_state_tag d, row_decision := d, row_updated_at := now\<rparr>) rows"

definition db_record_result ::
  "datetime \<Rightarrow> action_result \<Rightarrow> remediation_row list
     \<Rightarrow> (remediation_record \<times> string) option \<times> remediation_row list" where
  "db_record_result now res rows =
     (let rows' = snd (update_where (\<lambda>r. row_command_id r = Some (res_command_id res))
                        (\<lambda>r. r\<lparr>row_result := Some res, row_updated_at := now\<rparr>) rows)
      in (map_option (\<lambda>r. (into_record r, row_fault_signature r))
            (find (\<lambda>r. row_command_id r = Some (res_command_id res)) rows'), rows'))"

text \<open>Newest first; rows created at the same instant keep their insertion order here.\<close>

definition list_remediation_records :: "remediation_row list \<Rightarrow> remediation_record list" where
  "list_remediation_records rows = map into_record (sort_key (\<lambda>r. - row_created_at r) rows)"

definition pending_remediation_proposal :: "uuid \<Rightarrow> remediation_row list \<Rightarrow> proposal option" where
  "pending_remediation_proposal pid rows =
     map_option row_proposal
       (find (\<lambda>r. row_proposal_id r = pid \<and> row_decision_state r = ''pending'') rows)"

section \<open>The store\<close>

type_synonym dedup_key = "string \<times> uuid \<times> string"

definition params_json :: "(string, string) btree \<Rightarrow> json" where
  "params_json ps = JObj (map (\<lambda>(k, v). (k, JStr v)) ps)"

definition dedup_key_of :: "serde \<Rightarrow> proposal \<Rightarrow> dedup_key" where
  "dedup_key_of S p = (pr_template_id p, agent_uuid (pr_agent_id p), sd_to_string S (params_json (pr_params p)))"

record remediation_store =
  st_rows :: "remediation_row list"
  st_pending_keys :: "dedup_key set"

definition store_new :: "serde \<Rightarrow> remediation_row list \<Rightarrow> remediation_store" where
  "store_new S rows =
     \<lparr>st_rows = rows,
      st_pending_keys = set (map (\<lambda>r. dedup_key_of S (rr_proposal r))
        (filter (\<lambda>r. rr_decision r = Pending) (list_remediation_records rows)))\<rparr>"

text \<open>
  \<open>insert\<close> in the two parts its \<open>await\<close> separates: the check of the cache, and the insert with
  the cache update once the database has answered.
\<close>

definition store_is_duplicate :: "serde \<Rightarrow> proposal \<Rightarrow> remediation_store \<Rightarrow> bool" where
  "store_is_duplicate S p st \<longleftrightarrow> dedup_key_of S p \<in> st_pending_keys st"

definition store_insert_commit ::
  "serde \<Rightarrow> bool \<Rightarrow> datetime \<Rightarrow> proposal \<Rightarrow> string \<Rightarrow> remediation_store \<Rightarrow> uuid option \<times> remediation_store" where
  "store_insert_commit S db now p fault st =
     (if db
      then (Some (pr_id p),
            st\<lparr>st_rows := db_insert_remediation now p fault (st_rows st),
               st_pending_keys := insert (dedup_key_of S p) (st_pending_keys st)\<rparr>)
      else (None, st))"

definition store_insert ::
  "serde \<Rightarrow> bool \<Rightarrow> datetime \<Rightarrow> proposal \<Rightarrow> string \<Rightarrow> remediation_store \<Rightarrow> uuid option \<times> remediation_store" where
  "store_insert S db now p fault st =
     (if store_is_duplicate S p st then (None, st) else store_insert_commit S db now p fault st)"

definition store_insert_auto_approved ::
  "serde \<Rightarrow> bool \<Rightarrow> datetime \<Rightarrow> proposal \<Rightarrow> uuid \<Rightarrow> string option \<Rightarrow> string \<Rightarrow> remediation_store
     \<Rightarrow> uuid option \<times> remediation_store" where
  "store_insert_auto_approved S db now p cid sg fault st =
     (if store_is_duplicate S p st then (None, st)
      else if db
      then (Some (pr_id p),
            st\<lparr>st_rows := db_insert_auto_approved now p (Approved PolicyAuto) cid sg fault (st_rows st)\<rparr>)
      else (None, st))"

definition store_pending_proposal :: "bool \<Rightarrow> uuid \<Rightarrow> remediation_store \<Rightarrow> proposal option" where
  "store_pending_proposal db pid st =
     (if db then pending_remediation_proposal pid (st_rows st) else None)"

text \<open>The key to evict, captured before the transition (\<open>None\<close> too when that lookup fails).\<close>

definition evict :: "serde \<Rightarrow> proposal option \<Rightarrow> dedup_key set \<Rightarrow> dedup_key set" where
  "evict S captured keys = (case captured of None \<Rightarrow> keys | Some p \<Rightarrow> keys - {dedup_key_of S p})"

definition store_approve ::
  "serde \<Rightarrow> bool \<Rightarrow> bool \<Rightarrow> datetime \<Rightarrow> uuid \<Rightarrow> approval_ref \<Rightarrow> uuid \<Rightarrow> string option \<Rightarrow> remediation_store
     \<Rightarrow> bool \<times> remediation_store" where
  "store_approve S lookup db now pid by cid sg st =
     (let captured = store_pending_proposal lookup pid st
      in if db
         then case db_approve_remediation now pid (Approved by) cid sg (st_rows st) of (found, rows) \<Rightarrow>
                (found, st\<lparr>st_rows := rows,
                  st_pending_keys := (if found then evict S captured (st_pending_keys st) else st_pending_keys st)\<rparr>)
         else (False, st))"

definition store_reject ::
  "serde \<Rightarrow> bool \<Rightarrow> bool \<Rightarrow> datetime \<Rightarrow> uuid \<Rightarrow> string \<Rightarrow> datetime \<Rightarrow> string option \<Rightarrow> remediation_store
     \<Rightarrow> bool \<times> remediation_store" where
  "store_reject S lookup db now pid by at reason st =
     (let captured = store_pending_proposal lookup pid st
      in if db
         then case db_reject_remediation now pid (RejectedBy by at reason) (st_rows st) of (found, rows) \<Rightarrow>
                (found, st\<lparr>st_rows := rows,
                  st_pending_keys := (if found then evict S captured (st_pending_keys st) else st_pending_keys st)\<rparr>)
         else (False, st))"

definition store_record_result ::
  "bool \<Rightarrow> datetime \<Rightarrow> action_result \<Rightarrow> remediation_store
     \<Rightarrow> (remediation_record \<times> string) option \<times> remediation_store" where
  "store_record_result db now res st =
     (if db
      then case db_record_result now res (st_rows st) of (out, rows) \<Rightarrow> (out, st\<lparr>st_rows := rows\<rparr>)
      else (None, st))"

definition store_list :: "bool \<Rightarrow> remediation_store \<Rightarrow> remediation_record list" where
  "store_list db st = (if db then list_remediation_records (st_rows st) else [])"

section \<open>Well-formed rows\<close>

text \<open>
  The denormalized columns agree with the JSON ones, ids are unique, and only a row that was
  approved at some point carries a command.
\<close>

definition row_ok :: "remediation_row \<Rightarrow> bool" where
  "row_ok r \<longleftrightarrow>
     row_decision_state r = decision_state_tag (row_decision r)
     \<and> row_proposal_id r = pr_id (row_proposal r) \<and> row_created_at r = pr_created_at (row_proposal r)
     \<and> (row_decision r = Pending \<longrightarrow> row_command_id r = None \<and> row_result r = None)
     \<and> (\<forall>by. row_decision r = Approved by \<longrightarrow> row_command_id r \<noteq> None)
     \<and> (\<forall>res. row_result r = Some res \<longrightarrow> row_command_id r = Some (res_command_id res))"

definition rows_ok :: "remediation_row list \<Rightarrow> bool" where
  "rows_ok rows \<longleftrightarrow> (\<forall>r\<in>set rows. row_ok r) \<and> distinct (map row_proposal_id rows)"

definition pending_rows :: "remediation_row list \<Rightarrow> remediation_row list" where
  "pending_rows rows = filter (\<lambda>r. row_decision r = Pending) rows"

definition pending_keys_of :: "serde \<Rightarrow> remediation_row list \<Rightarrow> dedup_key list" where
  "pending_keys_of S rows = map (\<lambda>r. dedup_key_of S (row_proposal r)) (pending_rows rows)"

text \<open>
  The store invariant: sound rows, at most one pending row per key, and every pending row's key in
  the cache. The cache is exact when it holds nothing else.
\<close>

definition store_ok :: "serde \<Rightarrow> remediation_store \<Rightarrow> bool" where
  "store_ok S st \<longleftrightarrow> rows_ok (st_rows st) \<and> distinct (pending_keys_of S (st_rows st))
     \<and> set (pending_keys_of S (st_rows st)) \<subseteq> st_pending_keys st"

definition cache_exact :: "serde \<Rightarrow> remediation_store \<Rightarrow> bool" where
  "cache_exact S st \<longleftrightarrow> st_pending_keys st = set (pending_keys_of S (st_rows st))"

lemma tag_pending [simp]: "decision_state_tag d = ''pending'' \<longleftrightarrow> d = Pending"
  by (cases d) auto

lemma row_ok_pending: "row_ok r \<Longrightarrow> row_decision_state r = ''pending'' \<longleftrightarrow> row_decision r = Pending"
  by (simp add: row_ok_def)

section \<open>Updates keep rows well formed\<close>

lemma update_where_rows:
  "snd (update_where P f rows) = map (\<lambda>r. if P r then f r else r) rows"
  "fst (update_where P f rows) \<longleftrightarrow> (\<exists>r\<in>set rows. P r)"
  by (simp_all add: update_where_def)

lemma update_where_ok:
  assumes "rows_ok rows" "\<And>r. P r \<Longrightarrow> row_ok r \<Longrightarrow> row_ok (f r) \<and> row_proposal_id (f r) = row_proposal_id r"
  shows "rows_ok (snd (update_where P f rows))"
proof -
  have "map row_proposal_id (map (\<lambda>r. if P r then f r else r) rows) = map row_proposal_id rows"
    using assms by (auto simp: rows_ok_def)
  with assms show ?thesis by (auto simp: rows_ok_def update_where_rows simp del: map_map)
qed

lemma insert_row_fresh:
  "row_proposal_id r \<notin> row_proposal_id ` set rows \<Longrightarrow> insert_row r rows = rows @ [r]"
  by (auto simp: insert_row_def image_iff)

lemma insert_row_ok: "rows_ok rows \<Longrightarrow> row_ok r \<Longrightarrow> row_proposal_id r \<notin> row_proposal_id ` set rows
    \<Longrightarrow> rows_ok (insert_row r rows)"
  by (auto simp: rows_ok_def insert_row_fresh)

lemma pending_rows_append: "pending_rows (a @ b) = pending_rows a @ pending_rows b"
  by (simp add: pending_rows_def)

text \<open>A decision on one id takes that id's row, and no other, out of the pending rows.\<close>

lemma pending_rows_decided:
  assumes "rows_ok rows" "\<And>r. row_ok r \<Longrightarrow> row_decision r = Pending \<Longrightarrow> P r \<longleftrightarrow> row_proposal_id r = pid"
    and "\<And>r. P r \<Longrightarrow> row_decision (f r) \<noteq> Pending"
  shows "pending_rows (snd (update_where P f rows)) = filter (\<lambda>r. row_proposal_id r \<noteq> pid) (pending_rows rows)"
proof -
  have "\<forall>r\<in>set rows. row_ok r" using assms(1) by (simp add: rows_ok_def)
  then show ?thesis
    unfolding update_where_rows pending_rows_def
  proof (induction rows)
    case Nil
    then show ?case by simp
  next
    case (Cons r rows)
    then have IH: "filter (\<lambda>r. row_decision r = Pending) (map (\<lambda>r. if P r then f r else r) rows) =
        filter (\<lambda>r. row_proposal_id r \<noteq> pid) (filter (\<lambda>r. row_decision r = Pending) rows)" by simp
    from Cons.prems have "row_ok r" by simp
    with assms(2) [of r] assms(3) [of r] IH show ?case
      by (cases "P r"; cases "row_decision r = Pending") simp_all
  qed
qed

lemma db_approve_pending:
  "rows_ok rows \<Longrightarrow> pending_rows (snd (db_approve_remediation now pid (Approved by) cid sg rows)) =
     filter (\<lambda>r. row_proposal_id r \<noteq> pid) (pending_rows rows)"
  unfolding db_approve_remediation_def by (rule pending_rows_decided) (auto simp: row_ok_pending)

lemma db_reject_pending:
  "rows_ok rows \<Longrightarrow> pending_rows (snd (db_reject_remediation now pid (RejectedBy by at reason) rows)) =
     filter (\<lambda>r. row_proposal_id r \<noteq> pid) (pending_rows rows)"
  unfolding db_reject_remediation_def by (rule pending_rows_decided) auto

lemma db_approve_ok: "rows_ok rows \<Longrightarrow> rows_ok (snd (db_approve_remediation now pid (Approved by) cid sg rows))"
  unfolding db_approve_remediation_def
proof (erule update_where_ok)
  fix r
  assume "row_proposal_id r = pid \<and> row_decision_state r = ''pending''" "row_ok r"
  then have "row_decision r = Pending" "row_result r = None" "row_ok r"
    by (auto simp: row_ok_pending) (simp add: row_ok_def)
  then show "row_ok (r\<lparr>row_decision_state := decision_state_tag (Approved by), row_decision := Approved by,
        row_command_id := Some cid, row_signature := sg, row_updated_at := now\<rparr>)
      \<and> row_proposal_id (r\<lparr>row_decision_state := decision_state_tag (Approved by), row_decision := Approved by,
        row_command_id := Some cid, row_signature := sg, row_updated_at := now\<rparr>) = row_proposal_id r"
    by (simp add: row_ok_def)
qed

lemma db_reject_ok: "rows_ok rows \<Longrightarrow> rows_ok (snd (db_reject_remediation now pid (RejectedBy by at reason) rows))"
  unfolding db_reject_remediation_def by (erule update_where_ok) (auto simp: row_ok_def)

lemma db_record_ok:
  assumes "rows_ok rows"
  shows "rows_ok (snd (db_record_result now res rows))"
    and "pending_rows (snd (db_record_result now res rows)) = pending_rows rows"
proof -
  let ?P = "\<lambda>r. row_command_id r = Some (res_command_id res)"
  let ?f = "\<lambda>r. r\<lparr>row_result := Some res, row_updated_at := now\<rparr>"
  have eq: "snd (db_record_result now res rows) = snd (update_where ?P ?f rows)"
    by (simp add: db_record_result_def Let_def)
  show "rows_ok (snd (db_record_result now res rows))"
    unfolding eq using assms by (rule update_where_ok) (auto simp: row_ok_def)
  have "\<forall>r\<in>set rows. row_ok r" using assms by (simp add: rows_ok_def)
  then show "pending_rows (snd (db_record_result now res rows)) = pending_rows rows"
    unfolding eq update_where_rows pending_rows_def by (induction rows) (auto simp: row_ok_def)
qed

lemma pending_lookup:
  assumes "rows_ok rows"
  shows "pending_remediation_proposal pid rows =
     map_option row_proposal (find (\<lambda>r. row_proposal_id r = pid) (pending_rows rows))"
proof -
  have "\<forall>r\<in>set rows. row_ok r" using assms by (simp add: rows_ok_def)
  then have "find (\<lambda>r. row_proposal_id r = pid \<and> row_decision_state r = ''pending'') rows
      = find (\<lambda>r. row_proposal_id r = pid) (filter (\<lambda>r. row_decision r = Pending) rows)"
    by (induction rows) (auto simp: row_ok_pending)
  then show ?thesis by (simp add: pending_remediation_proposal_def pending_rows_def)
qed

lemma find_SomeD: "find P xs = Some x \<Longrightarrow> x \<in> set xs \<and> P x"
  by (induction xs) (auto split: if_splits)

lemma filter_unique_id:
  "distinct (map f xs) \<Longrightarrow> x \<in> set xs \<Longrightarrow> set (filter (\<lambda>y. f y \<noteq> f x) xs) = set xs - {x}"
  by (auto simp: distinct_map inj_on_def)

text \<open>The keys that stay pending after a decision, against the cache after the eviction.\<close>

lemma evict_ok:
  assumes "store_ok S st" and captured: "captured = store_pending_proposal lookup pid st"
  defines "rest \<equiv> map (\<lambda>r. dedup_key_of S (row_proposal r))
      (filter (\<lambda>r. row_proposal_id r \<noteq> pid) (pending_rows (st_rows st)))"
  shows "distinct rest" and "set rest \<subseteq> evict S captured (st_pending_keys st)"
    and "lookup \<Longrightarrow> cache_exact S st \<Longrightarrow> evict S captured (st_pending_keys st) = set rest"
proof -
  let ?key = "\<lambda>r. dedup_key_of S (row_proposal r)"
  let ?p = "pending_rows (st_rows st)"
  have rows: "rows_ok (st_rows st)" and keys: "distinct (map ?key ?p)" "?key ` set ?p \<subseteq> st_pending_keys st"
    using assms(1) by (auto simp: store_ok_def pending_keys_of_def)
  have ids: "distinct (map row_proposal_id ?p)"
    using rows by (auto simp: rows_ok_def pending_rows_def distinct_map inj_on_def)
  show "distinct rest" using keys(1) by (auto simp: rest_def distinct_map inj_on_def)
  have split: "?key ` (set ?p - {r}) = ?key ` set ?p - {?key r}" if "r \<in> set ?p" for r
    using keys(1) that by (auto simp: distinct_map inj_on_def)
  have cap: "captured = (if lookup then map_option row_proposal (find (\<lambda>r. row_proposal_id r = pid) ?p) else None)"
    using captured pending_lookup [OF rows] by (simp add: store_pending_proposal_def)
  have "set rest \<subseteq> evict S captured (st_pending_keys st)
      \<and> (lookup \<longrightarrow> cache_exact S st \<longrightarrow> evict S captured (st_pending_keys st) = set rest)"
  proof (cases "find (\<lambda>r. row_proposal_id r = pid) ?p")
    case None
    then have "filter (\<lambda>r. row_proposal_id r \<noteq> pid) ?p = ?p" by (auto simp: find_None_iff filter_id_conv)
    with keys(2) cap None show ?thesis
      by (auto simp: rest_def evict_def cache_exact_def pending_keys_of_def)
  next
    case (Some r)
    then have r: "r \<in> set ?p" "row_proposal_id r = pid" by (auto dest: find_SomeD)
    then have "set rest = ?key ` set ?p - {?key r}"
      using filter_unique_id [OF ids r(1)] split [OF r(1)] by (simp add: rest_def)
    with keys(2) cap Some show ?thesis
      by (auto simp: evict_def cache_exact_def pending_keys_of_def)
  qed
  then show "set rest \<subseteq> evict S captured (st_pending_keys st)"
    and "lookup \<Longrightarrow> cache_exact S st \<Longrightarrow> evict S captured (st_pending_keys st) = set rest" by blast+
qed

section \<open>Every operation keeps the store\<close>

definition fresh_proposal :: "proposal \<Rightarrow> remediation_store \<Rightarrow> bool" where
  "fresh_proposal p st \<longleftrightarrow> pr_id p \<notin> row_proposal_id ` set (st_rows st)"

lemma pending_keys_append: "pending_keys_of S (a @ b) = pending_keys_of S a @ pending_keys_of S b"
  by (simp add: pending_keys_of_def pending_rows_append)

lemma store_insert_ok:
  assumes "store_ok S st" "fresh_proposal p st"
  shows "store_ok S (snd (store_insert S db now p fault st))"
    and "cache_exact S st \<Longrightarrow> cache_exact S (snd (store_insert S db now p fault st))"
proof -
  let ?r = "\<lparr>row_proposal_id = pr_id p, row_created_at = pr_created_at p, row_proposal = p,
        row_decision_state = ''pending'', row_decision = Pending, row_command_id = None,
        row_signature = None, row_result = None, row_fault_signature = fault, row_updated_at = now\<rparr>"
  have rows: "db_insert_remediation now p fault (st_rows st) = st_rows st @ [?r]"
    using assms(2) by (simp add: db_insert_remediation_def insert_row_fresh fresh_proposal_def)
  moreover have "rows_ok (st_rows st @ [?r])"
    using assms by (auto simp: rows_ok_def store_ok_def fresh_proposal_def row_ok_def)
  moreover have "pending_keys_of S [?r] = [dedup_key_of S p]"
    by (simp add: pending_keys_of_def pending_rows_def)
  ultimately show "store_ok S (snd (store_insert S db now p fault st))"
    and "cache_exact S st \<Longrightarrow> cache_exact S (snd (store_insert S db now p fault st))"
    using assms(1)
    by (auto simp: store_insert_def store_insert_commit_def store_is_duplicate_def store_ok_def
        pending_keys_append cache_exact_def)
qed

lemma store_insert_auto_ok:
  assumes "store_ok S st" "fresh_proposal p st"
  shows "store_ok S (snd (store_insert_auto_approved S db now p cid sg fault st))"
    and "cache_exact S st \<Longrightarrow> cache_exact S (snd (store_insert_auto_approved S db now p cid sg fault st))"
proof -
  let ?r = "\<lparr>row_proposal_id = pr_id p, row_created_at = pr_created_at p, row_proposal = p,
        row_decision_state = ''approved'', row_decision = Approved PolicyAuto, row_command_id = Some cid,
        row_signature = sg, row_result = None, row_fault_signature = fault, row_updated_at = now\<rparr>"
  have rows: "db_insert_auto_approved now p (Approved PolicyAuto) cid sg fault (st_rows st) = st_rows st @ [?r]"
    using assms(2) by (simp add: db_insert_auto_approved_def insert_row_fresh fresh_proposal_def)
  moreover have "rows_ok (st_rows st @ [?r])"
    using assms by (auto simp: rows_ok_def store_ok_def fresh_proposal_def row_ok_def)
  moreover have "pending_keys_of S [?r] = []" by (simp add: pending_keys_of_def pending_rows_def)
  ultimately show "store_ok S (snd (store_insert_auto_approved S db now p cid sg fault st))"
    and "cache_exact S st \<Longrightarrow> cache_exact S (snd (store_insert_auto_approved S db now p cid sg fault st))"
    using assms(1)
    by (auto simp: store_insert_auto_approved_def store_ok_def pending_keys_append cache_exact_def)
qed

lemma no_pending_found:
  assumes "rows_ok rows" "\<not> fst (db_approve_remediation now pid (Approved by) cid sg rows)"
  shows "filter (\<lambda>r. row_proposal_id r \<noteq> pid) (pending_rows rows) = pending_rows rows"
  using assms by (auto simp: db_approve_remediation_def update_where_rows rows_ok_def row_ok_pending
      pending_rows_def intro!: filter_cong)

lemma no_row_found:
  assumes "\<not> fst (db_reject_remediation now pid d rows)"
  shows "filter (\<lambda>r. row_proposal_id r \<noteq> pid) (pending_rows rows) = pending_rows rows"
  using assms by (auto simp: db_reject_remediation_def update_where_rows pending_rows_def intro!: filter_cong)

lemma store_decided_ok:
  fixes lookup :: bool
  assumes st: "store_ok S st" and rows: "rows_ok rows"
    and pend: "pending_rows rows = filter (\<lambda>r. row_proposal_id r \<noteq> pid) (pending_rows (st_rows st))"
    and none: "\<not> found \<Longrightarrow> filter (\<lambda>r. row_proposal_id r \<noteq> pid) (pending_rows (st_rows st)) = pending_rows (st_rows st)"
  defines "st' \<equiv> st\<lparr>st_rows := rows, st_pending_keys :=
      (if found then evict S (store_pending_proposal lookup pid st) (st_pending_keys st) else st_pending_keys st)\<rparr>"
  shows "store_ok S st'" and "lookup \<Longrightarrow> cache_exact S st \<Longrightarrow> cache_exact S st'"
proof -
  note ev1 = evict_ok(1) [OF st refl, where pid = pid]
    and ev2 = evict_ok(2) [OF st refl, where lookup = lookup and pid = pid]
    and ev3 = evict_ok(3) [OF st refl, where lookup = lookup and pid = pid]
  have keys: "pending_keys_of S rows = map (\<lambda>r. dedup_key_of S (row_proposal r))
      (filter (\<lambda>r. row_proposal_id r \<noteq> pid) (pending_rows (st_rows st)))"
    by (simp add: pending_keys_of_def pend)
  show "store_ok S st'"
    using ev1 ev2 rows st none by (auto simp: st'_def store_ok_def keys) (auto simp: pending_keys_of_def)
  show "cache_exact S st'" if "lookup" "cache_exact S st"
  proof (cases found)
    case True
    with ev3 that show ?thesis by (simp add: st'_def cache_exact_def keys)
  next
    case False
    from none [OF False] that(2) show ?thesis
      unfolding cache_exact_def st'_def by (simp add: False pending_keys_of_def pend)
  qed
qed

lemma store_approve_ok:
  assumes "store_ok S st"
  shows "store_ok S (snd (store_approve S lookup db now pid by cid sg st))"
    and "lookup \<Longrightarrow> cache_exact S st \<Longrightarrow> cache_exact S (snd (store_approve S lookup db now pid by cid sg st))"
proof -
  have ok: "rows_ok (st_rows st)" using assms by (simp add: store_ok_def)
  obtain found rows where q: "db_approve_remediation now pid (Approved by) cid sg (st_rows st) = (found, rows)"
    by fastforce
  note step = store_decided_ok [OF assms, of rows pid found lookup]
  show "store_ok S (snd (store_approve S lookup db now pid by cid sg st))"
    using step(1) db_approve_ok [OF ok, of now pid "by" cid sg] db_approve_pending [OF ok, of now pid "by" cid sg]
      no_pending_found [OF ok, of now pid "by" cid sg] q assms
    by (auto simp: store_approve_def Let_def)
  show "lookup \<Longrightarrow> cache_exact S st \<Longrightarrow> cache_exact S (snd (store_approve S lookup db now pid by cid sg st))"
    using step(2) db_approve_ok [OF ok, of now pid "by" cid sg] db_approve_pending [OF ok, of now pid "by" cid sg]
      no_pending_found [OF ok, of now pid "by" cid sg] q assms
    by (auto simp: store_approve_def Let_def)
qed

lemma store_reject_ok:
  assumes "store_ok S st"
  shows "store_ok S (snd (store_reject S lookup db now pid by at reason st))"
    and "lookup \<Longrightarrow> cache_exact S st \<Longrightarrow> cache_exact S (snd (store_reject S lookup db now pid by at reason st))"
proof -
  have ok: "rows_ok (st_rows st)" using assms by (simp add: store_ok_def)
  obtain found rows where q: "db_reject_remediation now pid (RejectedBy by at reason) (st_rows st) = (found, rows)"
    by fastforce
  note step = store_decided_ok [OF assms, of rows pid found lookup]
  show "store_ok S (snd (store_reject S lookup db now pid by at reason st))"
    using step(1) db_reject_ok [OF ok, of now pid "by" "at" reason] db_reject_pending [OF ok, of now pid "by" "at" reason]
      no_row_found [of now pid "RejectedBy by at reason" "st_rows st"] q assms
    by (auto simp: store_reject_def Let_def)
  show "lookup \<Longrightarrow> cache_exact S st \<Longrightarrow> cache_exact S (snd (store_reject S lookup db now pid by at reason st))"
    using step(2) db_reject_ok [OF ok, of now pid "by" "at" reason] db_reject_pending [OF ok, of now pid "by" "at" reason]
      no_row_found [of now pid "RejectedBy by at reason" "st_rows st"] q assms
    by (auto simp: store_reject_def Let_def)
qed

lemma store_record_ok:
  assumes "store_ok S st"
  shows "store_ok S (snd (store_record_result db now res st))"
    and "cache_exact S st \<Longrightarrow> cache_exact S (snd (store_record_result db now res st))"
proof -
  have "rows_ok (st_rows st)" using assms by (simp add: store_ok_def)
  note rec = db_record_ok [OF this, of now res]
  obtain out rows where q: "db_record_result now res (st_rows st) = (out, rows)" by fastforce
  show "store_ok S (snd (store_record_result db now res st))"
    using rec q assms by (auto simp: store_record_result_def store_ok_def pending_keys_of_def)
  show "cache_exact S st \<Longrightarrow> cache_exact S (snd (store_record_result db now res st))"
    using rec q by (auto simp: store_record_result_def cache_exact_def pending_keys_of_def)
qed

lemma store_new_ok:
  assumes "rows_ok rows" "distinct (pending_keys_of S rows)"
  shows "store_ok S (store_new S rows)" and "cache_exact S (store_new S rows)"
proof -
  have "cache_exact S (store_new S rows)"
    by (force simp: cache_exact_def store_new_def pending_keys_of_def pending_rows_def
        list_remediation_records_def into_record_def)
  then show "cache_exact S (store_new S rows)" "store_ok S (store_new S rows)"
    using assms by (auto simp: store_ok_def cache_exact_def) (simp_all add: store_new_def)
qed

section \<open>The life of a store\<close>

text \<open>
  Operations one after the other, with any database failures, new proposals under unused ids, and
  restarts that rebuild the cache from the rows.
\<close>

inductive store_step :: "serde \<Rightarrow> remediation_store \<Rightarrow> remediation_store \<Rightarrow> bool" for S :: serde where
  insert: "fresh_proposal p st \<Longrightarrow> store_step S st (snd (store_insert S db now p fault st))"
| auto_approved: "fresh_proposal p st \<Longrightarrow>
     store_step S st (snd (store_insert_auto_approved S db now p cid sg fault st))"
| approve: "store_step S st (snd (store_approve S lookup db now pid by cid sg st))"
| reject: "store_step S st (snd (store_reject S lookup db now pid by at reason st))"
| result: "store_step S st (snd (store_record_result db now res st))"
| restart: "store_step S st (store_new S (st_rows st))"

lemma store_step_ok: "store_ok S st \<Longrightarrow> store_step S st st' \<Longrightarrow> store_ok S st'"
  by (erule store_step.cases)
    (auto intro: store_insert_ok store_insert_auto_ok store_approve_ok store_reject_ok store_record_ok
      store_new_ok simp: store_ok_def [of S st])

interpretation store: transition_invariant "\<lambda>st. st = store_new S []" "store_step S" "store_ok S" for S
proof unfold_locales
  fix st
  assume "st = store_new S []"
  then show "store_ok S st"
    using store_new_ok(1) [of "[]" S] by (simp add: rows_ok_def pending_keys_of_def pending_rows_def)
qed (rule store_step_ok)

section \<open>Properties\<close>

definition demo_proposal :: "uuid \<Rightarrow> proposal" where
  "demo_proposal i =
     \<lparr>pr_id = i, pr_event_id = 1, pr_agent_id = AgentId 1, pr_host = ''h'', pr_template_id = ''t'',
      pr_template_version = 1, pr_risk_tier = Safe, pr_params = [(''unit'', ''nginx'')], pr_rationale = [],
      pr_created_at = 0\<rparr>"



text \<open>
  The cache suppresses exactly the duplicates. In a sound store with an exact cache, every
  operation whose pending lookup is answered keeps the cache exact, and a new proposal is refused
  as a duplicate precisely when a pending row for the same template, agent and parameters exists.
\<close>

theorem store_cache_exact:
  assumes "serde_ok S" "store_ok S st" "cache_exact S st" "fresh_proposal p st"
  shows "cache_exact S (snd (store_insert S db now p fault st))
     \<and> cache_exact S (snd (store_insert_auto_approved S db now p cid sg fault st))
     \<and> cache_exact S (snd (store_approve S True db now pid by cid sg st))
     \<and> cache_exact S (snd (store_reject S True db now pid user at reason st))
     \<and> cache_exact S (snd (store_record_result db now res st))
     \<and> (store_is_duplicate S p st \<longleftrightarrow>
          (\<exists>r\<in>set (st_rows st). row_decision r = Pending
             \<and> pr_template_id (row_proposal r) = pr_template_id p
             \<and> pr_agent_id (row_proposal r) = pr_agent_id p
             \<and> pr_params (row_proposal r) = pr_params p))"
proof -
  have inj: "params_json a = params_json b \<longleftrightarrow> a = b" for a b
  proof -
    have "inj (\<lambda>(k :: string, v). (k, JStr v))" by (rule injI) (auto split: prod.splits)
    then show ?thesis by (simp add: params_json_def inj_map_eq_map)
  qed
  have "dedup_key_of S q = dedup_key_of S p \<longleftrightarrow> pr_template_id q = pr_template_id p
      \<and> pr_agent_id q = pr_agent_id p \<and> pr_params q = pr_params p" for q
    using serde_okD(1) [OF assms(1)] inj
    by (cases "pr_agent_id q"; cases "pr_agent_id p") (auto simp: dedup_key_of_def inj_def)
  then have "store_is_duplicate S p st \<longleftrightarrow> (\<exists>r\<in>set (st_rows st). row_decision r = Pending
             \<and> pr_template_id (row_proposal r) = pr_template_id p
             \<and> pr_agent_id (row_proposal r) = pr_agent_id p
             \<and> pr_params (row_proposal r) = pr_params p)"
    using assms(3) unfolding store_is_duplicate_def cache_exact_def pending_keys_of_def pending_rows_def
    by (simp add: image_iff) (metis (no_types, lifting))
  then show ?thesis
    using store_insert_ok(2) [OF assms(2,4,3)] store_insert_auto_ok(2) [OF assms(2,4,3)]
      store_approve_ok(2) [OF assms(2) TrueI assms(3)] store_reject_ok(2) [OF assms(2) TrueI assms(3)]
      store_record_ok(2) [OF assms(2,3)] by (intro conjI) simp_all
qed

theorem store_cache_exact_witness:
  "cache_exact demo_serde (snd (store_insert demo_serde True 0 (demo_proposal 1) [] (store_new demo_serde [])))"
proof -
  have "store_ok demo_serde (store_new demo_serde [])" "cache_exact demo_serde (store_new demo_serde [])"
    by (rule store_new_ok; simp add: rows_ok_def pending_keys_of_def pending_rows_def)+
  moreover have "fresh_proposal (demo_proposal 1) (store_new demo_serde [])"
    by (simp add: fresh_proposal_def store_new_def)
  ultimately show ?thesis using store_cache_exact [OF demo_serde_ok] by blast
qed

text \<open>
  Approval decides pending rows only, and once. When the database answers, \<open>approve\<close> reports
  success exactly if the proposal is pending; then that row becomes approved with the command's id
  and signature, and every other row is unchanged; a row that is already decided is never altered.
\<close>

theorem store_approve_correct:
  assumes "store_ok S st" "store_approve S lookup True now pid by cid sg st = (found, st')"
  shows "(found \<longleftrightarrow> (\<exists>r\<in>set (st_rows st). row_proposal_id r = pid \<and> row_decision r = Pending))
     \<and> st_rows st' = map (\<lambda>r. if row_proposal_id r = pid \<and> row_decision r = Pending
          then r\<lparr>row_decision_state := ''approved'', row_decision := Approved by, row_command_id := Some cid,
                 row_signature := sg, row_updated_at := now\<rparr> else r) (st_rows st)
     \<and> pending_remediation_proposal pid (st_rows st') = None"
proof -
  have ok: "rows_ok (st_rows st)" and rows: "\<forall>r\<in>set (st_rows st). row_ok r"
    using assms(1) by (auto simp: store_ok_def rows_ok_def)
  have st': "st_rows st' = snd (db_approve_remediation now pid (Approved by) cid sg (st_rows st))"
    and found: "found = fst (db_approve_remediation now pid (Approved by) cid sg (st_rows st))"
    using assms(2) by (auto simp: store_approve_def Let_def split: prod.splits)
  have "pending_remediation_proposal pid (st_rows st') = None"
    unfolding st' pending_lookup [OF db_approve_ok [OF ok]] db_approve_pending [OF ok]
    by (simp add: find_None_iff)
  with rows show ?thesis
    unfolding st' found by (auto simp: db_approve_remediation_def update_where_rows row_ok_pending)
qed

theorem store_approve_correct_witness:
  "let st = snd (store_insert demo_serde True 0 (demo_proposal 1) [] (store_new demo_serde []))
   in fst (store_approve demo_serde True True 5 1 PolicyAuto 9 None st)
      \<and> pending_remediation_proposal 1 (st_rows (snd (store_approve demo_serde True True 5 1 PolicyAuto 9 None st))) = None"
proof -
  define st where "st = snd (store_insert demo_serde True 0 (demo_proposal 1) [] (store_new demo_serde []))"
  have new: "store_ok demo_serde (store_new demo_serde [])"
    by (rule store_new_ok) (simp_all add: rows_ok_def pending_keys_of_def pending_rows_def)
  have ok: "store_ok demo_serde st"
    unfolding st_def by (rule store_insert_ok [OF new]) (simp add: fresh_proposal_def store_new_def)
  have rows: "\<exists>r\<in>set (st_rows st). row_proposal_id r = 1 \<and> row_decision r = Pending"
    by (simp add: st_def store_insert_def store_insert_commit_def store_is_duplicate_def store_new_def
        db_insert_remediation_def insert_row_def demo_proposal_def list_remediation_records_def)
  obtain found st' where ap: "store_approve demo_serde True True 5 1 PolicyAuto 9 None st = (found, st')" by fastforce
  have "found" "pending_remediation_proposal 1 (st_rows st') = None"
    using store_approve_correct [OF ok ap] rows by blast+
  with ap show ?thesis unfolding st_def [symmetric] Let_def by simp
qed

text \<open>
  Rejection is not limited to pending rows. Rejecting the id of a record that was approved, and
  even executed, turns its decision into a rejection while its command id, signature and result
  stay: the trail then shows a rejected proposal with an executed command.
\<close>

theorem store_reject_overwrites:
  assumes "r \<in> set (st_rows st)" "row_decision r = Approved by"
    and "store_reject S lookup True now (row_proposal_id r) user at reason st = (found, st')"
  shows "found \<and> (\<exists>r'\<in>set (st_rows st'). row_decision r' = RejectedBy user at reason
     \<and> row_proposal r' = row_proposal r \<and> row_command_id r' = row_command_id r
     \<and> row_signature r' = row_signature r \<and> row_result r' = row_result r)"
proof -
  let ?f = "\<lambda>r. r\<lparr>row_decision_state := ''rejected'', row_decision := RejectedBy user at reason, row_updated_at := now\<rparr>"
  have "found" and "?f r \<in> set (st_rows st')"
    using assms(1,3) by (auto simp: store_reject_def db_reject_remediation_def update_where_def Let_def)
  then show ?thesis by (intro conjI bexI [of _ "?f r"]) simp_all
qed

theorem store_reject_overwrites_witness:
  "let st = snd (store_insert_auto_approved demo_serde True 0 (demo_proposal 1) 9 None [] (store_new demo_serde []))
   in fst (store_reject demo_serde True True 7 1 ''admin'' 7 None st)
      \<and> (\<exists>r\<in>set (st_rows (snd (store_reject demo_serde True True 7 1 ''admin'' 7 None st))).
            row_decision r = RejectedBy ''admin'' 7 None \<and> row_command_id r = Some 9)"
proof -
  define st where "st = snd (store_insert_auto_approved demo_serde True 0 (demo_proposal 1) 9 None [] (store_new demo_serde []))"
  obtain r where r: "r \<in> set (st_rows st)" "row_decision r = Approved PolicyAuto" "row_proposal_id r = 1"
      "row_command_id r = Some 9"
    by (simp add: st_def store_insert_auto_approved_def store_is_duplicate_def store_new_def
        db_insert_auto_approved_def insert_row_def demo_proposal_def list_remediation_records_def)
  obtain found st' where rj: "store_reject demo_serde True True 7 1 ''admin'' 7 None st = (found, st')" by fastforce
  then have "store_reject demo_serde True True 7 (row_proposal_id r) ''admin'' 7 None st = (found, st')"
    using r(3) by simp
  from store_reject_overwrites [OF r(1,2) this] r(4) rj show ?thesis
    unfolding st_def [symmetric] Let_def by auto
qed

text \<open>
  The duplicate check and the insert are separated by a database call. Two tasks that both
  check before either inserts create two pending rows for the same fault, which no sequential run
  does.
\<close>

theorem dedup_check_race:
  assumes "\<not> store_is_duplicate S p st" "\<not> store_is_duplicate S q st"
    and "dedup_key_of S p = dedup_key_of S q" "pr_id p \<noteq> pr_id q" "fresh_proposal p st" "fresh_proposal q st"
  shows "\<not> distinct (pending_keys_of S (st_rows
     (snd (store_insert_commit S True now q fault (snd (store_insert_commit S True now p fault st))))))
     \<and> fst (store_insert S True now q fault (snd (store_insert S True now p fault st))) = None"
proof -
  let ?row = "\<lambda>p. \<lparr>row_proposal_id = pr_id p, row_created_at = pr_created_at p, row_proposal = p,
        row_decision_state = ''pending'', row_decision = Pending, row_command_id = None,
        row_signature = None, row_result = None, row_fault_signature = fault, row_updated_at = now\<rparr>"
  have "st_rows (snd (store_insert_commit S True now q fault (snd (store_insert_commit S True now p fault st))))
      = st_rows st @ [?row p, ?row q]"
    using assms(4-6)
    by (simp add: store_insert_commit_def db_insert_remediation_def insert_row_fresh fresh_proposal_def)
  moreover have "pending_keys_of S [?row p, ?row q] = [dedup_key_of S p, dedup_key_of S q]"
    by (simp add: pending_keys_of_def pending_rows_def)
  ultimately show ?thesis
    using assms by (simp add: pending_keys_append store_insert_def store_insert_commit_def store_is_duplicate_def)
qed

theorem dedup_check_race_witness:
  "\<not> distinct (pending_keys_of demo_serde (st_rows
     (snd (store_insert_commit demo_serde True 0 (demo_proposal 2) []
       (snd (store_insert_commit demo_serde True 0 (demo_proposal 1) [] (store_new demo_serde [])))))))"
  using dedup_check_race [of demo_serde "demo_proposal 1" "store_new demo_serde []" "demo_proposal 2" 0 "[]"]
  by (simp add: store_is_duplicate_def store_new_def fresh_proposal_def list_remediation_records_def)
    (simp add: demo_proposal_def dedup_key_of_def)

end
