(* ===== verification/Text.thy ===== *)
theory Text
  imports Prelude
begin

text \<open>
  More of Rust's standard library on text, for the components that read and write it: decimal
  numbers, prefixes and suffixes, words, characters as groups of UTF-8 bytes, and the boundaries at
  which a string may be sliced.
\<close>

section \<open>Numbers and affixes\<close>

text \<open>Decimal numbers: \<open>to_string\<close> and \<open>parse\<close> of \<open>u64\<close> and \<open>i64\<close>.\<close>

fun show_nat :: "nat \<Rightarrow> string" where
  "show_nat n = (if n < 10 then [char_of (48 + n)] else show_nat (n div 10) @ [char_of (48 + n mod 10)])"

declare show_nat.simps [simp del]

definition show_int :: "int \<Rightarrow> string" where
  "show_int i = (if i < 0 then CHR ''-'' # show_nat (nat (- i)) else show_nat (nat i))"

definition digit_value :: "char \<Rightarrow> nat" where
  "digit_value c = of_char c - 48"

definition read_digits :: "string \<Rightarrow> nat option" where
  "read_digits s =
     (if s \<noteq> [] \<and> list_all is_digit s then Some (foldl (\<lambda>n c. 10 * n + digit_value c) 0 s) else None)"

definition parse_u64 :: "string \<Rightarrow> u64 option" where
  "parse_u64 s =
     (case read_digits (case s of c # cs \<Rightarrow> if c = CHR ''+'' then cs else s | [] \<Rightarrow> s) of
        None \<Rightarrow> None
      | Some n \<Rightarrow> if n < 2 ^ 64 then Some (word_of_nat n) else None)"

definition parse_i64 :: "string \<Rightarrow> int option" where
  "parse_i64 s =
     (let neg = (s \<noteq> [] \<and> hd s = CHR ''-'');
          ds = (if s \<noteq> [] \<and> (hd s = CHR ''-'' \<or> hd s = CHR ''+'') then tl s else s)
      in case read_digits ds of
           None \<Rightarrow> None
         | Some n \<Rightarrow>
             let i = (if neg then - int n else int n)
             in if - (2 ^ 63) \<le> i \<and> i < 2 ^ 63 then Some i else None)"

text \<open>\<open>strip_prefix\<close>, \<open>split_once\<close> and the \<open>trim_matches\<close> family.\<close>

definition strip_prefix :: "string \<Rightarrow> string \<Rightarrow> string option" where
  "strip_prefix p s = (if prefix p s then Some (drop (length p) s) else None)"

definition split_once :: "string \<Rightarrow> string \<Rightarrow> (string \<times> string) option" where
  "split_once pat s = map_option (\<lambda>i. (take i s, drop (i + length pat) s)) (str_find pat s)"

definition trim_start_matches :: "char \<Rightarrow> string \<Rightarrow> string" where
  "trim_start_matches c s = dropWhile (\<lambda>x. x = c) s"

definition trim_end_matches :: "char \<Rightarrow> string \<Rightarrow> string" where
  "trim_end_matches c s = rev (dropWhile (\<lambda>x. x = c) (rev s))"

definition trim_matches :: "char \<Rightarrow> string \<Rightarrow> string" where
  "trim_matches c s = trim_end_matches c (trim_start_matches c s)"

text \<open>\<open>parse::<u8>\<close>.\<close>

definition parse_u8 :: "string \<Rightarrow> u8 option" where
  "parse_u8 s =
     (case read_digits (case s of c # cs \<Rightarrow> if c = CHR ''+'' then cs else s | [] \<Rightarrow> s) of
        None \<Rightarrow> None
      | Some n \<Rightarrow> if n < 256 then Some (word_of_nat n) else None)"

definition strip_suffix :: "string \<Rightarrow> string \<Rightarrow> string option" where
  "strip_suffix p s = (if suffix p s then Some (take (length s - length p) s) else None)"

definition contains :: "string \<Rightarrow> string \<Rightarrow> bool" where
  "contains s pat \<longleftrightarrow> str_find pat s \<noteq> None"

lemma contains_iff: "contains s pat \<longleftrightarrow> sublist pat s"
  by (simp add: contains_def str_find_None_iff)

text \<open>\<open>trim_end_matches\<close> with several characters.\<close>

definition trim_end_any :: "char list \<Rightarrow> string \<Rightarrow> string" where
  "trim_end_any cs s = rev (dropWhile (\<lambda>x. x \<in> set cs) (rev s))"

definition to_ascii_lowercase :: "char \<Rightarrow> char" where
  "to_ascii_lowercase c = (if is_upper c then char_of (of_char c + 32 :: nat) else c)"

section \<open>Words\<close>

text \<open>\<open>split_whitespace().next()\<close>: the bytes up to the next white space, after any at the start.\<close>

fun up_to_space :: "string \<Rightarrow> string" where
  "up_to_space [] = []"
| "up_to_space (c # cs) = (if seq_len ws_seqs (c # cs) = 0 then c # up_to_space cs else [])"

definition first_word :: "string \<Rightarrow> string option" where
  "first_word s = (let w = up_to_space (trim_start s) in if w = [] then None else Some w)"

lemma seq_len_plain: "plain_char c \<Longrightarrow> seq_len ws_seqs (c # cs) = 0"
  by (rule seq_len_zero [OF ws_seqs_not_plain(1)]) simp

lemma trim_start_plain: "plain_char c \<Longrightarrow> trim_start (c # cs) = c # cs"
  by (simp add: trim_start_def strip_seqs_id seq_len_plain)

lemma up_to_space_plain:
  assumes "\<forall>c\<in>set w. plain_char c"
  shows "up_to_space (w @ CHR '' '' # s) = w"
  using assms
proof (induction w)
  case Nil
  have "seq_len ws_seqs (CHR '' '' # s) \<noteq> 0" by (simp add: ws_seqs_def)
  then show ?case by simp
next
  case (Cons c w)
  then show ?case using seq_len_plain [of c "w @ CHR '' '' # s"] by simp
qed

lemma first_word_plain:
  assumes "\<forall>c\<in>set w. plain_char c" "w \<noteq> []"
  shows "first_word (w @ CHR '' '' # s) = Some w"
proof -
  obtain c cs where w: "w = c # cs" using assms(2) by (cases w) auto
  with assms(1) have "trim_start (w @ CHR '' '' # s) = w @ CHR '' '' # s" by (simp add: trim_start_plain)
  with up_to_space_plain [OF assms(1)] assms(2) show ?thesis by (simp add: first_word_def)
qed

section \<open>Characters\<close>

text \<open>
  In UTF-8 every byte \<open>0x80\<close> to \<open>0xBF\<close> continues a character, so \<open>chars()\<close> groups a byte that is
  not of that range with the continuation bytes after it.
\<close>

definition is_continuation :: "char \<Rightarrow> bool" where
  "is_continuation c \<longleftrightarrow> CHR 0x80 \<le> c \<and> c \<le> CHR 0xBF"

fun chars :: "string \<Rightarrow> string list" where
  "chars [] = []"
| "chars (c # cs) =
     (case chars cs of
        [] \<Rightarrow> [[c]]
      | g # gs \<Rightarrow> if is_continuation (hd g) then (c # g) # gs else [c] # g # gs)"

lemma chars_nonempty: "g \<in> set (chars s) \<Longrightarrow> g \<noteq> []"
  by (induction s arbitrary: g) (auto split: list.splits if_splits)

lemma concat_chars [simp]: "concat (chars s) = s"
  by (induction s) (auto split: list.splits if_splits)

lemma chars_append:
  assumes "t = [] \<or> \<not> is_continuation (hd t)"
  shows "chars (s @ t) = chars s @ chars t"
proof (induction s)
  case Nil
  then show ?case by simp
next
  case (Cons c cs)
  have hd: "chars t \<noteq> [] \<Longrightarrow> hd (hd (chars t)) = hd t" for t
    by (cases t) (auto split: list.splits if_splits)
  show ?case
  proof (cases "chars cs")
    case Nil
    then have "cs = []" by (metis concat.simps(1) concat_chars)
    with assms hd [of t] show ?thesis by (cases "chars t") auto
  next
    case (Cons g gs)
    with Cons.IH show ?thesis by simp
  qed
qed

text \<open>\<open>is_char_boundary\<close>; slicing elsewhere panics.\<close>

definition is_char_boundary :: "string \<Rightarrow> nat \<Rightarrow> bool" where
  "is_char_boundary s i \<longleftrightarrow> i = length s \<or> i < length s \<and> \<not> is_continuation (s ! i)"

text \<open>\<open>from_utf8\<close>: the well-formed byte sequences of the Unicode standard.\<close>

definition between :: "char \<Rightarrow> nat \<Rightarrow> nat \<Rightarrow> bool" where
  "between c lo hi \<longleftrightarrow> lo \<le> of_char c \<and> of_char c \<le> hi"

fun utf8_valid :: "string \<Rightarrow> bool" where
  "utf8_valid [] = True"
| "utf8_valid (a # s) =
     (if between a 0x00 0x7F then utf8_valid s
      else if between a 0xC2 0xDF then
        (case s of b # s \<Rightarrow> between b 0x80 0xBF \<and> utf8_valid s | _ \<Rightarrow> False)
      else if between a 0xE0 0xEF then
        (case s of b # c # s \<Rightarrow>
             (if between a 0xE0 0xE0 then between b 0xA0 0xBF
              else if between a 0xED 0xED then between b 0x80 0x9F else between b 0x80 0xBF)
             \<and> between c 0x80 0xBF \<and> utf8_valid s
         | _ \<Rightarrow> False)
      else if between a 0xF0 0xF4 then
        (case s of b # c # d # s \<Rightarrow>
             (if between a 0xF0 0xF0 then between b 0x90 0xBF
              else if between a 0xF4 0xF4 then between b 0x80 0x8F else between b 0x80 0xBF)
             \<and> between c 0x80 0xBF \<and> between d 0x80 0xBF \<and> utf8_valid s
         | _ \<Rightarrow> False)
      else False)"

section \<open>Reading back what was printed\<close>

lemma is_digit_char_of: "n < 10 \<Longrightarrow> is_digit (char_of (48 + n :: nat))"
  by (simp add: is_digit_def less_eq_char_def)

lemma digit_value_char_of: "n < 10 \<Longrightarrow> digit_value (char_of (48 + n :: nat)) = n"
  by (simp add: digit_value_def)

lemma show_nat_nonempty [simp]: "show_nat n \<noteq> []"
  by (subst show_nat.simps) simp

lemma show_nat_digits: "c \<in> set (show_nat n) \<Longrightarrow> is_digit c"
proof (induction n rule: show_nat.induct)
  case (1 n)
  then show ?case by (subst (asm) (2) show_nat.simps) (auto split: if_splits intro: is_digit_char_of)
qed

lemma foldl_show_nat: "foldl (\<lambda>n c. 10 * n + digit_value c) 0 (show_nat n) = n"
proof (induction n rule: show_nat.induct)
  case (1 n)
  show ?case
  proof (cases "n < 10")
    case True
    then show ?thesis by (subst show_nat.simps) (simp add: digit_value_char_of)
  next
    case False
    with 1 show ?thesis by (subst show_nat.simps) (simp add: digit_value_char_of)
  qed
qed

lemma read_digits_show_nat [simp]: "read_digits (show_nat n) = Some n"
  by (simp add: read_digits_def foldl_show_nat list_all_iff show_nat_digits)

lemma hd_show_nat: "is_digit (hd (show_nat n))"
  by (rule show_nat_digits [of _ n]) simp

lemma parse_u64_show_nat: "n < 2 ^ 64 \<Longrightarrow> parse_u64 (show_nat n) = Some (word_of_nat n)"
  using hd_show_nat [of n] read_digits_show_nat [of n]
  by (cases "show_nat n") (auto simp: parse_u64_def is_digit_def less_eq_char_def)

lemma parse_u64_show: "parse_u64 (show_nat (unat w)) = Some w"
proof -
  have "unat w < 2 ^ LENGTH(64)" by (rule unsigned_less)
  then have "unat w < 2 ^ 64" by simp
  from parse_u64_show_nat [OF this] show ?thesis by simp
qed

text \<open>Finding a word that ends in a space, word by word.\<close>

lemma prefix_word_space:
  assumes "CHR '' '' \<notin> set p" "CHR '' '' \<notin> set w"
  shows "prefix (p @ '' '') (w @ CHR '' '' # s) \<longleftrightarrow> p = w"
  using assms
proof (induction p arbitrary: w)
  case Nil
  then show ?case by (cases w) auto
next
  case (Cons c p)
  then show ?case by (cases w) auto
qed

lemma str_find_word:
  assumes "CHR '' '' \<notin> set p" "CHR '' '' \<notin> set w"
  shows "str_find (p @ '' '') (w @ CHR '' '' # s) =
     (if suffix p w then Some (length w - length p)
      else map_option (\<lambda>i. Suc (length w) + i) (str_find (p @ '' '') s))"
  using assms(2)
proof (induction w)
  case Nil
  with prefix_word_space [OF assms(1), of "[]" s] show ?case by (auto intro: option.map_cong)
next
  case (Cons c w)
  have pre: "prefix (p @ '' '') ((c # w) @ CHR '' '' # s) \<longleftrightarrow> p = c # w"
    using Cons.prems prefix_word_space [OF assms(1), of "c # w" s] by simp
  show ?case
  proof (cases "p = c # w")
    case True
    with pre show ?thesis by simp
  next
    case False
    with pre Cons show ?thesis
      by (auto simp: suffix_Cons option.map_comp comp_def dest: suffix_length_le)
  qed
qed

end
