(* ===== verification/Knowledge.thy ===== *)
theory Knowledge
  imports Crypto_Props Text "HOL-Library.Signed_Division"
begin

text \<open>
  \<^verbatim>\<open>crates/ravn-server/src/knowledge.rs\<close>: the knowledge base, a directory with one markdown
  file per fault signature. Signatures, file names, the printer and the parser of an entry, recall
  and both ways of recording are modelled on the bytes of the files; RFC 3339 texts are chrono's and
  a parameter. The directory is a map from file names to contents.
\<close>

section \<open>Fault signatures\<close>

fun status_str :: "action_status \<Rightarrow> string" where
  "status_str Succeeded = ''succeeded''"
| "status_str Failed = ''failed''"
| "status_str Rejected = ''rejected''"
| "status_str PreconditionFailed = ''precondition_failed''"
| "status_str Frozen = ''frozen''"

text \<open>\<open>Debug\<close> of \<open>Source\<close>.\<close>

fun source_debug :: "source \<Rightarrow> string" where
  "source_debug SrcJournald = ''Journald''"
| "source_debug SrcFailedUnit = ''FailedUnit''"
| "source_debug SrcConfigDrift = ''ConfigDrift''"
| "source_debug SrcAuth = ''Auth''"
| "source_debug SrcUpdate = ''Update''"
| "source_debug SrcKubeWorkload = ''KubeWorkload''"
| "source_debug SrcKubeNode = ''KubeNode''"
| "source_debug SrcRavnInternal = ''RavnInternal''"

definition unwrap_or_dash :: "string option \<Rightarrow> string" where
  "unwrap_or_dash x = (case x of None \<Rightarrow> ''-'' | Some s \<Rightarrow> s)"

fun signature_parts :: "payload \<Rightarrow> string \<times> string" where
  "signature_parts (FailedUnit p) = (fu_unit p, fu_result p)"
| "signature_parts (Journald p) = (unwrap_or_dash (jd_unit p), ''journal'')"
| "signature_parts (ConfigDrift p) = (cd_path p, ''drift'')"
| "signature_parts (Auth p) = (unwrap_or_dash (au_user p), au_action p)"
| "signature_parts (Update p) = (up_mechanism p, ''update'')"
| "signature_parts (KubeWorkload p) =
     (if kw_namespace p = [] then kw_name p else kw_namespace p @ ''/'' @ kw_name p, kw_reason p)"
| "signature_parts (KubeNode p) = (kn_node p, kn_condition p)"
| "signature_parts (CircuitBreakerTrip p) = (cb_host p, cb_template_id p)"

definition fault_signature :: "event \<Rightarrow> string" where
  "fault_signature e =
     (let (key, state) = signature_parts (ev_payload e)
      in source_debug (event_source e) @ '':'' @ key @ '':'' @ state)"

text \<open>
  \<open>slug\<close>. A character outside ASCII is several bytes here and one \<open>char\<close> in Rust; either way its
  run becomes one dash.
\<close>

definition slug_char :: "char \<Rightarrow> bool" where
  "slug_char c \<longleftrightarrow> is_ascii_alphanumeric c \<or> c = CHR ''.'' \<or> c = CHR ''_''"

fun slug_loop :: "string \<Rightarrow> string \<Rightarrow> bool \<Rightarrow> string" where
  "slug_loop [] out last_dash = out"
| "slug_loop (c # cs) out last_dash =
     (if slug_char c then slug_loop cs (out @ [to_ascii_lowercase c]) False
      else if \<not> last_dash then slug_loop cs (out @ ''-'') True
      else slug_loop cs out last_dash)"

definition slug :: "string \<Rightarrow> string" where
  "slug signature = trim_matches (CHR ''-'') (slug_loop signature [] False)"

section \<open>Entries\<close>

record kb_outcome =
  oc_ts :: datetime
  oc_result :: string
  oc_ttr_s :: "int option"
  oc_approver :: string

record kb_entry =
  en_fault_signature :: string
  en_template_used :: string
  en_params :: "(string, string) btree"
  en_outcomes :: "kb_outcome list"
  en_occurrences :: u64
  en_last_seen :: datetime
  en_body :: string

record rfc3339 =
  rfc_format :: "datetime \<Rightarrow> string"
  rfc_parse :: "string \<Rightarrow> datetime option"

definition newline :: string where
  "newline = [CHR 0x0A]"

definition dquote :: string where
  "dquote = [CHR 0x22]"

definition render_params :: "(string, string) btree \<Rightarrow> string" where
  "render_params ps = join '', '' (map (\<lambda>(k, v). k @ '': '' @ v) ps)"

definition outcome_line :: "rfc3339 \<Rightarrow> kb_outcome \<Rightarrow> string" where
  "outcome_line F oc =
     ''  - { ts: '' @ rfc_format F (oc_ts oc) @ '', result: '' @ oc_result oc @ '', ttr_s: ''
       @ (case oc_ttr_s oc of None \<Rightarrow> ''null'' | Some v \<Rightarrow> show_int v)
       @ '', approver: '' @ dquote @ oc_approver oc @ dquote @ '' }'' @ newline"

definition to_markdown :: "rfc3339 \<Rightarrow> kb_entry \<Rightarrow> string" where
  "to_markdown F e =
     ''---'' @ newline
     @ ''fault_signature: '' @ dquote @ en_fault_signature e @ dquote @ newline
     @ ''template_used: '' @ en_template_used e @ newline
     @ ''params: { '' @ render_params (en_params e) @ '' }'' @ newline
     @ (if en_outcomes e = [] then ''outcomes: []'' @ newline
        else ''outcomes:'' @ newline @ concat (map (outcome_line F) (en_outcomes e)))
     @ ''occurrences: '' @ show_nat (unat (en_occurrences e)) @ newline
     @ ''last_seen: '' @ rfc_format F (en_last_seen e) @ newline
     @ ''---'' @ newline @ en_body e
     @ (if en_body e \<noteq> [] \<and> last (en_body e) = CHR 0x0A then [] else newline)"

definition unquote :: "string \<Rightarrow> string" where
  "unquote s = trim_matches (CHR 0x22) (trim s)"

definition inner_braces :: "string \<Rightarrow> string" where
  "inner_braces raw = trim (trim_end_matches (CHR ''}'') (trim_start_matches (CHR ''{'') (trim raw)))"

definition insert_pair :: "string \<Rightarrow> (string, string) btree \<Rightarrow> (string, string) btree" where
  "insert_pair pair m =
     (case split_once '':'' pair of None \<Rightarrow> m | Some (k, v) \<Rightarrow> btree_insert (trim k) (trim v) m)"

definition parse_params :: "string \<Rightarrow> (string, string) btree" where
  "parse_params raw =
     (let inner = inner_braces raw
      in if inner = [] then [] else fold insert_pair (split_on (CHR '','') inner) [])"

text \<open>The scan of \<open>split_top_level\<close>: the part being read, the depth (an \<open>i32\<close>) and the quote flag.\<close>

fun split_scan :: "string \<Rightarrow> string \<Rightarrow> int \<Rightarrow> bool \<Rightarrow> string list" where
  "split_scan [] cur depth quoted = [cur]"
| "split_scan (c # cs) cur depth quoted =
     (if c = CHR 0x22 then split_scan cs (cur @ [c]) depth (\<not> quoted)
      else if (c = CHR ''{'' \<or> c = CHR ''['') \<and> \<not> quoted then split_scan cs (cur @ [c]) (depth + 1) quoted
      else if (c = CHR ''}'' \<or> c = CHR '']'') \<and> \<not> quoted then split_scan cs (cur @ [c]) (depth - 1) quoted
      else if c = CHR '','' \<and> depth = 0 \<and> \<not> quoted then cur # split_scan cs [] depth quoted
      else split_scan cs (cur @ [c]) depth quoted)"

definition split_top_level :: "string \<Rightarrow> string list" where
  "split_top_level s = split_scan s [] 0 False"

record outcome_fields =
  of_ts :: "datetime option"
  of_result :: "string option"
  of_ttr_s :: "int option"
  of_approver :: string

fun outcome_pairs :: "rfc3339 \<Rightarrow> string list \<Rightarrow> outcome_fields \<Rightarrow> outcome_fields option" where
  "outcome_pairs F [] acc = Some acc"
| "outcome_pairs F (pair # pairs) acc =
     (case split_once '':'' pair of
        None \<Rightarrow> None
      | Some (k0, v0) \<Rightarrow>
          let k = trim k0; v = trim v0
          in outcome_pairs F pairs
               (if k = ''ts'' then acc\<lparr>of_ts := rfc_parse F v\<rparr>
                else if k = ''result'' then acc\<lparr>of_result := Some v\<rparr>
                else if k = ''ttr_s'' then acc\<lparr>of_ttr_s := (if v = ''null'' then None else parse_i64 v)\<rparr>
                else if k = ''approver'' then acc\<lparr>of_approver := unquote v\<rparr>
                else acc))"

definition parse_outcome :: "rfc3339 \<Rightarrow> string \<Rightarrow> kb_outcome option" where
  "parse_outcome F raw =
     (case outcome_pairs F (split_top_level (inner_braces raw))
             \<lparr>of_ts = None, of_result = None, of_ttr_s = None, of_approver = []\<rparr> of
        None \<Rightarrow> None
      | Some f \<Rightarrow>
          (case (of_ts f, of_result f) of
             (Some ts, Some r) \<Rightarrow>
               Some \<lparr>oc_ts = ts, oc_result = r, oc_ttr_s = of_ttr_s f, oc_approver = of_approver f\<rparr>
           | _ \<Rightarrow> None))"

text \<open>
  The line loop of \<open>from_markdown\<close>. Inside the block list (\<open>block\<close>) a line that starts with
  \<open>- \<close> after its indentation is an outcome; any other line leaves the block and is read as a key.
\<close>

definition front_line :: "rfc3339 \<Rightarrow> string \<Rightarrow> kb_entry \<Rightarrow> kb_entry \<times> bool" where
  "front_line F l e =
     (let line = trim_end l
      in case strip_prefix ''fault_signature:'' line of
           Some v \<Rightarrow> (e\<lparr>en_fault_signature := unquote (trim v)\<rparr>, False)
         | None \<Rightarrow> (case strip_prefix ''template_used:'' line of
           Some v \<Rightarrow> (e\<lparr>en_template_used := trim v\<rparr>, False)
         | None \<Rightarrow> (case strip_prefix ''params:'' line of
           Some v \<Rightarrow> (e\<lparr>en_params := parse_params (trim v)\<rparr>, False)
         | None \<Rightarrow> (case strip_prefix ''occurrences:'' line of
           Some v \<Rightarrow> (e\<lparr>en_occurrences := (case parse_u64 (trim v) of None \<Rightarrow> 0 | Some n \<Rightarrow> n)\<rparr>, False)
         | None \<Rightarrow> (case strip_prefix ''last_seen:'' line of
           Some v \<Rightarrow> (case rfc_parse F (trim v) of None \<Rightarrow> (e, False) | Some ts \<Rightarrow> (e\<lparr>en_last_seen := ts\<rparr>, False))
         | None \<Rightarrow> (e, trim line = ''outcomes:''))))))"

fun front_lines :: "rfc3339 \<Rightarrow> string list \<Rightarrow> bool \<Rightarrow> kb_entry \<Rightarrow> kb_entry" where
  "front_lines F [] block e = e"
| "front_lines F (l # ls) block e =
     (case (if block then strip_prefix ''- '' (trim_start l) else None) of
        Some item \<Rightarrow>
          front_lines F ls True
            (case parse_outcome F (trim item) of
               None \<Rightarrow> e
             | Some oc \<Rightarrow> e\<lparr>en_outcomes := en_outcomes e @ [oc]\<rparr>)
      | None \<Rightarrow> (case front_line F l e of (e', b) \<Rightarrow> front_lines F ls b e'))"

datatype entry_error = MissingOpener | MissingCloser

definition from_markdown :: "rfc3339 \<Rightarrow> datetime \<Rightarrow> string \<Rightarrow> entry_error + kb_entry" where
  "from_markdown F now text =
     (case strip_prefix (''---'' @ newline) text of
        None \<Rightarrow> Inl MissingOpener
      | Some rest \<Rightarrow>
          (case split_once (newline @ ''---'' @ newline) rest of
             None \<Rightarrow> Inl MissingCloser
           | Some (front, body) \<Rightarrow>
               Inr (front_lines F (str_lines front) False
                 \<lparr>en_fault_signature = [], en_template_used = [], en_params = [], en_outcomes = [],
                  en_occurrences = 0, en_last_seen = now, en_body = body\<rparr>)))"

section \<open>The knowledge base\<close>

record knowledge_base =
  kb_enabled :: bool
  kb_files :: "string \<rightharpoonup> string"

definition entry_file :: "string \<Rightarrow> string" where
  "entry_file signature = slug signature @ ''.md''"

definition kb_load :: "rfc3339 \<Rightarrow> datetime \<Rightarrow> string \<Rightarrow> knowledge_base \<Rightarrow> kb_entry option" where
  "kb_load F now signature kb =
     (if \<not> kb_enabled kb then None
      else case kb_files kb (entry_file signature) of
             None \<Rightarrow> None
           | Some text \<Rightarrow> (case from_markdown F now text of Inr e \<Rightarrow> Some e | Inl _ \<Rightarrow> None))"

text \<open>Write to a temporary file, then rename: the entry changes whole or (\<open>io\<close> false) not at all.\<close>

definition kb_store :: "rfc3339 \<Rightarrow> bool \<Rightarrow> kb_entry \<Rightarrow> knowledge_base \<Rightarrow> knowledge_base" where
  "kb_store F io e kb =
     (if kb_enabled kb \<and> io
      then kb\<lparr>kb_files := (kb_files kb)(entry_file (en_fault_signature e) \<mapsto> to_markdown F e)\<rparr>
      else kb)"

definition count_succeeded :: "kb_outcome list \<Rightarrow> nat" where
  "count_succeeded ocs = length (filter (\<lambda>oc. oc_result oc = ''succeeded'') ocs)"

text \<open>\<open>i64\<close> sums wrap around; the division truncates toward zero.\<close>

definition average_ttr :: "int list \<Rightarrow> int" where
  "average_ttr ts = signed_take_bit 63 (sum_list ts) sdiv int (length ts)"

definition recall :: "rfc3339 \<Rightarrow> datetime \<Rightarrow> string \<Rightarrow> knowledge_base \<Rightarrow> string option" where
  "recall F now signature kb =
     (case kb_load F now signature kb of
        None \<Rightarrow> None
      | Some e \<Rightarrow>
          if en_template_used e = ''gap'' \<or> en_outcomes e = [] then None
          else let successes = filter (\<lambda>oc. oc_result oc = ''succeeded'') (en_outcomes e)
               in if successes = [] then None
                  else let ttrs = List.map_filter oc_ttr_s successes;
                           avg = (if ttrs = [] then [] else '', avg '' @ show_int (average_ttr ttrs) @ ''s'')
                       in Some (''Recall: last '' @ show_nat (unat (en_occurrences e))
                            @ '' time(s) this fault fired, template '' @ en_template_used e
                            @ '' succeeded '' @ show_nat (length successes) @ ''/''
                            @ show_nat (length (en_outcomes e)) @ avg @ ''.''))"

definition retrospective_body :: "string \<Rightarrow> kb_entry \<Rightarrow> string" where
  "retrospective_body signature e =
     ''# '' @ signature @ newline @ newline @ ''**Reflect:** template `'' @ en_template_used e
       @ ''` has been applied '' @ show_nat (unat (en_occurrences e)) @ '' time(s) to this fault, succeeding ''
       @ show_nat (count_succeeded (en_outcomes e)) @ ''/'' @ show_nat (length (en_outcomes e))
       @ ''. Recurrence may indicate an upstream cause worth a deeper look.'' @ newline"

definition gap_body :: "string \<Rightarrow> event \<Rightarrow> string" where
  "gap_body signature e =
     ''# '' @ signature @ newline @ newline @ ''**Gap:** no remediation template matched this fault on `''
       @ ev_host e @ ''`. Author a template so the control plane can remediate it next time.''
       @ newline @ newline @ ''Event title: '' @ ev_title e @ newline"

definition blank_entry :: "string \<Rightarrow> string \<Rightarrow> (string, string) btree \<Rightarrow> datetime \<Rightarrow> kb_entry" where
  "blank_entry signature template_used ps now =
     \<lparr>en_fault_signature = signature, en_template_used = template_used, en_params = ps, en_outcomes = [],
      en_occurrences = 0, en_last_seen = now, en_body = []\<rparr>"

definition record_outcome ::
  "rfc3339 \<Rightarrow> bool \<Rightarrow> datetime \<Rightarrow> string \<Rightarrow> proposal \<Rightarrow> action_status \<Rightarrow> int option \<Rightarrow> string
     \<Rightarrow> knowledge_base \<Rightarrow> knowledge_base" where
  "record_outcome F io now signature p st ttr approver kb =
     (if \<not> kb_enabled kb then kb
      else
        let template_used = pr_template_id p @ ''@'' @ show_nat (unat (pr_template_version p));
            outcome = \<lparr>oc_ts = now, oc_result = status_str st, oc_ttr_s = ttr, oc_approver = approver\<rparr>;
            e0 = (case kb_load F now signature kb of
                    Some e \<Rightarrow> e
                  | None \<Rightarrow> blank_entry signature template_used (pr_params p) now);
            e1 = e0\<lparr>en_template_used := template_used, en_params := pr_params p,
                    en_outcomes := en_outcomes e0 @ [outcome], en_occurrences := en_occurrences e0 + 1,
                    en_last_seen := now\<rparr>
        in kb_store F io (e1\<lparr>en_body := retrospective_body signature e1\<rparr>) kb)"

definition record_gap :: "rfc3339 \<Rightarrow> bool \<Rightarrow> datetime \<Rightarrow> event \<Rightarrow> knowledge_base \<Rightarrow> knowledge_base" where
  "record_gap F io now ev kb =
     (if \<not> kb_enabled kb then kb
      else
        let signature = fault_signature ev;
            e0 = (case kb_load F now signature kb of
                    Some e \<Rightarrow> e
                  | None \<Rightarrow> blank_entry signature ''gap'' [] now);
            e1 = e0\<lparr>en_template_used := (if en_template_used e0 = [] then ''gap'' else en_template_used e0),
                    en_occurrences := en_occurrences e0 + 1, en_last_seen := now\<rparr>;
            e2 = (if en_body e1 = [] then e1\<lparr>en_body := gap_body signature ev\<rparr> else e1)
        in kb_store F io e2 kb)"

end
