(* ===== verification/Registry.thy ===== *)
theory Registry
  imports Templates
begin

text \<open>
  The first half of \<^verbatim>\<open>crates/ravn-server/src/remediation.rs\<close>: typed access to event fields by
  dotted path, loading and matching of templates, and the resolution of template parameters against
  an event.
\<close>

section \<open>Event fields\<close>

fun severity_str :: "severity \<Rightarrow> string" where
  "severity_str Info = ''info''"
| "severity_str Notice = ''notice''"
| "severity_str Warning = ''warning''"
| "severity_str Error = ''error''"
| "severity_str Critical = ''critical''"

fun payload_kind_str :: "payload \<Rightarrow> string" where
  "payload_kind_str (Journald _) = ''journald''"
| "payload_kind_str (FailedUnit _) = ''failed_unit''"
| "payload_kind_str (ConfigDrift _) = ''config_drift''"
| "payload_kind_str (Auth _) = ''auth''"
| "payload_kind_str (Update _) = ''update''"
| "payload_kind_str (KubeWorkload _) = ''kube_workload''"
| "payload_kind_str (KubeNode _) = ''kube_node''"
| "payload_kind_str (CircuitBreakerTrip _) = ''circuit_breaker_trip''"

text \<open>The paths under \<open>payload.\<close>, one block per payload variant that has the field.\<close>

definition event_field :: "event \<Rightarrow> string \<Rightarrow> string option" where
  "event_field e path =
     (if path = ''host'' then Some (ev_host e)
      else if path = ''title'' then Some (ev_title e)
      else if path = ''severity'' then Some (severity_str (ev_severity e))
      else if path = ''payload.kind'' then Some (payload_kind_str (ev_payload e))
      else if path = ''payload.unit'' then
        (case ev_payload e of FailedUnit p \<Rightarrow> Some (fu_unit p) | Journald p \<Rightarrow> jd_unit p | _ \<Rightarrow> None)
      else if path = ''payload.result'' then
        (case ev_payload e of FailedUnit p \<Rightarrow> Some (fu_result p) | _ \<Rightarrow> None)
      else if path = ''payload.message'' then
        (case ev_payload e of Journald p \<Rightarrow> Some (jd_message p) | KubeWorkload p \<Rightarrow> kw_message p
           | KubeNode p \<Rightarrow> kn_message p | _ \<Rightarrow> None)
      else if path = ''payload.path'' then (case ev_payload e of ConfigDrift p \<Rightarrow> Some (cd_path p) | _ \<Rightarrow> None)
      else if path = ''payload.new_hash'' then
        (case ev_payload e of ConfigDrift p \<Rightarrow> Some (cd_new_hash p) | _ \<Rightarrow> None)
      else if path = ''payload.old_hash'' then
        (case ev_payload e of ConfigDrift p \<Rightarrow> cd_old_hash p | _ \<Rightarrow> None)
      else if path = ''payload.diff'' then (case ev_payload e of ConfigDrift p \<Rightarrow> cd_diff p | _ \<Rightarrow> None)
      else if path = ''payload.action'' then (case ev_payload e of Auth p \<Rightarrow> Some (au_action p) | _ \<Rightarrow> None)
      else if path = ''payload.user'' then (case ev_payload e of Auth p \<Rightarrow> au_user p | _ \<Rightarrow> None)
      else if path = ''payload.remote_addr'' then (case ev_payload e of Auth p \<Rightarrow> au_remote_addr p | _ \<Rightarrow> None)
      else if path = ''payload.mechanism'' then
        (case ev_payload e of Update p \<Rightarrow> Some (up_mechanism p) | _ \<Rightarrow> None)
      else if path = ''payload.from'' then (case ev_payload e of Update p \<Rightarrow> up_from p | _ \<Rightarrow> None)
      else if path = ''payload.to'' then (case ev_payload e of Update p \<Rightarrow> up_to p | _ \<Rightarrow> None)
      else if path = ''payload.namespace'' then
        (case ev_payload e of KubeWorkload p \<Rightarrow> Some (kw_namespace p) | _ \<Rightarrow> None)
      else if path = ''payload.name'' then
        (case ev_payload e of KubeWorkload p \<Rightarrow> Some (kw_name p) | _ \<Rightarrow> None)
      else if path = ''payload.object_kind'' then
        (case ev_payload e of KubeWorkload p \<Rightarrow> Some (kw_object_kind p) | _ \<Rightarrow> None)
      else if path = ''payload.reason'' then
        (case ev_payload e of KubeWorkload p \<Rightarrow> Some (kw_reason p) | _ \<Rightarrow> None)
      else if path = ''payload.container'' then
        (case ev_payload e of KubeWorkload p \<Rightarrow> kw_container p | _ \<Rightarrow> None)
      else if path = ''payload.node'' then (case ev_payload e of KubeNode p \<Rightarrow> Some (kn_node p) | _ \<Rightarrow> None)
      else if path = ''payload.condition'' then
        (case ev_payload e of KubeNode p \<Rightarrow> Some (kn_condition p) | _ \<Rightarrow> None)
      else None)"

definition event_paths :: "string list" where
  "event_paths =
     [''host'', ''title'', ''severity'', ''payload.kind'', ''payload.unit'', ''payload.result'',
      ''payload.message'', ''payload.path'', ''payload.new_hash'', ''payload.old_hash'', ''payload.diff'',
      ''payload.action'', ''payload.user'', ''payload.remote_addr'', ''payload.mechanism'', ''payload.from'',
      ''payload.to'', ''payload.namespace'', ''payload.name'', ''payload.object_kind'', ''payload.reason'',
      ''payload.container'', ''payload.node'', ''payload.condition'']"

definition validate_event_path :: "string \<Rightarrow> bool" where
  "validate_event_path path \<longleftrightarrow> path \<in> set event_paths"

section \<open>The template registry\<close>

datatype path_error = UnknownConditionPath string string | UnknownFromPath string string string

definition validate_template_paths :: "template \<Rightarrow> path_error + unit" where
  "validate_template_paths t =
     (case check_all (\<lambda>(path, _). if \<not> validate_event_path path then Inl (UnknownConditionPath (tpl_id t) path)
                        else Inr ()) (tm_conditions (tpl_match t)) of
        Inl e \<Rightarrow> Inl e
      | Inr _ \<Rightarrow>
          check_all (\<lambda>(name, spec). if \<not> validate_event_path (ps_from spec)
                       then Inl (UnknownFromPath (tpl_id t) name (ps_from spec)) else Inr ())
            (tpl_parameters t))"

text \<open>
  A directory entry: whether its extension is \<open>toml\<close> and its text (\<open>None\<close>: unreadable). The
  directory itself may be absent or unreadable; an entry that cannot be listed is an error too.
\<close>

datatype load_error =
    DirUnreadable
  | EntryUnreadable
  | FileUnreadable
  | ParseFailed string
  | InvalidTemplate template_error
  | InvalidPaths path_error

datatype template_dir = DirMissing | DirError | Dir "(bool \<times> string option) option list"

fun load_entries ::
  "(string \<Rightarrow> string + template) \<Rightarrow> (bool \<times> string option) option list \<Rightarrow> template list
     \<Rightarrow> load_error + template list" where
  "load_entries parse [] acc = Inr acc"
| "load_entries parse (None # ds) acc = Inl EntryUnreadable"
| "load_entries parse (Some (toml, text) # ds) acc =
     (if \<not> toml then load_entries parse ds acc
      else case text of
             None \<Rightarrow> Inl FileUnreadable
           | Some t \<Rightarrow>
               (case parse t of
                  Inl e \<Rightarrow> Inl (ParseFailed e)
                | Inr tmpl \<Rightarrow>
                    (case validate tmpl of
                       Inl e \<Rightarrow> Inl (InvalidTemplate e)
                     | Inr _ \<Rightarrow>
                         (case validate_template_paths tmpl of
                            Inl e \<Rightarrow> Inl (InvalidPaths e)
                          | Inr _ \<Rightarrow> load_entries parse ds (acc @ [tmpl])))))"

definition load_dir :: "(string \<Rightarrow> string + template) \<Rightarrow> template_dir \<Rightarrow> load_error + template list" where
  "load_dir parse dir =
     (case dir of DirMissing \<Rightarrow> Inr [] | DirError \<Rightarrow> Inl DirUnreadable | Dir ds \<Rightarrow> load_entries parse ds [])"

definition conditions_hold :: "event \<Rightarrow> template \<Rightarrow> bool" where
  "conditions_hold e t = list_all (\<lambda>(path, expected). event_field e path = Some expected) (tm_conditions (tpl_match t))"

fun match_event :: "template list \<Rightarrow> event \<Rightarrow> template option" where
  "match_event [] e = None"
| "match_event (t # ts) e =
     (if tm_source (tpl_match t) \<noteq> event_source e then match_event ts e
      else if conditions_hold e t then Some t
      else match_event ts e)"

definition registry_get :: "template list \<Rightarrow> string \<Rightarrow> template option" where
  "registry_get ts i = find (\<lambda>t. tpl_id t = i) ts"

section \<open>Parameter resolution\<close>

definition k8s_id_param_names :: "string list" where
  "k8s_id_param_names = [''namespace'', ''pod'', ''deployment'', ''name'']"

datatype param_error = NoValueAt string string | NotKubeIdentifier string string

fun resolve_params_loop ::
  "event \<Rightarrow> (string \<times> parameter_spec) list \<Rightarrow> params \<Rightarrow> param_error + params" where
  "resolve_params_loop e [] acc = Inr acc"
| "resolve_params_loop e ((name, spec) # rest) acc =
     (case event_field e (ps_from spec) of
        None \<Rightarrow> Inl (NoValueAt name (ps_from spec))
      | Some v \<Rightarrow>
          if name \<in> set k8s_id_param_names \<and> \<not> is_valid_k8s_label v then Inl (NotKubeIdentifier name v)
          else resolve_params_loop e rest (btree_insert name v acc))"

definition resolve_params :: "template \<Rightarrow> event \<Rightarrow> param_error + params" where
  "resolve_params t e = resolve_params_loop e (tpl_parameters t) []"

section \<open>Facts\<close>

lemma event_field_path: "event_field e path = Some v \<Longrightarrow> validate_event_path path"
  unfolding event_field_def validate_event_path_def event_paths_def
  by (simp only: list.set insert_iff empty_iff split: if_splits; blast?)

lemma load_entries_valid:
  "load_entries parse ds acc = Inr ts \<Longrightarrow> t \<in> set ts \<Longrightarrow>
     t \<in> set acc \<or> validate t = Inr () \<and> validate_template_paths t = Inr ()"
  by (induction parse ds acc rule: load_entries.induct)
    (auto split: if_splits option.splits sum.splits)

lemma load_dir_valid:
  "load_dir parse dir = Inr ts \<Longrightarrow> t \<in> set ts \<Longrightarrow> validate t = Inr () \<and> validate_template_paths t = Inr ()"
  by (auto simp: load_dir_def split: template_dir.splits dest: load_entries_valid)

lemma validate_template_paths_Inr:
  "validate_template_paths t = Inr () \<longleftrightarrow>
     (\<forall>(path, v)\<in>set (tm_conditions (tpl_match t)). validate_event_path path)
     \<and> (\<forall>(name, spec)\<in>set (tpl_parameters t). validate_event_path (ps_from spec))"
  by (auto simp: validate_template_paths_def split: sum.splits if_splits dest!: check_all_InlD)
    (fastforce split: if_splits)+

lemma match_event_Some:
  "match_event ts e = Some t \<Longrightarrow> t \<in> set ts \<and> tm_source (tpl_match t) = event_source e \<and> conditions_hold e t"
  by (induction ts) (auto split: if_splits)

lemma match_event_find:
  "match_event ts e = find (\<lambda>t. tm_source (tpl_match t) = event_source e \<and> conditions_hold e t) ts"
  by (induction ts) auto

lemma resolve_params_loop_Inr:
  assumes "resolve_params_loop e specs acc = Inr ps" "btree_ok acc"
  shows "btree_ok ps"
    and "dom (btree_get ps) = dom (btree_get acc) \<union> fst ` set specs"
    and "\<And>n v. btree_get ps n = Some v \<Longrightarrow> btree_get acc n = Some v \<or>
          (\<exists>spec. (n, spec) \<in> set specs \<and> event_field e (ps_from spec) = Some v
             \<and> (n \<in> set k8s_id_param_names \<longrightarrow> is_valid_k8s_label v))"
proof -
  have "btree_ok ps \<and> dom (btree_get ps) = dom (btree_get acc) \<union> fst ` set specs
    \<and> (\<forall>n v. btree_get ps n = Some v \<longrightarrow> btree_get acc n = Some v \<or>
          (\<exists>spec. (n, spec) \<in> set specs \<and> event_field e (ps_from spec) = Some v
             \<and> (n \<in> set k8s_id_param_names \<longrightarrow> is_valid_k8s_label v)))"
    using assms
  proof (induction e specs acc rule: resolve_params_loop.induct)
    case (1 e acc)
    then show ?case by simp
  next
    case (2 e name spec rest acc)
    from 2(2) obtain v where v: "event_field e (ps_from spec) = Some v"
      and good: "name \<in> set k8s_id_param_names \<longrightarrow> is_valid_k8s_label v"
      and rest: "resolve_params_loop e rest (btree_insert name v acc) = Inr ps"
      by (auto split: option.splits if_splits)
    have g: "btree_get (btree_insert name v acc) = (btree_get acc)(name \<mapsto> v)"
      by (rule btree_get_insert [OF 2(3)])
    have "\<not> (name \<in> set k8s_id_param_names \<and> \<not> is_valid_k8s_label v)" using good by blast
    note IH = 2(1) [OF v this rest btree_ok_insert [OF 2(3)]]
    show ?case
    proof (intro conjI allI impI)
      show "btree_ok ps" using IH by blast
      show "dom (btree_get ps) = dom (btree_get acc) \<union> fst ` set ((name, spec) # rest)" using IH g by auto
    next
      fix n w
      assume "btree_get ps n = Some w"
      with IH g consider "n = name" "w = v" | "btree_get acc n = Some w"
        | sp where "(n, sp) \<in> set rest" "event_field e (ps_from sp) = Some w"
            "n \<in> set k8s_id_param_names \<longrightarrow> is_valid_k8s_label w"
        by (metis fun_upd_apply option.inject)
      then show "btree_get acc n = Some w \<or>
          (\<exists>sp. (n, sp) \<in> set ((name, spec) # rest) \<and> event_field e (ps_from sp) = Some w
             \<and> (n \<in> set k8s_id_param_names \<longrightarrow> is_valid_k8s_label w))"
        using v good by cases auto
    qed
  qed
  then show "btree_ok ps" "dom (btree_get ps) = dom (btree_get acc) \<union> fst ` set specs"
    "\<And>n v. btree_get ps n = Some v \<Longrightarrow> btree_get acc n = Some v \<or>
          (\<exists>spec. (n, spec) \<in> set specs \<and> event_field e (ps_from spec) = Some v
             \<and> (n \<in> set k8s_id_param_names \<longrightarrow> is_valid_k8s_label v))" by blast+
qed

end
