(* ===== verification/Orchestrator.thy ===== *)
theory Orchestrator
  imports Registry Policy Command_Queue Remediation_Store Knowledge
begin

text \<open>
  The second half of \<^verbatim>\<open>crates/ravn-server/src/remediation.rs\<close> and the remediation handlers of
  \<^verbatim>\<open>crates/ravn-server/src/api.rs\<close>: from a persisted event to a proposal, a policy decision
  and, when allowed, a signed command in the queue; approval and rejection by a human; results that
  close a record and feed the knowledge base. The control plane's state is one record; fresh ids,
  clock readings and the answers of the database and the file system are inputs of each operation.
\<close>

section \<open>Proposals and commands\<close>

definition quoted :: "string \<Rightarrow> string" where
  "quoted s = dquote @ s @ dquote"

definition build_proposal :: "uuid \<Rightarrow> datetime \<Rightarrow> template \<Rightarrow> event \<Rightarrow> params \<Rightarrow> proposal" where
  "build_proposal pid now t e ps =
     (let detail = join '', '' (map snd ps)
      in \<lparr>pr_id = pid, pr_event_id = ev_id e, pr_agent_id = ev_agent_id e, pr_host = ev_host e,
          pr_template_id = tpl_id t, pr_template_version = tpl_version t, pr_risk_tier = tpl_risk_tier t,
          pr_params = ps,
          pr_rationale =
            ev_title e @ '' on '' @ ev_host e @ '' matched template '' @ quoted (tpl_title t) @ '' (''
              @ tpl_id t @ ''). Proposed: '' @ tpl_title t @ '' [''
              @ (if detail = [] then ''no parameters'' else detail) @ ''].'',
          pr_created_at = now\<rparr>)"

datatype build_error = StepsError render_error | PreconditionsError render_error | VerifyFieldError render_error

definition resolve_condition :: "params \<Rightarrow> condition \<Rightarrow> render_error + condition" where
  "resolve_condition ps c =
     (case resolve (cond_check c) ps of
        Inl e \<Rightarrow> Inl e
      | Inr cap \<Rightarrow> Inr \<lparr>cond_check = cap, cond_equals = cond_equals c\<rparr>)"

definition resolve_verify :: "params \<Rightarrow> verify option \<Rightarrow> render_error + verify option" where
  "resolve_verify ps v =
     (case v of
        None \<Rightarrow> Inr None
      | Some v \<Rightarrow>
          (case resolve (vf_check v) ps of
             Inl e \<Rightarrow> Inl e
           | Inr cap \<Rightarrow> Inr (Some \<lparr>vf_check = cap, vf_equals = vf_equals v, vf_timeout_s = vf_timeout_s v\<rparr>)))"

text \<open>\<open>cid\<close> and \<open>nonce\<close> are fresh ids; \<open>ttl\<close> is \<open>command_ttl_secs\<close>, at least one second.\<close>

definition build_command ::
  "serde \<Rightarrow> ('sk, 'vk) crypto \<Rightarrow> uuid \<Rightarrow> uuid \<Rightarrow> datetime \<Rightarrow> proposal \<Rightarrow> template \<Rightarrow> 'sk command_signer
     \<Rightarrow> approval_ref \<Rightarrow> int \<Rightarrow> build_error + envelope" where
  "build_command S C cid nonce now p t signer approval ttl =
     (case traverse (\<lambda>c. resolve c (pr_params p)) (tpl_steps t) of
        Inl e \<Rightarrow> Inl (StepsError e)
      | Inr steps \<Rightarrow>
          (case traverse (resolve_condition (pr_params p)) (tpl_preconditions t) of
             Inl e \<Rightarrow> Inl (PreconditionsError e)
           | Inr pre \<Rightarrow>
               (case resolve_verify (pr_params p) (tpl_verify t) of
                  Inl e \<Rightarrow> Inl (VerifyFieldError e)
                | Inr vf \<Rightarrow>
                    Inr (signer_sign S C signer
                      \<lparr>env_command_id = cid, env_agent_id = pr_agent_id p, env_template_id = tpl_id t,
                       env_template_version = tpl_version t, env_risk_tier = tpl_risk_tier t,
                       env_preconditions = pre, env_steps = steps, env_verify = vf,
                       env_rollback = tpl_rollback t, env_approval_ref = approval,
                       env_nonce = sd_uuid S nonce, env_issued_at = now,
                       env_expires_at = now + max 1 ttl * nanos_per_sec, env_kid = None, env_sig = None\<rparr>))))"

section \<open>The control plane's state\<close>

datatype metric = Proposed string | OutcomeReported string | BreakerTrip | ChannelError

record 'sk app_state =
  app_templates :: "template list"
  app_signer :: "'sk command_signer"
  app_ttl :: int
  app_policy :: policy_engine
  app_queue :: command_queue
  app_store :: remediation_store
  app_kb :: knowledge_base
  app_metrics :: "metric list"
  app_events :: "event list"

text \<open>
  The inputs of one operation: fresh ids, the clock at each place it is read, and whether the
  database and the file system do what they are asked.
\<close>

record inputs =
  in_proposal_id :: uuid
  in_command_id :: uuid
  in_nonce :: uuid
  in_event_id :: uuid
  in_now :: datetime
  in_policy_now :: datetime
  in_issue_now :: datetime
  in_approved_now :: datetime
  in_db_now :: datetime
  in_db :: bool
  in_lookup :: bool
  in_update :: bool
  in_io :: bool

definition count_metric :: "metric \<Rightarrow> 'sk app_state \<Rightarrow> 'sk app_state" where
  "count_metric m app = app\<lparr>app_metrics := app_metrics app @ [m]\<rparr>"

text \<open>The synthetic event of a breaker trip, broadcast to subscribers and not persisted.\<close>

definition breaker_trip_event :: "inputs \<Rightarrow> string \<Rightarrow> string \<Rightarrow> event" where
  "breaker_trip_event I host tmpl =
     \<lparr>ev_id = in_event_id I, ev_occurred_at = in_now I, ev_observed_at = in_now I, ev_agent_id = AgentId 0,
      ev_host = host, ev_severity = Warning,
      ev_title = ''Circuit breaker tripped: auto'' @ [CHR 0xE2, CHR 0x86, CHR 0x92] @ ''approve for template ''
        @ tmpl @ '' on '' @ host,
      ev_category_hints = [''ravn:self'', ''circuit-breaker''],
      ev_payload = CircuitBreakerTrip \<lparr>cb_host = host, cb_template_id = tmpl\<rparr>\<rparr>"

definition emit_breaker_trip_event :: "inputs \<Rightarrow> string \<Rightarrow> string \<Rightarrow> 'sk app_state \<Rightarrow> 'sk app_state" where
  "emit_breaker_trip_event I host tmpl app =
     app\<lparr>app_events := app_events app @ [breaker_trip_event I host tmpl]\<rparr>"

section \<open>From event to command\<close>

definition auto_execute ::
  "serde \<Rightarrow> ('sk, 'vk) crypto \<Rightarrow> inputs \<Rightarrow> template \<Rightarrow> proposal \<Rightarrow> string \<Rightarrow> 'sk app_state \<Rightarrow> 'sk app_state" where
  "auto_execute S C I t p fault app =
     (case build_command S C (in_command_id I) (in_nonce I) (in_issue_now I) p t (app_signer app) PolicyAuto
             (app_ttl app) of
        Inl _ \<Rightarrow> count_metric ChannelError app
      | Inr env \<Rightarrow>
          (case store_insert_auto_approved S (in_db I) (in_db_now I) p (env_command_id env) (env_sig env) fault
                  (app_store app) of
             (None, st) \<Rightarrow> app\<lparr>app_store := st\<rparr>
           | (Some _, st) \<Rightarrow> app\<lparr>app_store := st, app_queue := enqueue env (app_queue app)\<rparr>))"

definition prepare_inner ::
  "serde \<Rightarrow> ('sk, 'vk) crypto \<Rightarrow> rfc3339 \<Rightarrow> inputs \<Rightarrow> event \<Rightarrow> 'sk app_state \<Rightarrow> 'sk app_state" where
  "prepare_inner S C F I e app =
     (let fault = fault_signature e
      in case match_event (app_templates app) e of
           None \<Rightarrow> app\<lparr>app_kb := record_gap F (in_io I) (in_now I) e (app_kb app)\<rparr>
         | Some t \<Rightarrow>
             (case resolve_params t e of
                Inl _ \<Rightarrow> app
              | Inr ps \<Rightarrow>
                  let p0 = build_proposal (in_proposal_id I) (in_now I) t e ps;
                      p = (case recall F (in_now I) fault (app_kb app) of
                             None \<Rightarrow> p0
                           | Some note \<Rightarrow> p0\<lparr>pr_rationale := pr_rationale p0 @ '' '' @ note\<rparr>);
                      (res, eng) = evaluate (app_policy app) (ev_host e) (tpl_risk_tier t) (tpl_id t) (in_policy_now I);
                      app1 = app\<lparr>app_policy := eng\<rparr>;
                      app2 = (if evr_breaker_tripped res
                              then emit_breaker_trip_event I (ev_host e) (tpl_id t) (count_metric BreakerTrip app1)
                              else app1)
                  in case evr_decision res of
                       Forbid \<Rightarrow> count_metric (Proposed ''forbid'') app2
                     | Approve \<Rightarrow>
                         let app3 = count_metric (Proposed ''approve'') app2
                         in app3\<lparr>app_store := snd (store_insert S (in_db I) (in_db_now I) p fault (app_store app3))\<rparr>
                     | Auto \<Rightarrow> auto_execute S C I t p fault (count_metric (Proposed ''auto'') app2)))"

section \<open>The remediation API\<close>

datatype role = Viewer | Admin

definition role_user :: "role option \<Rightarrow> string" where
  "role_user r = (case r of None \<Rightarrow> ''admin'' | Some Admin \<Rightarrow> ''admin'' | Some Viewer \<Rightarrow> ''viewer'')"

datatype api_response = NotFound | Conflict | ServerError build_error | ApprovedCommand uuid | RejectedOk | Accepted

text \<open>
  \<open>approve_remediation\<close> in the two parts its last \<open>await\<close> separates: up to and including the
  enqueue, and the write to the store, whose result is not looked at. Between the parts other
  requests may run.
\<close>

definition approve_begin ::
  "serde \<Rightarrow> ('sk, 'vk) crypto \<Rightarrow> inputs \<Rightarrow> uuid \<Rightarrow> role option \<Rightarrow> 'sk app_state
     \<Rightarrow> (api_response + envelope) \<times> 'sk app_state" where
  "approve_begin S C I pid r app =
     (case store_pending_proposal (in_db I) pid (app_store app) of
        None \<Rightarrow> (Inl NotFound, app)
      | Some p \<Rightarrow>
          (case registry_get (app_templates app) (pr_template_id p) of
             None \<Rightarrow> (Inl Conflict, app)
           | Some t \<Rightarrow>
               (case build_command S C (in_command_id I) (in_nonce I) (in_issue_now I) p t (app_signer app)
                       (Human (role_user r) (in_now I)) (app_ttl app) of
                  Inl e \<Rightarrow> (Inl (ServerError e), app)
                | Inr env \<Rightarrow> (Inr env, app\<lparr>app_queue := enqueue env (app_queue app)\<rparr>))))"

definition approve_finish ::
  "serde \<Rightarrow> inputs \<Rightarrow> uuid \<Rightarrow> role option \<Rightarrow> envelope \<Rightarrow> 'sk app_state \<Rightarrow> api_response \<times> 'sk app_state" where
  "approve_finish S I pid r env app =
     (ApprovedCommand (env_command_id env),
      app\<lparr>app_store := snd (store_approve S (in_lookup I) (in_update I) (in_db_now I) pid
             (Human (role_user r) (in_approved_now I)) (env_command_id env) (env_sig env) (app_store app))\<rparr>)"

definition api_approve ::
  "serde \<Rightarrow> ('sk, 'vk) crypto \<Rightarrow> inputs \<Rightarrow> uuid \<Rightarrow> role option \<Rightarrow> 'sk app_state
     \<Rightarrow> api_response \<times> 'sk app_state" where
  "api_approve S C I pid r app =
     (case approve_begin S C I pid r app of
        (Inl resp, app1) \<Rightarrow> (resp, app1)
      | (Inr env, app1) \<Rightarrow> approve_finish S I pid r env app1)"

definition api_reject ::
  "serde \<Rightarrow> inputs \<Rightarrow> uuid \<Rightarrow> role option \<Rightarrow> 'sk app_state \<Rightarrow> api_response \<times> 'sk app_state" where
  "api_reject S I pid r app =
     (case store_reject S (in_lookup I) (in_update I) (in_db_now I) pid (role_user r) (in_now I) None
             (app_store app) of
        (found, st) \<Rightarrow> (if found then RejectedOk else NotFound, app\<lparr>app_store := st\<rparr>))"

definition get_commands :: "uuid \<Rightarrow> 'sk app_state \<Rightarrow> envelope list \<times> 'sk app_state" where
  "get_commands a app =
     (case take_for a (app_queue app) of (es, q) \<Rightarrow> (es, app\<lparr>app_queue := q\<rparr>))"

fun approver_of :: "decision \<Rightarrow> string" where
  "approver_of (Approved (Human user _)) = user"
| "approver_of (Approved PolicyAuto) = ''policy:auto''"
| "approver_of _ = ''unknown''"

text \<open>\<open>num_seconds\<close> truncates toward zero.\<close>

definition num_seconds :: "int \<Rightarrow> int" where
  "num_seconds n = n sdiv nanos_per_sec"

definition post_command_result ::
  "rfc3339 \<Rightarrow> inputs \<Rightarrow> action_result \<Rightarrow> 'sk app_state \<Rightarrow> api_response \<times> 'sk app_state" where
  "post_command_result F I res app =
     (let app1 = count_metric (OutcomeReported (status_str (res_status res))) app;
          (closed, st) = store_record_result (in_db I) (in_db_now I) res (app_store app1);
          app2 = app1\<lparr>app_store := st\<rparr>;
          app3 = (case closed of
                    None \<Rightarrow> app2
                  | Some (r, fault) \<Rightarrow>
                      if kb_enabled (app_kb app2) \<and> fault \<noteq> []
                      then app2\<lparr>app_kb := record_outcome F (in_io I) (in_now I) fault (rr_proposal r) (res_status res)
                             (map_option (\<lambda>q. num_seconds (res_finished_at q - pr_created_at (rr_proposal r))) (rr_result r))
                             (approver_of (rr_decision r)) (app_kb app2)\<rparr>
                      else app2)
      in (Accepted, app3\<lparr>app_queue := queue_record_result res (app_queue app3)\<rparr>))"

end
