(* ===== verification/Control_Plane.thy ===== *)
theory Control_Plane
  imports Orchestrator
begin

text \<open>
  The control plane as a transition system: ingested events, the two halves of an approval,
  rejections, pulls by agents, reported results and restarts, in any order and with any database
  failures. Invariants of every reachable state, and the behaviour of single operations.
\<close>

section \<open>What a built command is\<close>

lemma build_commandE:
  assumes "build_command S C cid nonce now p t signer approval ttl = Inr env"
  obtains pre steps vf e0 where
    "list_all2 (\<lambda>c c'. resolve c (pr_params p) = Inr c') (tpl_steps t) steps"
    "list_all2 (\<lambda>c c'. resolve_condition (pr_params p) c = Inr c') (tpl_preconditions t) pre"
    "resolve_verify (pr_params p) (tpl_verify t) = Inr vf"
    "e0 = \<lparr>env_command_id = cid, env_agent_id = pr_agent_id p, env_template_id = tpl_id t,
           env_template_version = tpl_version t, env_risk_tier = tpl_risk_tier t,
           env_preconditions = pre, env_steps = steps, env_verify = vf,
           env_rollback = tpl_rollback t, env_approval_ref = approval,
           env_nonce = sd_uuid S nonce, env_issued_at = now,
           env_expires_at = now + max 1 ttl * nanos_per_sec, env_kid = None, env_sig = None\<rparr>"
    "env = signer_sign S C signer e0"
  using assms unfolding build_command_def
  by (auto simp: traverse_Inr_iff split: sum.splits)

lemma signer_sign_sel [simp]:
  "env_command_id (signer_sign S C s e) = env_command_id e"
  "env_agent_id (signer_sign S C s e) = env_agent_id e"
  "env_template_id (signer_sign S C s e) = env_template_id e"
  "env_risk_tier (signer_sign S C s e) = env_risk_tier e"
  "env_preconditions (signer_sign S C s e) = env_preconditions e"
  "env_steps (signer_sign S C s e) = env_steps e"
  "env_verify (signer_sign S C s e) = env_verify e"
  "env_rollback (signer_sign S C s e) = env_rollback e"
  "env_approval_ref (signer_sign S C s e) = env_approval_ref e"
  "env_issued_at (signer_sign S C s e) = env_issued_at e"
  "env_expires_at (signer_sign S C s e) = env_expires_at e"
  by (simp_all add: signer_sign_def)

lemma build_command_fields:
  assumes "build_command S C cid nonce now p t signer approval ttl = Inr env"
  shows "env_command_id env = cid" "env_agent_id env = pr_agent_id p" "env_template_id env = tpl_id t"
    "env_risk_tier env = tpl_risk_tier t" "env_approval_ref env = approval"
    "env_issued_at env = now" "env_expires_at env = now + max 1 ttl * nanos_per_sec"
    "env_rollback env = tpl_rollback t"
  using assms by (auto elim!: build_commandE)

text \<open>The capabilities of a command are the template's, resolved one by one.\<close>

lemma build_command_capabilities:
  assumes "build_command S C cid nonce now p t signer approval ttl = Inr env"
  shows "list_all2 (\<lambda>c c'. resolve c (pr_params p) = Inr c') (template_capabilities t) (envelope_capabilities env)"
proof -
  from assms obtain pre steps vf where steps: "list_all2 (\<lambda>c c'. resolve c (pr_params p) = Inr c') (tpl_steps t) steps"
    and pre: "list_all2 (\<lambda>c c'. resolve_condition (pr_params p) c = Inr c') (tpl_preconditions t) pre"
    and vf: "resolve_verify (pr_params p) (tpl_verify t) = Inr vf"
    and env: "env_preconditions env = pre" "env_steps env = steps" "env_verify env = vf"
    by (auto elim!: build_commandE)
  have "list_all2 (\<lambda>c c'. resolve c (pr_params p) = Inr c') (map cond_check (tpl_preconditions t)) (map cond_check pre)"
    using pre by (auto simp: list_all2_map1 list_all2_map2 resolve_condition_def split: sum.splits
        elim!: list_all2_mono)
  moreover have "list_all2 (\<lambda>c c'. resolve c (pr_params p) = Inr c')
      (case tpl_verify t of None \<Rightarrow> [] | Some v \<Rightarrow> [vf_check v]) (case vf of None \<Rightarrow> [] | Some v \<Rightarrow> [vf_check v])"
    using vf by (auto simp: resolve_verify_def split: option.splits sum.splits)
  ultimately show ?thesis
    unfolding template_capabilities_def envelope_capabilities_def env
    using steps by (intro list_all2_appendI)
qed

lemma build_command_kube_ids:
  assumes "build_command S C cid nonce now p t signer approval ttl = Inr env"
    and "c \<in> set (envelope_capabilities env)" "(f, i) \<in> set (capability_kube_ids c)"
  shows "is_valid_k8s_label i"
proof -
  from build_command_capabilities [OF assms(1)] assms(2) obtain c0 where "resolve c0 (pr_params p) = Inr c"
    by (auto simp: in_set_conv_nth list_all2_conv_all_nth)
  from resolve_kube_ids [OF this assms(3)] show ?thesis .
qed

section \<open>The transition system\<close>

text \<open>\<open>sys_inflight\<close>: approvals between their two halves; \<open>sys_sent\<close>: everything agents pulled.\<close>

record 'sk system =
  sys_app :: "'sk app_state"
  sys_inflight :: "(uuid \<times> role option \<times> envelope) list"
  sys_sent :: "envelope list"

definition restart_app :: "serde \<Rightarrow> 'sk app_state \<Rightarrow> 'sk app_state" where
  "restart_app S app =
     app\<lparr>app_queue := queue_default, app_store := store_new S (st_rows (app_store app)),
         app_policy := policy_engine_new (pe_policy (app_policy app)) (pe_auto_enabled (app_policy app))
           (br_max_auto (pe_breaker (app_policy app))) (br_window (pe_breaker (app_policy app))),
         app_metrics := [], app_events := []\<rparr>"

definition unused_id :: "uuid \<Rightarrow> 'sk app_state \<Rightarrow> bool" where
  "unused_id pid app \<longleftrightarrow> pid \<notin> row_proposal_id ` set (st_rows (app_store app))"

inductive system_step ::
  "serde \<Rightarrow> ('sk, 'vk) crypto \<Rightarrow> rfc3339 \<Rightarrow> 'sk system \<Rightarrow> 'sk system \<Rightarrow> bool"
  for S :: serde and C :: "('sk, 'vk) crypto" and F :: rfc3339 where
  event: "unused_id (in_proposal_id I) (sys_app s) \<Longrightarrow>
     system_step S C F s (s\<lparr>sys_app := prepare_inner S C F I e (sys_app s)\<rparr>)"
| approve_begin: "approve_begin S C I pid r (sys_app s) = (Inr env, app) \<Longrightarrow>
     system_step S C F s (s\<lparr>sys_app := app, sys_inflight := (pid, r, env) # sys_inflight s\<rparr>)"
| approve_finish: "sys_inflight s = xs @ (pid, r, env) # ys \<Longrightarrow>
     system_step S C F s (s\<lparr>sys_app := snd (approve_finish S I pid r env (sys_app s)), sys_inflight := xs @ ys\<rparr>)"
| reject: "system_step S C F s (s\<lparr>sys_app := snd (api_reject S I pid r (sys_app s))\<rparr>)"
| pull: "get_commands a (sys_app s) = (es, app) \<Longrightarrow>
     system_step S C F s (s\<lparr>sys_app := app, sys_sent := sys_sent s @ es\<rparr>)"
| result: "system_step S C F s (s\<lparr>sys_app := snd (post_command_result F I res (sys_app s))\<rparr>)"
| restart: "system_step S C F s (s\<lparr>sys_app := restart_app S (sys_app s), sys_inflight := []\<rparr>)"

text \<open>The commands that exist: waiting in the queue, in the hands of an approval, or pulled.\<close>

definition live_commands :: "'sk system \<Rightarrow> envelope set" where
  "live_commands s =
     {e. (\<exists>a. e \<in> set (queued_for (app_queue (sys_app s)) a))
         \<or> (\<exists>pid r. (pid, r, e) \<in> set (sys_inflight s)) \<or> e \<in> set (sys_sent s)}"

text \<open>A command built from a loaded template and signed by the control plane's key.\<close>

definition genuine :: "serde \<Rightarrow> ('sk, 'vk) crypto \<Rightarrow> 'sk app_state \<Rightarrow> envelope \<Rightarrow> bool" where
  "genuine S C app env \<longleftrightarrow>
     (\<exists>cid nonce now p t approval. t \<in> set (app_templates app)
        \<and> build_command S C cid nonce now p t (app_signer app) approval (app_ttl app) = Inr env)"

text \<open>
  The audit trail behind a command. An automatic one has a row with its id and signature, for a
  host and tier the policy lets run automatically; a human one has at least the proposal's row.
\<close>

definition audited :: "'sk app_state \<Rightarrow> envelope \<Rightarrow> bool" where
  "audited app env \<longleftrightarrow>
     (\<exists>r\<in>set (st_rows (app_store app)).
        pr_agent_id (row_proposal r) = env_agent_id env \<and> pr_template_id (row_proposal r) = env_template_id env
        \<and> (case env_approval_ref env of
             Human _ _ \<Rightarrow> True
           | PolicyAuto \<Rightarrow>
               row_command_id r = Some (env_command_id env) \<and> row_signature r = env_sig env
               \<and> row_decision r \<noteq> Pending \<and> env_risk_tier env \<noteq> Dangerous
               \<and> pe_auto_enabled (app_policy app)
               \<and> decide (pe_policy (app_policy app)) (pr_host (row_proposal r)) (env_risk_tier env) = Auto))"

definition system_ok :: "serde \<Rightarrow> ('sk, 'vk) crypto \<Rightarrow> 'sk system \<Rightarrow> bool" where
  "system_ok S C s \<longleftrightarrow>
     store_ok S (app_store (sys_app s))
     \<and> (\<forall>e\<in>live_commands s. genuine S C (sys_app s) e \<and> audited (sys_app s) e)
     \<and> (\<forall>a. \<forall>e\<in>set (queued_for (app_queue (sys_app s)) a). agent_uuid (env_agent_id e) = a)"

text \<open>
  What an operation may do to the rows: keep each of them, up to a decision on a pending row, a
  rejection, or a result. Rows are never removed and a decided row never becomes pending again.
\<close>

definition row_evolves :: "remediation_row \<Rightarrow> remediation_row \<Rightarrow> bool" where
  "row_evolves r r' \<longleftrightarrow>
     row_proposal r' = row_proposal r \<and> row_proposal_id r' = row_proposal_id r
     \<and> (row_decision r \<noteq> Pending \<longrightarrow>
          row_decision r' \<noteq> Pending \<and> row_command_id r' = row_command_id r \<and> row_signature r' = row_signature r)"

definition rows_evolve :: "remediation_row list \<Rightarrow> remediation_row list \<Rightarrow> bool" where
  "rows_evolve rows rows' \<longleftrightarrow> (\<forall>r\<in>set rows. \<exists>r'\<in>set rows'. row_evolves r r')"

lemma row_evolves_refl [simp]: "row_evolves r r"
  by (simp add: row_evolves_def)

lemma rows_evolve_subset: "set rows \<subseteq> set rows' \<Longrightarrow> rows_evolve rows rows'"
  unfolding rows_evolve_def by (meson row_evolves_refl subsetD)

lemma rows_evolve_refl [simp]: "rows_evolve rows rows"
  by (rule rows_evolve_subset) simp

lemma rows_evolve_insert: "rows_evolve rows (insert_row r rows)"
  by (rule rows_evolve_subset) (simp add: insert_row_def subset_iff)

lemma rows_evolve_update:
  "(\<And>r. r \<in> set rows \<Longrightarrow> P r \<Longrightarrow> row_evolves r (f r)) \<Longrightarrow> rows_evolve rows (snd (update_where P f rows))"
  unfolding rows_evolve_def update_where_rows
proof (rule ballI)
  fix r
  assume *: "\<And>r. r \<in> set rows \<Longrightarrow> P r \<Longrightarrow> row_evolves r (f r)" and r: "r \<in> set rows"
  then show "\<exists>r'\<in>set (map (\<lambda>r. if P r then f r else r) rows). row_evolves r r'"
    by (intro bexI [of _ "if P r then f r else r"]) auto
qed

lemma store_evolves:
  assumes "store_ok S st"
  shows "rows_evolve (st_rows st) (st_rows (snd (store_insert S db now p fault st)))"
    and "rows_evolve (st_rows st) (st_rows (snd (store_insert_auto_approved S db now p cid sg fault st)))"
    and "rows_evolve (st_rows st) (st_rows (snd (store_approve S lookup db now pid by cid sg st)))"
    and "rows_evolve (st_rows st) (st_rows (snd (store_reject S lookup db now pid user at reason st)))"
    and "rows_evolve (st_rows st) (st_rows (snd (store_record_result db now res st)))"
proof -
  have ok: "row_ok r" if "r \<in> set (st_rows st)" for r
    using assms that by (auto simp: store_ok_def rows_ok_def)
  show "rows_evolve (st_rows st) (st_rows (snd (store_insert S db now p fault st)))"
    by (auto simp: store_insert_def store_insert_commit_def db_insert_remediation_def rows_evolve_insert)
  show "rows_evolve (st_rows st) (st_rows (snd (store_insert_auto_approved S db now p cid sg fault st)))"
    by (auto simp: store_insert_auto_approved_def db_insert_auto_approved_def rows_evolve_insert)
  have "rows_evolve (st_rows st) (snd (db_approve_remediation now pid (Approved by) cid sg (st_rows st)))"
    unfolding db_approve_remediation_def
    by (rule rows_evolve_update) (auto simp: row_evolves_def row_ok_pending dest: ok)
  then show "rows_evolve (st_rows st) (st_rows (snd (store_approve S lookup db now pid by cid sg st)))"
    by (auto simp: store_approve_def Let_def split: prod.splits)
  have "rows_evolve (st_rows st) (snd (db_reject_remediation now pid (RejectedBy user at reason) (st_rows st)))"
    unfolding db_reject_remediation_def by (rule rows_evolve_update) (auto simp: row_evolves_def)
  then show "rows_evolve (st_rows st) (st_rows (snd (store_reject S lookup db now pid user at reason st)))"
    by (auto simp: store_reject_def Let_def split: prod.splits)
  have "rows_evolve (st_rows st) (snd (db_record_result now res (st_rows st)))"
    unfolding db_record_result_def Let_def snd_conv by (rule rows_evolve_update) (auto simp: row_evolves_def)
  then show "rows_evolve (st_rows st) (st_rows (snd (store_record_result db now res st)))"
    by (auto simp: store_record_result_def split: prod.splits)
qed

section \<open>Operations keep the configuration and the trail\<close>

definition same_config :: "'sk app_state \<Rightarrow> 'sk app_state \<Rightarrow> bool" where
  "same_config a b \<longleftrightarrow>
     app_templates b = app_templates a \<and> app_signer b = app_signer a \<and> app_ttl b = app_ttl a
     \<and> pe_policy (app_policy b) = pe_policy (app_policy a)
     \<and> pe_auto_enabled (app_policy b) = pe_auto_enabled (app_policy a)"

definition advances :: "serde \<Rightarrow> 'sk app_state \<Rightarrow> 'sk app_state \<Rightarrow> bool" where
  "advances S a b \<longleftrightarrow> same_config a b \<and> store_ok S (app_store b)
     \<and> rows_evolve (st_rows (app_store a)) (st_rows (app_store b))"

lemma genuine_same: "same_config a b \<Longrightarrow> genuine S C b e = genuine S C a e"
  by (simp add: genuine_def same_config_def)

lemma audited_advances:
  assumes "same_config a b" "rows_evolve (st_rows (app_store a)) (st_rows (app_store b))" "audited a e"
  shows "audited b e"
proof -
  from assms(3) obtain r where r: "r \<in> set (st_rows (app_store a))"
    "pr_agent_id (row_proposal r) = env_agent_id e" "pr_template_id (row_proposal r) = env_template_id e"
    "case env_approval_ref e of Human _ _ \<Rightarrow> True | PolicyAuto \<Rightarrow>
       row_command_id r = Some (env_command_id e) \<and> row_signature r = env_sig e
       \<and> row_decision r \<noteq> Pending \<and> env_risk_tier e \<noteq> Dangerous \<and> pe_auto_enabled (app_policy a)
       \<and> decide (pe_policy (app_policy a)) (pr_host (row_proposal r)) (env_risk_tier e) = Auto"
    by (auto simp: audited_def)
  from assms(2) r(1) obtain r' where "r' \<in> set (st_rows (app_store b))" "row_evolves r r'"
    by (auto simp: rows_evolve_def)
  with r assms(1) show ?thesis
    unfolding audited_def
    by (intro bexI [of _ r']) (auto simp: row_evolves_def same_config_def split: approval_ref.splits)
qed

lemma queued_enqueue:
  "e \<in> set (queued_for (enqueue env q) a) \<longleftrightarrow> e \<in> set (queued_for q a) \<or> e = env \<and> agent_uuid (env_agent_id env) = a"
  by (auto simp: queue.waiting_enq for_agent_def)

text \<open>
  The shape of every step: the configuration and the trail advance, and the commands after the step
  are those before it and at most one new command that is genuine and audited.
\<close>

lemma system_ok_advance:
  assumes ok: "system_ok S C s" and adv: "advances S (sys_app s) (sys_app s')"
    and live: "live_commands s' \<subseteq> live_commands s \<union> new"
    and new: "\<And>e. e \<in> new \<Longrightarrow> genuine S C (sys_app s') e \<and> audited (sys_app s') e"
    and queue: "\<And>a e. e \<in> set (queued_for (app_queue (sys_app s')) a) \<Longrightarrow> agent_uuid (env_agent_id e) = a"
  shows "system_ok S C s'"
proof -
  have "genuine S C (sys_app s') e \<and> audited (sys_app s') e" if "e \<in> live_commands s" for e
    using that ok adv genuine_same audited_advances unfolding system_ok_def advances_def by blast
  with live new have "\<forall>e\<in>live_commands s'. genuine S C (sys_app s') e \<and> audited (sys_app s') e" by blast
  with adv queue show ?thesis by (simp add: system_ok_def advances_def)
qed

lemma pending_proposal_row:
  assumes "store_pending_proposal db pid st = Some p"
  shows "\<exists>r\<in>set (st_rows st). row_proposal r = p"
  using assms by (auto simp: store_pending_proposal_def pending_remediation_proposal_def split: if_splits
      dest!: find_SomeD)

lemma evaluate_config:
  "pe_policy (snd (evaluate eng host tier tmpl now)) = pe_policy eng"
  "pe_auto_enabled (snd (evaluate eng host tier tmpl now)) = pe_auto_enabled eng"
  by (auto simp: evaluate_def Let_def split: policy_decision.splits prod.splits)

lemma evaluate_auto:
  assumes "evaluate eng host tier tmpl now = (res, eng')" "evr_decision res = Auto"
  shows "pe_auto_enabled eng" "tier \<noteq> Dangerous" "decide (pe_policy eng) host tier = Auto"
  using assms by (auto simp: evaluate_def Let_def split: policy_decision.splits prod.splits if_splits)

lemma app_updates [simp]:
  "app_store (count_metric m app) = app_store app" "app_queue (count_metric m app) = app_queue app"
  "app_policy (count_metric m app) = app_policy app" "app_templates (count_metric m app) = app_templates app"
  "app_signer (count_metric m app) = app_signer app" "app_ttl (count_metric m app) = app_ttl app"
  "app_kb (count_metric m app) = app_kb app"
  "app_store (emit_breaker_trip_event I h t app) = app_store app"
  "app_queue (emit_breaker_trip_event I h t app) = app_queue app"
  "app_policy (emit_breaker_trip_event I h t app) = app_policy app"
  "app_templates (emit_breaker_trip_event I h t app) = app_templates app"
  "app_signer (emit_breaker_trip_event I h t app) = app_signer app"
  "app_ttl (emit_breaker_trip_event I h t app) = app_ttl app"
  by (simp_all add: count_metric_def emit_breaker_trip_event_def)

text \<open>What an automatic execution leaves behind.\<close>

lemma auto_execute_step:
  assumes ok: "store_ok S (app_store app)" and fresh: "fresh_proposal p (app_store app)"
    and t: "t \<in> set (app_templates app)" "pr_template_id p = tpl_id t"
    and pol: "pe_auto_enabled (app_policy app)" "tpl_risk_tier t \<noteq> Dangerous"
      "decide (pe_policy (app_policy app)) (pr_host p) (tpl_risk_tier t) = Auto"
  shows "advances S app (auto_execute S C I t p fault app)"
    and "app_queue (auto_execute S C I t p fault app) = app_queue app
       \<or> (\<exists>env. app_queue (auto_execute S C I t p fault app) = enqueue env (app_queue app)
            \<and> genuine S C (auto_execute S C I t p fault app) env \<and> audited (auto_execute S C I t p fault app) env)"
proof -
  let ?app = "auto_execute S C I t p fault app"
  have "advances S app ?app \<and> (app_queue ?app = app_queue app
       \<or> (\<exists>env. app_queue ?app = enqueue env (app_queue app) \<and> genuine S C ?app env \<and> audited ?app env))"
  proof (cases "build_command S C (in_command_id I) (in_nonce I) (in_issue_now I) p t (app_signer app) PolicyAuto (app_ttl app)")
    case (Inl e)
    then show ?thesis using ok by (simp add: auto_execute_def advances_def same_config_def)
  next
    case (Inr env)
    note f = build_command_fields [OF Inr]
    obtain out st where st: "store_insert_auto_approved S (in_db I) (in_db_now I) p (env_command_id env)
        (env_sig env) fault (app_store app) = (out, st)" by fastforce
    have adv: "store_ok S st" "rows_evolve (st_rows (app_store app)) (st_rows st)"
      using store_insert_auto_ok(1) [OF ok fresh] store_evolves(2) [OF ok] st by (metis snd_conv)+
    show ?thesis
    proof (cases out)
      case None
      with Inr st adv show ?thesis by (simp add: auto_execute_def advances_def same_config_def)
    next
      case (Some i)
      with Inr st have app: "?app = app\<lparr>app_store := st, app_queue := enqueue env (app_queue app)\<rparr>"
        by (simp add: auto_execute_def)
      have same: "same_config app ?app" by (simp add: app same_config_def)
      have "genuine S C app env" unfolding genuine_def using t(1) Inr by blast
      then have gen: "genuine S C ?app env" using genuine_same [OF same] by blast
      from st Some fresh have rows: "\<exists>r\<in>set (st_rows st). row_proposal r = p \<and> row_command_id r = Some (env_command_id env)
          \<and> row_signature r = env_sig env \<and> row_decision r = Approved PolicyAuto"
        by (auto simp: store_insert_auto_approved_def db_insert_auto_approved_def insert_row_fresh
            fresh_proposal_def split: if_splits)
      have aud: "audited ?app env"
        using rows pol t(2) f by (auto simp: audited_def app)
      from adv same gen aud show ?thesis by (simp add: advances_def) (auto simp: app)
    qed
  qed
  then show "advances S app (auto_execute S C I t p fault app)"
    "app_queue (auto_execute S C I t p fault app) = app_queue app
       \<or> (\<exists>env. app_queue (auto_execute S C I t p fault app) = enqueue env (app_queue app)
            \<and> genuine S C (auto_execute S C I t p fault app) env \<and> audited (auto_execute S C I t p fault app) env)"
    by blast+
qed

lemma advances_from:
  "same_config a b \<Longrightarrow> app_store b = app_store a \<Longrightarrow> advances S b c \<Longrightarrow> advances S a c"
  by (auto simp: advances_def same_config_def)

lemma advances_store:
  assumes "same_config a b" "store_ok S (app_store b)" "rows_evolve (st_rows (app_store a)) (st_rows (app_store b))"
  shows "advances S a b"
  using assms by (simp add: advances_def)

definition one_new_command :: "serde \<Rightarrow> ('sk, 'vk) crypto \<Rightarrow> 'sk app_state \<Rightarrow> 'sk app_state \<Rightarrow> bool" where
  "one_new_command S C a b \<longleftrightarrow> app_queue b = app_queue a
     \<or> (\<exists>env. app_queue b = enqueue env (app_queue a) \<and> genuine S C b env \<and> audited b env)"

text \<open>The state in which \<open>prepare_inner\<close> acts on the decision, and the proposal it acts with.\<close>

lemma prepare_inner_decided:
  assumes Some: "match_event (app_templates app) e = Some t" and Inr: "resolve_params t e = Inr ps"
  obtains p res eng app2 where
      "pr_id p = in_proposal_id I" "pr_template_id p = tpl_id t" "pr_host p = ev_host e"
      "pr_agent_id p = ev_agent_id e" "pr_params p = ps" "pr_created_at p = in_now I"
      "evaluate (app_policy app) (ev_host e) (tpl_risk_tier t) (tpl_id t) (in_policy_now I) = (res, eng)"
      "same_config app app2" "app_store app2 = app_store app" "app_queue app2 = app_queue app"
      "app_policy app2 = eng"
      "prepare_inner S C F I e app =
         (case evr_decision res of
            Forbid \<Rightarrow> app2
          | Approve \<Rightarrow> app2\<lparr>app_store := snd (store_insert S (in_db I) (in_db_now I) p (fault_signature e) (app_store app2))\<rparr>
          | Auto \<Rightarrow> auto_execute S C I t p (fault_signature e) app2)"
proof -
  define p0 where "p0 = build_proposal (in_proposal_id I) (in_now I) t e ps"
  define p where "p = (case recall F (in_now I) (fault_signature e) (app_kb app) of
     None \<Rightarrow> p0 | Some note \<Rightarrow> p0\<lparr>pr_rationale := pr_rationale p0 @ '' '' @ note\<rparr>)"
  obtain res eng where ev: "evaluate (app_policy app) (ev_host e) (tpl_risk_tier t) (tpl_id t) (in_policy_now I) = (res, eng)"
    by fastforce
  define app1 where "app1 = (if evr_breaker_tripped res
      then emit_breaker_trip_event I (ev_host e) (tpl_id t) (count_metric BreakerTrip (app\<lparr>app_policy := eng\<rparr>))
      else app\<lparr>app_policy := eng\<rparr>)"
  define app2 where "app2 = count_metric (Proposed (case evr_decision res of Forbid \<Rightarrow> ''forbid''
      | Approve \<Rightarrow> ''approve'' | Auto \<Rightarrow> ''auto'')) app1"
  have p: "pr_id p = in_proposal_id I" "pr_template_id p = tpl_id t" "pr_host p = ev_host e"
    "pr_agent_id p = ev_agent_id e" "pr_params p = ps" "pr_created_at p = in_now I"
    by (simp_all add: p_def p0_def build_proposal_def Let_def split: option.split)
  have "same_config app app2"
    using evaluate_config [of "app_policy app" "ev_host e" "tpl_risk_tier t" "tpl_id t" "in_policy_now I"] ev
    by (simp add: same_config_def app2_def app1_def)
  moreover have "app_store app2 = app_store app" "app_queue app2 = app_queue app" "app_policy app2 = eng"
    by (simp_all add: app2_def app1_def)
  moreover have "prepare_inner S C F I e app =
       (case evr_decision res of
          Forbid \<Rightarrow> app2
        | Approve \<Rightarrow> app2\<lparr>app_store := snd (store_insert S (in_db I) (in_db_now I) p (fault_signature e) (app_store app2))\<rparr>
        | Auto \<Rightarrow> auto_execute S C I t p (fault_signature e) app2)"
    using Some Inr ev unfolding p_def p0_def
    by (simp add: prepare_inner_def Let_def app2_def app1_def split: policy_decision.split)
  ultimately show thesis using that [OF p ev] by blast
qed

lemma prepare_inner_cases:
  obtains (gap) kb where "prepare_inner S C F I e app = app\<lparr>app_kb := kb\<rparr>"
  | (unresolved) "prepare_inner S C F I e app = app"
  | (decided) t p res eng app2 where
      "t \<in> set (app_templates app)" "pr_id p = in_proposal_id I" "pr_template_id p = tpl_id t"
      "pr_host p = ev_host e"
      "evaluate (app_policy app) (ev_host e) (tpl_risk_tier t) (tpl_id t) (in_policy_now I) = (res, eng)"
      "same_config app app2" "app_store app2 = app_store app" "app_queue app2 = app_queue app"
      "app_policy app2 = eng"
      "prepare_inner S C F I e app =
         (case evr_decision res of
            Forbid \<Rightarrow> app2
          | Approve \<Rightarrow> app2\<lparr>app_store := snd (store_insert S (in_db I) (in_db_now I) p (fault_signature e) (app_store app2))\<rparr>
          | Auto \<Rightarrow> auto_execute S C I t p (fault_signature e) app2)"
proof (cases "match_event (app_templates app) e")
  case None
  then show thesis using gap by (simp add: prepare_inner_def)
next
  case (Some t)
  then have t: "t \<in> set (app_templates app)" using match_event_Some by blast
  show thesis
  proof (cases "resolve_params t e")
    case (Inl err)
    with Some show thesis using unresolved by (simp add: prepare_inner_def)
  next
    case (Inr ps)
    show thesis by (rule prepare_inner_decided [OF Some Inr]) (rule decided [OF t])
  qed
qed

lemma prepare_inner_step:
  assumes ok: "store_ok S (app_store app)" and fresh: "unused_id (in_proposal_id I) app"
  shows "advances S app (prepare_inner S C F I e app)"
    and "one_new_command S C app (prepare_inner S C F I e app)"
proof -
  have "advances S app (prepare_inner S C F I e app) \<and> one_new_command S C app (prepare_inner S C F I e app)"
  proof (cases rule: prepare_inner_cases [of S C F I e app])
    case (gap kb)
    with ok show ?thesis by (simp add: advances_def same_config_def one_new_command_def)
  next
    case unresolved
    with ok show ?thesis by (simp add: advances_def same_config_def one_new_command_def)
  next
    case (decided t p res eng app2)
    have fp: "fresh_proposal p (app_store app2)"
      using fresh decided by (simp add: fresh_proposal_def unused_id_def)
    have ok2: "store_ok S (app_store app2)" using ok decided by simp
    show ?thesis
    proof (cases "evr_decision res")
      case Auto
      note pol = evaluate_auto [OF decided(5) Auto]
      have cfg: "app_templates app2 = app_templates app" "pe_auto_enabled (app_policy app2) = pe_auto_enabled (app_policy app)"
        "pe_policy (app_policy app2) = pe_policy (app_policy app)"
        using decided(6) by (simp_all add: same_config_def)
      have "advances S app2 (auto_execute S C I t p (fault_signature e) app2)"
        "app_queue (auto_execute S C I t p (fault_signature e) app2) = app_queue app2
       \<or> (\<exists>env. app_queue (auto_execute S C I t p (fault_signature e) app2) = enqueue env (app_queue app2)
            \<and> genuine S C (auto_execute S C I t p (fault_signature e) app2) env
            \<and> audited (auto_execute S C I t p (fault_signature e) app2) env)"
        using decided(1,3,4) pol
        by (intro auto_execute_step [OF ok2 fp]; simp add: cfg)+
      with advances_from [OF decided(6,7)] decided(8,10) Auto show ?thesis
        by (simp add: one_new_command_def)
    next
      case Approve
      let ?b = "app2\<lparr>app_store := snd (store_insert S (in_db I) (in_db_now I) p (fault_signature e) (app_store app2))\<rparr>"
      have "same_config app ?b" using decided(6) by (simp add: same_config_def)
      moreover have "store_ok S (app_store ?b)" using store_insert_ok(1) [OF ok2 fp] by simp
      moreover have "rows_evolve (st_rows (app_store app)) (st_rows (app_store ?b))"
        using store_evolves(1) [OF ok2] decided(7) by simp
      ultimately show ?thesis
        using Approve decided(8,10) advances_store [of app ?b S] by (simp add: one_new_command_def)
    next
      case Forbid
      have "advances S app app2" using decided(6,7) ok by (simp add: advances_def)
      with Forbid decided(8,10) show ?thesis by (simp add: one_new_command_def)
    qed
  qed
  then show "advances S app (prepare_inner S C F I e app)" "one_new_command S C app (prepare_inner S C F I e app)"
    by blast+
qed

section \<open>The system invariant\<close>

definition system_init :: "serde \<Rightarrow> 'sk system \<Rightarrow> bool" where
  "system_init S s \<longleftrightarrow> app_store (sys_app s) = store_new S [] \<and> app_queue (sys_app s) = queue_default
     \<and> sys_inflight s = [] \<and> sys_sent s = []"

lemma queued_default [simp]: "queued_for queue_default a = []"
  by (simp add: queued_for_def queue_default_def)

lemma queued_record_result [simp]: "queued_for (queue_record_result res q) a = queued_for q a"
  by (simp add: queued_for_def queue_record_result_def)

lemma queued_take:
  assumes "take_for a q = (es, q')"
  shows "es = queued_for q a" "queued_for q' b = (if b = a then [] else queued_for q b)"
  using queue.take_waiting [of a q] queue.waiting_take [of a q b] assms by simp_all

lemma system_init_ok: "system_init S s \<Longrightarrow> system_ok S C s"
  using store_new_ok(1) [of "[]" S]
  by (simp add: system_init_def system_ok_def live_commands_def rows_ok_def pending_keys_of_def pending_rows_def)

lemma new_command_step:
  assumes ok: "system_ok S C s" and adv: "advances S (sys_app s) app" and one: "one_new_command S C (sys_app s) app"
  shows "system_ok S C (s\<lparr>sys_app := app\<rparr>)"
  using one unfolding one_new_command_def
proof
  assume q: "app_queue app = app_queue (sys_app s)"
  show ?thesis
    by (rule system_ok_advance [OF ok, where new = "{}"])
      (use adv q ok in \<open>auto simp: live_commands_def system_ok_def\<close>)
next
  assume "\<exists>env. app_queue app = enqueue env (app_queue (sys_app s)) \<and> genuine S C app env \<and> audited app env"
  then obtain env where env: "app_queue app = enqueue env (app_queue (sys_app s))" "genuine S C app env" "audited app env"
    by blast
  show ?thesis
    by (rule system_ok_advance [OF ok, where new = "{env}"])
      (use adv env ok in \<open>auto simp: live_commands_def queued_enqueue system_ok_def\<close>)
qed

lemma approve_begin_step:
  assumes ok: "system_ok S C s" and b: "approve_begin S C I pid r (sys_app s) = (Inr env, app)"
  shows "system_ok S C (s\<lparr>sys_app := app, sys_inflight := (pid, r, env) # sys_inflight s\<rparr>)"
proof -
  let ?a = "sys_app s"
  from b obtain p t where p: "store_pending_proposal (in_db I) pid (app_store ?a) = Some p"
    and t: "registry_get (app_templates ?a) (pr_template_id p) = Some t"
    and build: "build_command S C (in_command_id I) (in_nonce I) (in_issue_now I) p t (app_signer ?a)
        (Human (role_user r) (in_now I)) (app_ttl ?a) = Inr env"
    and app: "app = ?a\<lparr>app_queue := enqueue env (app_queue ?a)\<rparr>"
    by (auto simp: approve_begin_def split: option.splits sum.splits)
  note f = build_command_fields [OF build]
  have same: "same_config ?a app" by (simp add: app same_config_def)
  have st: "store_ok S (app_store ?a)" using ok by (simp add: system_ok_def)
  then have adv: "advances S ?a app" by (simp add: advances_def same) (simp add: app)
  have tm: "t \<in> set (app_templates ?a)" "tpl_id t = pr_template_id p"
    using t by (auto simp: registry_get_def dest!: find_SomeD)
  have "genuine S C ?a env" unfolding genuine_def using tm(1) build by blast
  then have gen: "genuine S C app env" using genuine_same [OF same] by blast
  have aud: "audited app env"
    using pending_proposal_row [OF p] f tm(2) by (auto simp: audited_def app)
  show ?thesis
    by (rule system_ok_advance [OF ok, where new = "{env}"])
      (use adv gen aud ok in \<open>auto simp: live_commands_def queued_enqueue system_ok_def app\<close>)
qed

lemma same_commands_step:
  assumes ok: "system_ok S C s" and adv: "advances S (sys_app s) app"
    and q: "\<And>a. queued_for (app_queue app) a = queued_for (app_queue (sys_app s)) a"
    and fl: "set fl \<subseteq> set (sys_inflight s)"
  shows "system_ok S C (s\<lparr>sys_app := app, sys_inflight := fl\<rparr>)"
  by (rule system_ok_advance [OF ok, where new = "{}"])
    (use adv q ok fl in \<open>auto simp: live_commands_def system_ok_def\<close>)

lemma store_update_step:
  assumes ok: "system_ok S C s" and st: "store_ok S st" "rows_evolve (st_rows (app_store (sys_app s))) (st_rows st)"
    and fl: "set fl \<subseteq> set (sys_inflight s)"
  shows "system_ok S C (s\<lparr>sys_app := (sys_app s)\<lparr>app_store := st\<rparr>, sys_inflight := fl\<rparr>)"
  by (rule same_commands_step [OF ok _ _ fl]) (use st in \<open>auto simp: advances_def same_config_def\<close>)

lemma post_command_result_app:
  "\<exists>kb ms. snd (post_command_result F I res app) =
     app\<lparr>app_store := snd (store_record_result (in_db I) (in_db_now I) res (app_store app)), app_kb := kb,
         app_metrics := ms, app_queue := queue_record_result res (app_queue app)\<rparr>"
proof -
  obtain closed st where r: "store_record_result (in_db I) (in_db_now I) res (app_store app) = (closed, st)" by fastforce
  let ?ms = "app_metrics app @ [OutcomeReported (status_str (res_status res))]"
  let ?app = "\<lambda>kb. app\<lparr>app_store := st, app_kb := kb, app_metrics := ?ms,
      app_queue := queue_record_result res (app_queue app)\<rparr>"
  have "\<exists>kb. snd (post_command_result F I res app) = ?app kb"
  proof (cases closed)
    case None
    with r have "snd (post_command_result F I res app) = ?app (app_kb app)"
      by (simp add: post_command_result_def Let_def count_metric_def)
    then show ?thesis by blast
  next
    case (Some rf)
    obtain rec fault where rf: "rf = (rec, fault)" by fastforce
    show ?thesis
    proof (cases "kb_enabled (app_kb app) \<and> fault \<noteq> []")
      case True
      with r Some rf show ?thesis
        by (intro exI [of _ "app_kb (snd (post_command_result F I res app))"])
          (simp add: post_command_result_def Let_def count_metric_def)
    next
      case False
      then have "\<not> kb_enabled (app_kb app) \<or> fault = []" by blast
      with r Some rf have "snd (post_command_result F I res app) = ?app (app_kb app)"
        by (elim disjE) (simp_all add: post_command_result_def Let_def count_metric_def)
      then show ?thesis by blast
    qed
  qed
  with r show ?thesis by auto
qed

lemma restart_step:
  assumes ok: "system_ok S C s"
  shows "system_ok S C (s\<lparr>sys_app := restart_app S (sys_app s), sys_inflight := []\<rparr>)"
proof -
  have "store_ok S (app_store (sys_app s))" using ok by (simp add: system_ok_def)
  then have "store_ok S (store_new S (st_rows (app_store (sys_app s))))"
    by (intro store_new_ok) (simp_all add: store_ok_def)
  then have "advances S (sys_app s) (restart_app S (sys_app s))"
    by (simp add: advances_def same_config_def restart_app_def policy_engine_new_def) (simp add: store_new_def)
  then show ?thesis
    by (intro system_ok_advance [OF ok, where new = "{}"]) (auto simp: live_commands_def restart_app_def)
qed

lemma pull_step:
  assumes ok: "system_ok S C s" and g: "get_commands a (sys_app s) = (es, app)"
  shows "system_ok S C (s\<lparr>sys_app := app, sys_sent := sys_sent s @ es\<rparr>)"
proof -
  obtain q where t: "take_for a (app_queue (sys_app s)) = (es, q)" and app: "app = (sys_app s)\<lparr>app_queue := q\<rparr>"
    using g by (auto simp: get_commands_def split: prod.splits)
  note tk = queued_take [OF t]
  have adv: "advances S (sys_app s) app"
    using ok by (simp add: advances_def same_config_def system_ok_def app)
  show ?thesis
    by (rule system_ok_advance [OF ok, where new = "{}"])
      (use ok adv in \<open>auto simp: live_commands_def app tk system_ok_def split: if_splits\<close>)
qed

lemma system_step_ok: "system_ok S C s \<Longrightarrow> system_step S C F s s' \<Longrightarrow> system_ok S C s'"
proof (erule system_step.cases)
  fix I e s0
  assume ok: "system_ok S C s" and "s = s0" "s' = s0\<lparr>sys_app := prepare_inner S C F I e (sys_app s0)\<rparr>"
    "unused_id (in_proposal_id I) (sys_app s0)"
  then show "system_ok S C s'"
    using prepare_inner_step [of S "sys_app s" I C F e] new_command_step [OF ok] by (simp add: system_ok_def)
next
  fix xs pid r env ys I s0
  assume ok: "system_ok S C s" and s: "s = s0" "sys_inflight s0 = xs @ (pid, r, env) # ys"
    and s': "s' = s0\<lparr>sys_app := snd (approve_finish S I pid r env (sys_app s0)), sys_inflight := xs @ ys\<rparr>"
  have "store_ok S (app_store (sys_app s))" using ok by (simp add: system_ok_def)
  then show "system_ok S C s'"
    unfolding s' approve_finish_def snd_conv s(1) [symmetric]
    by (intro store_update_step [OF ok] store_approve_ok(1) store_evolves(3)) (use s in auto)
next
  fix I pid r s0
  assume ok: "system_ok S C s" and s: "s = s0" and s': "s' = s0\<lparr>sys_app := snd (api_reject S I pid r (sys_app s0))\<rparr>"
  have st: "store_ok S (app_store (sys_app s))" using ok by (simp add: system_ok_def)
  have "snd (api_reject S I pid r (sys_app s)) = (sys_app s)\<lparr>app_store := snd (store_reject S (in_lookup I)
      (in_update I) (in_db_now I) pid (role_user r) (in_now I) None (app_store (sys_app s)))\<rparr>"
    by (simp add: api_reject_def split: prod.split)
  then show "system_ok S C s'"
    using store_update_step [OF ok store_reject_ok(1) [OF st] store_evolves(4) [OF st], of "sys_inflight s"]
    by (simp add: s' s [symmetric])
next
  fix I res s0
  assume ok: "system_ok S C s" and s: "s = s0" and s': "s' = s0\<lparr>sys_app := snd (post_command_result F I res (sys_app s0))\<rparr>"
  have st: "store_ok S (app_store (sys_app s))" using ok by (simp add: system_ok_def)
  obtain kb ms where app: "snd (post_command_result F I res (sys_app s)) = (sys_app s)
      \<lparr>app_store := snd (store_record_result (in_db I) (in_db_now I) res (app_store (sys_app s))), app_kb := kb,
       app_metrics := ms, app_queue := queue_record_result res (app_queue (sys_app s))\<rparr>"
    using post_command_result_app by blast
  have "advances S (sys_app s) (snd (post_command_result F I res (sys_app s)))"
    using store_record_ok(1) [OF st] store_evolves(5) [OF st] by (simp add: advances_def same_config_def app)
  from same_commands_step [OF ok this, of "sys_inflight s"] show "system_ok S C s'"
    by (simp add: s' s [symmetric] app)
qed (auto intro: approve_begin_step pull_step restart_step)

interpretation control_plane: transition_invariant "system_init S" "system_step S C F" "system_ok S C" for S C F
  by unfold_locales (auto intro: system_init_ok system_step_ok)

end
