(* ===== verification/Control_Props.thy ===== *)
theory Control_Props
  imports Control_Plane
begin

text \<open>
  Properties of the control plane: which commands can exist and what stands behind them, how one
  event is handled for each policy decision, approvals one after the other and overlapping, and the
  template side (paths, loading, building).
\<close>

section \<open>Building commands\<close>

text \<open>Ids, times and the approval do not decide whether a command can be built.\<close>

lemma build_command_again:
  assumes "build_command S C cid nonce now p t signer approval ttl = Inr env"
  shows "\<exists>env'. build_command S C cid' nonce' now' p t signer approval' ttl = Inr env'"
  using assms unfolding build_command_def by (auto split: sum.splits)

lemma list_all2_in_set2: "list_all2 P xs ys \<Longrightarrow> y \<in> set ys \<Longrightarrow> \<exists>x\<in>set xs. P x y"
  by (metis in_set_conv_nth list_all2_conv_all_nth)

lemma resolve_params_dom:
  assumes "resolve_params t e = Inr ps"
  shows "dom (btree_get ps) = fst ` set (tpl_parameters t)"
  using resolve_params_loop_Inr(2) [of e "tpl_parameters t" "[]" ps] assms by (simp add: resolve_params_def)

lemma resolve_condition_error: "resolve_condition ps c = Inl e \<Longrightarrow> resolve (cond_check c) ps = Inl e"
  by (auto simp: resolve_condition_def split: sum.splits)

lemma build_command_error:
  assumes "build_command S C cid nonce now p t signer approval ttl = Inl err"
  shows "\<exists>c\<in>set (template_capabilities t). \<exists>e. resolve c (pr_params p) = Inl e
     \<and> err \<in> {StepsError e, PreconditionsError e, VerifyFieldError e}"
  using assms unfolding build_command_def template_capabilities_def
  by (auto split: sum.splits dest!: traverse_InlD resolve_condition_error)
    (force simp: resolve_verify_def split: option.splits sum.splits)

section \<open>A concrete control plane\<close>

definition demo_template :: template where
  "demo_template =
     \<lparr>tpl_id = ''t'', tpl_version = 1, tpl_title = ''Restart'', tpl_risk_tier = Safe,
      tpl_match = \<lparr>tm_source = SrcFailedUnit, tm_conditions = []\<rparr>, tpl_parameters = [],
      tpl_preconditions = [], tpl_steps = [NixRollback], tpl_verify = None, tpl_rollback = RollbackNone\<rparr>"

definition demo_event :: event where
  "demo_event =
     \<lparr>ev_id = 1, ev_occurred_at = 0, ev_observed_at = 0, ev_agent_id = AgentId 1, ev_host = ''h'',
      ev_severity = Error, ev_title = ''failed'', ev_category_hints = [],
      ev_payload = FailedUnit \<lparr>fu_unit = ''u'', fu_result = ''failed'', fu_recent_log = [], fu_extra = []\<rparr>\<rparr>"

definition demo_app :: "policy_decision \<Rightarrow> bool app_state" where
  "demo_app d =
     \<lparr>app_templates = [demo_template],
      app_signer = \<lparr>cs_key = True, cs_pubkey_b64 = [], cs_keyring_json = []\<rparr>, app_ttl = 300,
      app_policy = policy_engine_new \<lparr>pol_rules = [\<lparr>rule_host = None, rule_tier = Safe, rule_decision = d\<rparr>]\<rparr> True 3 300,
      app_queue = queue_default, app_store = store_new demo_serde [],
      app_kb = \<lparr>kb_enabled = False, kb_files = Map.empty\<rparr>, app_metrics = [], app_events = []\<rparr>"

definition demo_rfc :: rfc3339 where
  "demo_rfc = \<lparr>rfc_format = (\<lambda>_. []), rfc_parse = (\<lambda>_. None)\<rparr>"

definition demo_inputs :: "uuid \<Rightarrow> inputs" where
  "demo_inputs i =
     \<lparr>in_proposal_id = i, in_command_id = i, in_nonce = i, in_event_id = i, in_now = 0, in_policy_now = 0,
      in_issue_now = 0, in_approved_now = 0, in_db_now = 0, in_db = True, in_lookup = True, in_update = True,
      in_io = True\<rparr>"

definition demo_system :: "policy_decision \<Rightarrow> bool system" where
  "demo_system d = \<lparr>sys_app = demo_app d, sys_inflight = [], sys_sent = []\<rparr>"

lemma demo_match: "match_event (app_templates (demo_app d)) demo_event = Some demo_template"
  by (simp add: demo_app_def demo_template_def demo_event_def event_source_def conditions_hold_def)

lemma demo_resolve: "resolve_params demo_template demo_event = Inr []"
  by (simp add: resolve_params_def demo_template_def)

lemma demo_build:
  "build_command S C cid nonce now p demo_template signer ap ttl =
     Inr (signer_sign S C signer
       \<lparr>env_command_id = cid, env_agent_id = pr_agent_id p, env_template_id = ''t'',
        env_template_version = 1, env_risk_tier = Safe, env_preconditions = [], env_steps = [NixRollback],
        env_verify = None, env_rollback = RollbackNone, env_approval_ref = ap, env_nonce = sd_uuid S nonce,
        env_issued_at = now, env_expires_at = now + max 1 ttl * nanos_per_sec, env_kid = None, env_sig = None\<rparr>)"
  by (simp add: build_command_def demo_template_def resolve_verify_def)

lemma demo_system_init: "system_init demo_serde (demo_system d)"
  by (simp add: system_init_def demo_system_def demo_app_def)

lemma demo_unused: "unused_id i (demo_app d)"
  by (simp add: unused_id_def demo_app_def store_new_def)

lemma demo_evaluate:
  "evr_decision (fst (evaluate (app_policy (demo_app d)) h Safe t now)) = d"
  by (cases d) (simp_all add: demo_app_def policy_engine_new_def breaker_new_def evaluate_def decide_def
      rule_matches_def tripped_def Let_def)

section \<open>Properties\<close>

text \<open>
  C1: no command without authority. In every state the control plane can reach, whatever events,
  approvals, rejections, pulls, results, database failures and restarts led there, each command that
  waits in the queue, is being approved or was handed to an agent was built from a loaded template
  and signed with the control plane's key, and has a row in the audit trail for its agent and
  template; one that no human approved is never dangerous, was issued with automatic execution
  enabled and an \<open>auto\<close> rule for the proposal's host and tier, and its row carries its id and
  signature and is decided.
\<close>

theorem commands_authorised:
  assumes "system_init S s0" "(system_step S C F)\<^sup>*\<^sup>* s0 s" "e \<in> live_commands s"
  shows "genuine S C (sys_app s) e \<and> audited (sys_app s) e
     \<and> (env_approval_ref e = PolicyAuto \<longrightarrow> env_risk_tier e \<noteq> Dangerous
          \<and> pe_auto_enabled (app_policy (sys_app s))
          \<and> (\<exists>r\<in>set (st_rows (app_store (sys_app s))). row_command_id r = Some (env_command_id e)
               \<and> row_signature r = env_sig e \<and> row_decision r \<noteq> Pending))"
proof -
  have "system_ok S C s" by (rule control_plane.reachable_inv [OF assms(1,2)])
  with assms(3) have "genuine S C (sys_app s) e" "audited (sys_app s) e" by (auto simp: system_ok_def)
  then show ?thesis by (auto simp: audited_def)
qed

lemma demo_auto_enqueued:
  "\<exists>e\<in>live_commands ((demo_system Auto)\<lparr>sys_app := prepare_inner demo_serde demo_crypto demo_rfc (demo_inputs 5)
        demo_event (demo_app Auto)\<rparr>). env_approval_ref e = PolicyAuto"
proof (rule prepare_inner_decided [OF demo_match demo_resolve, where S = demo_serde and C = demo_crypto
      and F = demo_rfc and I = "demo_inputs 5"])
  fix p res eng app2
  let ?app = "prepare_inner demo_serde demo_crypto demo_rfc (demo_inputs 5) demo_event (demo_app Auto)"
  assume ev: "evaluate (app_policy (demo_app Auto)) (ev_host demo_event) (tpl_risk_tier demo_template)
      (tpl_id demo_template) (in_policy_now (demo_inputs 5)) = (res, eng)"
    and store: "app_store app2 = app_store (demo_app Auto)"
    and app: "?app = (case evr_decision res of Forbid \<Rightarrow> app2
          | Approve \<Rightarrow> app2\<lparr>app_store := snd (store_insert demo_serde (in_db (demo_inputs 5)) (in_db_now (demo_inputs 5)) p
              (fault_signature demo_event) (app_store app2))\<rparr>
          | Auto \<Rightarrow> auto_execute demo_serde demo_crypto (demo_inputs 5) demo_template p (fault_signature demo_event) app2)"
  have "tpl_risk_tier demo_template = Safe" by (simp add: demo_template_def)
  then have auto: "evr_decision res = Auto" using demo_evaluate [of Auto] ev by (metis fst_conv)
  obtain env where env: "build_command demo_serde demo_crypto 5 5 0 p demo_template (app_signer app2) PolicyAuto (app_ttl app2) = Inr env"
    "env_approval_ref env = PolicyAuto"
    unfolding demo_build by auto
  have "\<not> store_is_duplicate demo_serde p (app_store app2)"
    by (simp add: store demo_app_def store_is_duplicate_def store_new_def list_remediation_records_def)
  then have "app_queue ?app = enqueue env (app_queue app2)"
    unfolding app auto using env by (simp add: auto_execute_def demo_inputs_def store_insert_auto_approved_def)
  then show "\<exists>e\<in>live_commands ((demo_system Auto)\<lparr>sys_app := ?app\<rparr>). env_approval_ref e = PolicyAuto"
    using env(2) by (intro bexI [of _ env]) (auto simp: live_commands_def queued_enqueue)
qed

theorem commands_authorised_witness:
  "\<exists>e\<in>live_commands ((demo_system Auto)\<lparr>sys_app := prepare_inner demo_serde demo_crypto demo_rfc (demo_inputs 5)
        demo_event (demo_app Auto)\<rparr>). env_approval_ref e = PolicyAuto \<and> env_risk_tier e \<noteq> Dangerous"
proof -
  let ?s = "(demo_system Auto)\<lparr>sys_app := prepare_inner demo_serde demo_crypto demo_rfc (demo_inputs 5)
        demo_event (demo_app Auto)\<rparr>"
  have app: "sys_app (demo_system Auto) = demo_app Auto" by (simp add: demo_system_def)
  have "system_step demo_serde demo_crypto demo_rfc (demo_system Auto) ?s"
    using system_step.event [of "demo_inputs 5" "demo_system Auto" demo_serde demo_crypto demo_rfc demo_event]
      demo_unused by (simp add: app)
  then have reach: "(system_step demo_serde demo_crypto demo_rfc)\<^sup>*\<^sup>* (demo_system Auto) ?s" by blast
  obtain e where e: "e \<in> live_commands ?s" "env_approval_ref e = PolicyAuto" using demo_auto_enqueued by blast
  from commands_authorised [OF demo_system_init reach e(1)] e show ?thesis by blast
qed

text \<open>A live command carries the control plane's signature and valid Kubernetes identifiers.\<close>

lemma live_command_accepted:
  assumes "crypto_ok C" "system_ok S C s" "e \<in> live_commands s"
    and ring: "keyring_get ring (key_id C (verifying_key C (cs_key (app_signer (sys_app s)))))
       = Some (verifying_key C (cs_key (app_signer (sys_app s))))"
  shows "t \<le> env_expires_at e \<Longrightarrow> verify_envelope_with S C ring e t = Inr ()"
    "env_issued_at e + nanos_per_sec \<le> env_expires_at e"
    "\<forall>c\<in>set (envelope_capabilities e). \<forall>(f, i)\<in>set (capability_kube_ids c). is_valid_k8s_label i"
proof -
  from assms(2,3) obtain cid nonce now p tpl approval where
    build: "build_command S C cid nonce now p tpl (app_signer (sys_app s)) approval (app_ttl (sys_app s)) = Inr e"
    by (auto simp: system_ok_def genuine_def)
  from build obtain e0 where e0: "e = signer_sign S C (app_signer (sys_app s)) e0" by (auto elim!: build_commandE)
  show "verify_envelope_with S C ring e t = Inr ()" if "t \<le> env_expires_at e"
    unfolding verify_envelope_with_Inr e0 signer_sign_def
    by (rule sign_envelope_authentic [OF assms(1) ring]) (use that e0 in simp)
  show "env_issued_at e + nanos_per_sec \<le> env_expires_at e"
    using build_command_fields(6,7) [OF build] by simp
  show "\<forall>c\<in>set (envelope_capabilities e). \<forall>(f, i)\<in>set (capability_kube_ids c). is_valid_k8s_label i"
    using build_command_kube_ids [OF build] by blast
qed

text \<open>
  C10: what agents receive, their verifiers accept. Every command that exists in a reachable state
  passes verification, until it expires, against any ring that files the control plane's public key
  under its id; it expires at least one second after it was issued; and every Kubernetes identifier
  it carries is a valid label.
\<close>

theorem commands_verify:
  assumes "crypto_ok C" "system_init S s0" "(system_step S C F)\<^sup>*\<^sup>* s0 s" "e \<in> live_commands s"
    and "keyring_get ring (key_id C (verifying_key C (cs_key (app_signer (sys_app s)))))
       = Some (verifying_key C (cs_key (app_signer (sys_app s))))"
  shows "(\<forall>now\<le>env_expires_at e. verify_envelope_with S C ring e now = Inr ())
     \<and> env_issued_at e + nanos_per_sec \<le> env_expires_at e
     \<and> (\<forall>c\<in>set (envelope_capabilities e). \<forall>(f, i)\<in>set (capability_kube_ids c). is_valid_k8s_label i)"
proof -
  have "system_ok S C s" by (rule control_plane.reachable_inv [OF assms(2,3)])
  from live_command_accepted [OF assms(1) this assms(4,5)] show ?thesis by blast
qed

theorem commands_verify_witness:
  "\<exists>e. verify_envelope_with demo_serde demo_crypto (keyring_single demo_crypto True) e (env_expires_at e) = Inr ()
     \<and> e \<in> live_commands ((demo_system Auto)\<lparr>sys_app := prepare_inner demo_serde demo_crypto demo_rfc (demo_inputs 5)
        demo_event (demo_app Auto)\<rparr>)"
proof -
  let ?s = "(demo_system Auto)\<lparr>sys_app := prepare_inner demo_serde demo_crypto demo_rfc (demo_inputs 5)
        demo_event (demo_app Auto)\<rparr>"
  have app: "sys_app (demo_system Auto) = demo_app Auto" by (simp add: demo_system_def)
  have "system_step demo_serde demo_crypto demo_rfc (demo_system Auto) ?s"
    using system_step.event [of "demo_inputs 5" "demo_system Auto" demo_serde demo_crypto demo_rfc demo_event]
      demo_unused by (simp add: app)
  then have reach: "(system_step demo_serde demo_crypto demo_rfc)\<^sup>*\<^sup>* (demo_system Auto) ?s" by blast
  have "store_ok demo_serde (app_store (demo_app Auto))"
    using system_init_ok [OF demo_system_init [of Auto], of demo_crypto] by (simp add: system_ok_def app)
  from prepare_inner_step(1) [OF this, of "demo_inputs 5" demo_crypto demo_rfc demo_event] demo_unused
  have sig: "app_signer (sys_app ?s) = app_signer (demo_app Auto)" by (simp add: advances_def same_config_def)
  have key: "verifying_key demo_crypto (cs_key (app_signer (sys_app ?s))) = True"
    unfolding sig by (simp add: demo_app_def demo_crypto_def)
  obtain e where e: "e \<in> live_commands ?s" "env_approval_ref e = PolicyAuto" using demo_auto_enqueued by blast
  have ring: "keyring_get (keyring_single demo_crypto True) (key_id demo_crypto (verifying_key demo_crypto (cs_key (app_signer (sys_app ?s)))))
       = Some (verifying_key demo_crypto (cs_key (app_signer (sys_app ?s))))"
    unfolding key by (simp add: keyring_get_single)
  from commands_verify [OF demo_crypto_ok demo_system_init reach e(1) ring] e(1) show ?thesis by blast
qed

text \<open>Automatic execution records and queues one command, or does nothing.\<close>

lemma auto_execute_outcome:
  assumes fresh: "pr_id p \<notin> row_proposal_id ` set (st_rows (app_store app))"
    and app': "app' = auto_execute S C I t p fault app"
  shows "app_policy app' = app_policy app
    \<and> (app_store app' = app_store app \<and> app_queue app' = app_queue app
       \<or> (\<exists>r env. st_rows (app_store app') = st_rows (app_store app) @ [r]
            \<and> row_decision r = Approved PolicyAuto \<and> row_command_id r = Some (env_command_id env)
            \<and> row_signature r = env_sig env \<and> env_agent_id env = pr_agent_id p
            \<and> app_queue app' = enqueue env (app_queue app)))"
proof (cases "build_command S C (in_command_id I) (in_nonce I) (in_issue_now I) p t (app_signer app) PolicyAuto (app_ttl app)")
  case (Inl err)
  then show ?thesis by (simp add: app' auto_execute_def)
next
  case (Inr env)
  show ?thesis
  proof (cases "store_is_duplicate S p (app_store app) \<or> \<not> in_db I")
    case True
    with Inr show ?thesis by (auto simp: app' auto_execute_def store_insert_auto_approved_def)
  next
    case False
    let ?r = "\<lparr>row_proposal_id = pr_id p, row_created_at = pr_created_at p, row_proposal = p,
      row_decision_state = ''approved'', row_decision = Approved PolicyAuto, row_command_id = Some (env_command_id env),
      row_signature = env_sig env, row_result = None, row_fault_signature = fault, row_updated_at = in_db_now I\<rparr>"
    have "st_rows (app_store app') = st_rows (app_store app) @ [?r]" "app_queue app' = enqueue env (app_queue app)"
      "app_policy app' = app_policy app"
      using False Inr fresh
      by (simp_all add: app' auto_execute_def store_insert_auto_approved_def db_insert_auto_approved_def insert_row_fresh)
    then show ?thesis using build_command_fields(2) [OF Inr] by (auto intro!: exI [of _ ?r] exI [of _ env])
  qed
qed



text \<open>
  Approvals one after the other issue one command. When an approval went through and the
  database recorded it, the row carries the command's id and signature, and a further approval of
  the same proposal finds nothing pending and issues nothing.
\<close>

theorem approval_is_once:
  assumes ok: "store_ok S (app_store app)" and "api_approve S C I pid r app = (ApprovedCommand cid, app')"
    and "in_update I"
  shows "api_approve S C I' pid r' app' = (NotFound, app')
     \<and> (\<exists>row\<in>set (st_rows (app_store app')). row_proposal_id row = pid \<and> row_command_id row = Some cid
          \<and> row_decision row = Approved (Human (role_user r) (in_approved_now I)))"
proof -
  obtain x app1 where x: "approve_begin S C I pid r app = (x, app1)" by fastforce
  have "x \<noteq> Inl (ApprovedCommand c)" for c
    using x by (auto simp: approve_begin_def split: option.splits sum.splits)
  then obtain env where env: "x = Inr env" using assms(2) x by (cases x) (auto simp: api_approve_def)
  with x have b: "approve_begin S C I pid r app = (Inr env, app1)" by simp
  have f: "app' = snd (approve_finish S I pid r env app1)" "cid = env_command_id env"
    using assms(2) b by (auto simp: api_approve_def approve_finish_def)
  from b obtain p where p: "store_pending_proposal (in_db I) pid (app_store app) = Some p"
    and st1: "app_store app1 = app_store app"
    by (auto simp: approve_begin_def split: option.splits sum.splits)
  let ?q = "db_approve_remediation (in_db_now I) pid (Approved (Human (role_user r) (in_approved_now I))) cid (env_sig env) (st_rows (app_store app))"
  have rows: "rows_ok (st_rows (app_store app))" using ok by (simp add: store_ok_def)
  have st': "st_rows (app_store app') = snd ?q"
    using assms(3) by (simp add: f st1 approve_finish_def store_approve_def Let_def split: prod.splits)
  have "pending_remediation_proposal pid (snd ?q) = None"
    unfolding pending_lookup [OF db_approve_ok [OF rows]] db_approve_pending [OF rows] by (simp add: find_None_iff)
  then have none: "api_approve S C I' pid r' app' = (NotFound, app')"
    by (simp add: api_approve_def approve_begin_def store_pending_proposal_def st')
  from p obtain row where row: "row \<in> set (st_rows (app_store app))" "row_proposal_id row = pid"
      "row_decision_state row = ''pending''"
    by (auto simp: store_pending_proposal_def pending_remediation_proposal_def split: if_splits dest!: find_SomeD)
  let ?row = "row\<lparr>row_decision_state := ''approved'', row_decision := Approved (Human (role_user r) (in_approved_now I)),
      row_command_id := Some cid, row_signature := env_sig env, row_updated_at := in_db_now I\<rparr>"
  have "?row \<in> set (snd ?q)"
    unfolding db_approve_remediation_def update_where_rows set_map
    by (rule image_eqI [of _ _ row]) (use row in simp_all)
  then have "\<exists>row\<in>set (snd ?q). row_proposal_id row = pid \<and> row_command_id row = Some cid
      \<and> row_decision row = Approved (Human (role_user r) (in_approved_now I))"
    by (rule bexI [rotated]) (use row in simp)
  with none st' show ?thesis by simp
qed

definition demo_pending_app :: "bool app_state" where
  "demo_pending_app = (demo_app Approve)\<lparr>app_store :=
     snd (store_insert demo_serde True 0 (demo_proposal 1) [] (store_new demo_serde []))\<rparr>"

lemma demo_pending_ok: "store_ok demo_serde (app_store demo_pending_app)"
proof -
  have "store_ok demo_serde (store_new demo_serde [])"
    by (rule store_new_ok) (simp_all add: rows_ok_def pending_keys_of_def pending_rows_def)
  then show ?thesis
    unfolding demo_pending_app_def by (simp add: store_insert_ok(1) fresh_proposal_def store_new_def)
qed

lemma demo_approve_begin:
  "\<exists>env app1. approve_begin demo_serde demo_crypto (demo_inputs i) 1 r demo_pending_app = (Inr env, app1)
     \<and> env_command_id env = i"
proof -
  have "store_pending_proposal True 1 (app_store demo_pending_app) = Some (demo_proposal 1)"
    by (simp add: demo_pending_app_def store_pending_proposal_def pending_remediation_proposal_def store_insert_def
        store_insert_commit_def store_is_duplicate_def store_new_def list_remediation_records_def
        db_insert_remediation_def insert_row_def demo_proposal_def)
  moreover have "registry_get (app_templates demo_pending_app) (pr_template_id (demo_proposal 1)) = Some demo_template"
    by (simp add: demo_pending_app_def demo_app_def registry_get_def demo_proposal_def demo_template_def)
  ultimately show ?thesis by (simp add: approve_begin_def demo_inputs_def demo_build)
qed

theorem approval_is_once_witness:
  "\<exists>app'. api_approve demo_serde demo_crypto (demo_inputs 5) 1 None demo_pending_app = (ApprovedCommand 5, app')
     \<and> api_approve demo_serde demo_crypto (demo_inputs 6) 1 None app' = (NotFound, app')"
proof -
  obtain env app1 where b: "approve_begin demo_serde demo_crypto (demo_inputs 5) 1 None demo_pending_app = (Inr env, app1)"
    "env_command_id env = 5" using demo_approve_begin by blast
  then obtain app' where a: "api_approve demo_serde demo_crypto (demo_inputs 5) 1 None demo_pending_app = (ApprovedCommand 5, app')"
    by (simp add: api_approve_def approve_finish_def)
  have "in_update (demo_inputs 5)" by (simp add: demo_inputs_def)
  from approval_is_once [OF demo_pending_ok a this] a show ?thesis by blast
qed

text \<open>
  Overlapping approvals issue two commands. The command is enqueued before the approval is
  recorded, so a second approval that starts in between succeeds as well, and both commands wait
  for the agent; and when recording fails, the first command stays queued while the proposal is
  still pending.
\<close>

theorem approval_race:
  assumes "approve_begin S C I pid r app = (Inr e1, app1)" "in_db I'"
  shows "\<exists>e2 app2. approve_begin S C I' pid r' app1 = (Inr e2, app2)
       \<and> env_command_id e1 = in_command_id I \<and> env_command_id e2 = in_command_id I'
       \<and> (\<exists>q. queued_for (app_queue app2) (agent_uuid (env_agent_id e1)) = q @ [e1, e2])
       \<and> snd (approve_finish S (I\<lparr>in_update := False\<rparr>) pid r e1 app1) = app1"
proof -
  from assms(1) obtain p t where p: "store_pending_proposal (in_db I) pid (app_store app) = Some p"
    and t: "registry_get (app_templates app) (pr_template_id p) = Some t"
    and b1: "build_command S C (in_command_id I) (in_nonce I) (in_issue_now I) p t (app_signer app)
        (Human (role_user r) (in_now I)) (app_ttl app) = Inr e1"
    and app1: "app1 = app\<lparr>app_queue := enqueue e1 (app_queue app)\<rparr>"
    by (auto simp: approve_begin_def split: option.splits sum.splits)
  from build_command_again [OF b1] obtain e2 where
    b2: "build_command S C (in_command_id I') (in_nonce I') (in_issue_now I') p t (app_signer app)
        (Human (role_user r') (in_now I')) (app_ttl app) = Inr e2" by blast
  have p': "store_pending_proposal (in_db I') pid (app_store app1) = Some p"
    using p assms(2) by (simp add: app1 store_pending_proposal_def split: if_splits)
  have "approve_begin S C I' pid r' app1 = (Inr e2, app1\<lparr>app_queue := enqueue e2 (app_queue app1)\<rparr>)"
    using p' t b2 by (simp add: approve_begin_def) (simp add: app1)
  moreover have "env_agent_id e2 = env_agent_id e1"
    using build_command_fields(2) [OF b1] build_command_fields(2) [OF b2] by simp
  then have "queued_for (enqueue e2 (enqueue e1 (app_queue app))) (agent_uuid (env_agent_id e1))
      = queued_for (app_queue app) (agent_uuid (env_agent_id e1)) @ [e1, e2]"
    by (simp add: queue.waiting_enq for_agent_def)
  moreover have "snd (approve_finish S (I\<lparr>in_update := False\<rparr>) pid r e1 app1) = app1"
    by (simp add: approve_finish_def store_approve_def Let_def)
  ultimately show ?thesis
    using build_command_fields(1) [OF b1] build_command_fields(1) [OF b2] by (auto simp: app1)
qed

theorem approval_race_witness:
  "\<exists>e1 app1 e2 app2. approve_begin demo_serde demo_crypto (demo_inputs 5) 1 None demo_pending_app = (Inr e1, app1)
     \<and> approve_begin demo_serde demo_crypto (demo_inputs 6) 1 None app1 = (Inr e2, app2)
     \<and> env_command_id e1 = 5 \<and> env_command_id e2 = 6"
proof -
  obtain e1 app1 where b: "approve_begin demo_serde demo_crypto (demo_inputs 5) 1 None demo_pending_app = (Inr e1, app1)"
    using demo_approve_begin by blast
  have "in_db (demo_inputs 6)" by (simp add: demo_inputs_def)
  from approval_race [OF b this, of None] b show ?thesis by (auto simp: demo_inputs_def)
qed

text \<open>
  A template that was loaded from disk and matched an event whose parameters resolve gives a
  command, or fails only because a value is not a Kubernetes identifier where one is needed: never
  for a missing value. The command's checks are read-only and it has at least one step.
\<close>

theorem loaded_template_builds:
  assumes "load_dir parse dir = Inr ts" "match_event ts ev = Some t" "resolve_params t ev = Inr ps" "pr_params p = ps"
  shows "case build_command S C cid nonce now p t signer approval ttl of
     Inr env \<Rightarrow> env_steps env \<noteq> [] \<and> list_all (\<lambda>c. is_read_only (cond_check c)) (env_preconditions env)
       \<and> (case env_verify env of None \<Rightarrow> True | Some v \<Rightarrow> is_read_only (vf_check v))
   | Inl err \<Rightarrow> (\<exists>field value. err \<in> {StepsError (InvalidKubeIdentifier field value),
       PreconditionsError (InvalidKubeIdentifier field value), VerifyFieldError (InvalidKubeIdentifier field value)})"
proof -
  have val: "validate t = Inr ()"
    using load_dir_valid [OF assms(1)] match_event_Some [OF assms(2)] by blast
  have dom: "dom (btree_get (pr_params p)) = fst ` set (tpl_parameters t)"
    using resolve_params_dom [OF assms(3)] assms(4) by simp
  show ?thesis
  proof (cases "build_command S C cid nonce now p t signer approval ttl")
    case (Inl err)
    from build_command_error [OF Inl] obtain c e where c: "c \<in> set (template_capabilities t)"
      "resolve c (pr_params p) = Inl e" "err \<in> {StepsError e, PreconditionsError e, VerifyFieldError e}" by blast
    have "set (placeholders_in_capability c) \<subseteq> dom (btree_get (pr_params p))"
      using val c(1) unfolding dom validate_Inr_iff by blast
    then have "e \<noteq> MissingValue n" for n using resolve_not_missing c(2) by metis
    then obtain f v where "e = InvalidKubeIdentifier f v" by (cases e) auto
    with c(3) have "err \<in> {StepsError (InvalidKubeIdentifier f v), PreconditionsError (InvalidKubeIdentifier f v),
        VerifyFieldError (InvalidKubeIdentifier f v)}" by simp
    then show ?thesis unfolding Inl sum.case by (intro exI)
  next
    case (Inr env)
    from Inr obtain pre steps vf where steps: "list_all2 (\<lambda>c c'. resolve c (pr_params p) = Inr c') (tpl_steps t) steps"
      and pre: "list_all2 (\<lambda>c c'. resolve_condition (pr_params p) c = Inr c') (tpl_preconditions t) pre"
      and vf: "resolve_verify (pr_params p) (tpl_verify t) = Inr vf"
      and env: "env_preconditions env = pre" "env_steps env = steps" "env_verify env = vf"
      by (auto elim!: build_commandE)
    have ro: "\<forall>c\<in>set (template_checks t). is_read_only c" "tpl_steps t \<noteq> []"
      using val unfolding validate_Inr_iff by auto
    have "is_read_only (cond_check c')" if mem: "c' \<in> set pre" for c'
    proof -
      obtain c where "c \<in> set (tpl_preconditions t)" "resolve_condition (pr_params p) c = Inr c'"
        using list_all2_in_set2 [OF pre mem] by blast
      then have "resolve (cond_check c) (pr_params p) = Inr (cond_check c')" "cond_check c \<in> set (template_checks t)"
        by (auto simp: resolve_condition_def template_checks_def split: sum.splits)
      with ro(1) resolve_is_read_only show ?thesis by blast
    qed
    moreover have "case vf of None \<Rightarrow> True | Some v \<Rightarrow> is_read_only (vf_check v)"
      using vf ro(1) by (auto simp: resolve_verify_def template_checks_def dest: resolve_is_read_only split: option.splits sum.splits)
    moreover have "steps \<noteq> []" using steps ro(2) by auto
    ultimately show ?thesis by (simp add: Inr env list_all_iff)
  qed
qed

theorem loaded_template_builds_witness:
  "\<exists>ts. load_dir (\<lambda>_. Inr demo_template) (Dir [Some (True, Some [])]) = Inr ts
     \<and> (\<exists>env. build_command demo_serde demo_crypto 1 1 0 ((demo_proposal 1)\<lparr>pr_params := []\<rparr>) demo_template
           (app_signer (demo_app Auto)) PolicyAuto 300 = Inr env \<and> env_steps env \<noteq> [])"
proof -
  have "validate demo_template = Inr ()"
    unfolding validate_Inr_iff by (simp add: demo_template_def template_checks_def template_capabilities_def)
  moreover have "validate_template_paths demo_template = Inr ()"
    unfolding validate_template_paths_Inr by (simp add: demo_template_def)
  ultimately have l: "load_dir (\<lambda>_. Inr demo_template) (Dir [Some (True, Some [])]) = Inr [demo_template]"
    by (simp add: load_dir_def)
  have m: "match_event [demo_template] demo_event = Some demo_template"
    using demo_match [of Auto] by (simp add: demo_app_def)
  obtain env where env: "build_command demo_serde demo_crypto 1 1 0 ((demo_proposal 1)\<lparr>pr_params := []\<rparr>) demo_template
      (app_signer (demo_app Auto)) PolicyAuto 300 = Inr env"
    unfolding demo_build by blast
  have "pr_params ((demo_proposal 1)\<lparr>pr_params := []\<rparr>) = []" by simp
  from loaded_template_builds [OF l m demo_resolve this, of demo_serde demo_crypto 1 1 0
      "app_signer (demo_app Auto)" PolicyAuto 300] env l
  show ?thesis by auto
qed

text \<open>
  The paths accepted when templates are loaded are exactly the paths that some event has a
  value for: a path outside the table never yields a value, and no path of the table is dead.
\<close>

theorem event_paths_exact: "validate_event_path path \<longleftrightarrow> (\<exists>e v. event_field e path = Some v)"
proof
  assume "\<exists>e v. event_field e path = Some v"
  then show "validate_event_path path" using event_field_path by blast
next
  let ?ev = "\<lambda>p. \<lparr>ev_id = 1, ev_occurred_at = 0, ev_observed_at = 0, ev_agent_id = AgentId 1, ev_host = [],
      ev_severity = Error, ev_title = [], ev_category_hints = [], ev_payload = p\<rparr>"
  let ?ps = "[FailedUnit \<lparr>fu_unit = [], fu_result = [], fu_recent_log = [], fu_extra = []\<rparr>,
      Journald \<lparr>jd_unit = None, jd_priority = None, jd_message = [], jd_extra = []\<rparr>,
      ConfigDrift \<lparr>cd_path = [], cd_old_hash = Some [], cd_new_hash = [], cd_diff = Some [], cd_extra = []\<rparr>,
      Auth \<lparr>au_action = [], au_user = Some [], au_remote_addr = Some [], au_succeeded = True, au_extra = []\<rparr>,
      Update \<lparr>up_mechanism = [], up_from = Some [], up_to = Some [], up_changes = [], up_extra = []\<rparr>,
      KubeWorkload \<lparr>kw_namespace = [], kw_object_kind = [], kw_name = [], kw_reason = [], kw_message = None,
        kw_count = None, kw_container = Some [], kw_extra = []\<rparr>,
      KubeNode \<lparr>kn_node = [], kn_condition = [], kn_message = None, kn_extra = []\<rparr>]"
  have "list_all (\<lambda>q. list_ex (\<lambda>p. event_field (?ev p) q \<noteq> None) ?ps) event_paths" by code_simp
  moreover assume "validate_event_path path"
  ultimately have "list_ex (\<lambda>p. event_field (?ev p) path \<noteq> None) ?ps"
    by (simp add: validate_event_path_def list_all_iff)
  then show "\<exists>e v. event_field e path = Some v" by (auto simp: list_ex_iff)
qed

end
