(* ===== verification/Agent_Remediation.thy ===== *)
theory Agent_Remediation
  imports Host_Actuator
begin

text \<open>
  \<^verbatim>\<open>crates/ravn-agent/src/remediation.rs\<close>: the unprivileged agent. It pins a keyring, keeps a
  ledger of command ids on disk, checks each pulled command, records its id before handing it to
  the actuator, reports the result, and adapts its polling to failures. The ledger file is its
  bytes, so a write that stops half way is an input of the model; the reply of the actuator and of
  the control plane are inputs too.
\<close>

section \<open>The pinned keyring\<close>

text \<open>\<open>None\<close> for a file that is absent or unreadable.\<close>

definition load_pinned_keyring ::
  "serde \<Rightarrow> ('sk, 'vk) crypto \<Rightarrow> string option \<Rightarrow> string option \<Rightarrow> 'vk keyring option" where
  "load_pinned_keyring S C keyring_file pubkey_file =
     (case Option.bind keyring_file (\<lambda>json. case keyring_from_json S C json of
             Inr ring \<Rightarrow> if \<not> keyring_is_empty ring then Some ring else None
           | Inl _ \<Rightarrow> None) of
        Some ring \<Rightarrow> Some ring
      | None \<Rightarrow>
          (case pubkey_file of
             None \<Rightarrow> None
           | Some b64 \<Rightarrow>
               (case verifying_key_from_b64 C b64 of
                  Inr k \<Rightarrow> Some (keyring_single C k)
                | Inl _ \<Rightarrow> None)))"

text \<open>Write-temp-then-rename: the keyring file afterwards, unchanged if the write fails.\<close>

definition persist_keyring :: "bool \<Rightarrow> string \<Rightarrow> string option \<Rightarrow> string option" where
  "persist_keyring io json file = (if io then Some json else file)"

text \<open>\<open>fetched\<close> is the text of the keyring endpoint, \<open>None\<close> when the request fails.\<close>

definition refresh_keyring ::
  "serde \<Rightarrow> ('sk, 'vk) crypto \<Rightarrow> string option \<Rightarrow> bool \<Rightarrow> 'vk keyring \<times> string option
     \<Rightarrow> 'vk keyring \<times> string option" where
  "refresh_keyring S C fetched io rf =
     (case fetched of
        None \<Rightarrow> rf
      | Some json \<Rightarrow>
          (case keyring_from_json S C json of
             Inl _ \<Rightarrow> rf
           | Inr ring \<Rightarrow>
               if keyring_is_empty ring \<or> \<not> keyring_changed (fst rf) ring then rf
               else (ring, persist_keyring io json (snd rf))))"

section \<open>The ledger\<close>

record ledger =
  lg_file :: string
  lg_seen :: "uuid set"

definition ledger_ids :: "serde \<Rightarrow> string \<Rightarrow> uuid set" where
  "ledger_ids S contents = set (List.map_filter (\<lambda>l. sd_uuid_parse S (trim l)) (str_lines contents))"

text \<open>
  \<open>Ledger::load\<close> on the bytes of the file (none when it does not exist yet); a file that cannot
  be read is taken for an empty one.
\<close>

definition ledger_load :: "serde \<Rightarrow> bool \<Rightarrow> string \<Rightarrow> ledger" where
  "ledger_load S readable contents =
     \<lparr>lg_file = contents, lg_seen = (if readable then ledger_ids S contents else {})\<rparr>"

definition ledger_contains :: "uuid \<Rightarrow> ledger \<Rightarrow> bool" where
  "ledger_contains i l \<longleftrightarrow> i \<in> lg_seen l"

text \<open>
  What the file system does with an append: all of it, only the first bytes before an error, or
  nothing because the file cannot be opened.
\<close>

datatype append_outcome = AppendAll | AppendTorn nat | OpenFails

definition ledger_line :: "serde \<Rightarrow> uuid \<Rightarrow> string" where
  "ledger_line S i = sd_uuid S i @ [CHR 0x0A]"

definition ledger_record :: "serde \<Rightarrow> append_outcome \<Rightarrow> uuid \<Rightarrow> ledger \<Rightarrow> bool \<times> ledger" where
  "ledger_record S w i l =
     (if i \<in> lg_seen l then (True, l)
      else
        let l1 = l\<lparr>lg_seen := insert i (lg_seen l)\<rparr>
        in case w of
             AppendAll \<Rightarrow> (True, l1\<lparr>lg_file := lg_file l @ ledger_line S i\<rparr>)
           | AppendTorn n \<Rightarrow> (False, l1\<lparr>lg_file := lg_file l @ take n (ledger_line S i)\<rparr>)
           | OpenFails \<Rightarrow> (False, l1))"

section \<open>Processing one command\<close>

definition agent_result :: "uuid \<Rightarrow> action_status \<Rightarrow> detail \<Rightarrow> datetime \<Rightarrow> action_result" where
  "agent_result i st d now =
     \<lparr>res_command_id = i, res_status = st, res_detail = Some d, res_observed_state = None,
      res_finished_at = now\<rparr>"

text \<open>
  \<open>send_to_actuator\<close>: the reply to the written line is a connection error or a line (empty at end
  of file). The wire form of envelopes and results is serde's.
\<close>

record result_codec =
  rc_print :: "envelope \<Rightarrow> string"
  rc_parse :: "string \<Rightarrow> string + action_result"

definition send_to_actuator ::
  "result_codec \<Rightarrow> (string \<Rightarrow> string + string) \<Rightarrow> envelope
     \<Rightarrow> string + action_result" where
  "send_to_actuator P socket env =
     (case socket (rc_print P env @ [CHR 0x0A]) of
        Inl e \<Rightarrow> Inl e
      | Inr line \<Rightarrow> rc_parse P (trim line))"

text \<open>
  \<open>process_command\<close>: the result to report, the new ledger, and whether \<open>send\<close> was called.
  \<open>now\<close> is the caller's reading of the clock and \<open>fin\<close> the one made when a result is built.
\<close>

definition process_command ::
  "serde \<Rightarrow> ('sk, 'vk) crypto \<Rightarrow> append_outcome \<Rightarrow> (envelope \<Rightarrow> string + action_result) \<Rightarrow> datetime
     \<Rightarrow> datetime \<Rightarrow> 'vk keyring \<Rightarrow> envelope \<Rightarrow> ledger \<Rightarrow> action_result option \<times> bool \<times> ledger" where
  "process_command S C w send now fin ring env l =
     (if ledger_contains (env_command_id env) l then (None, False, l)
      else case verify_envelope_with S C ring env now of
             Inl e \<Rightarrow> (Some (agent_result (env_command_id env) Rejected (DText (verify_error_display e)) fin), False, l)
           | Inr _ \<Rightarrow>
               (case ledger_record S w (env_command_id env) l of
                  (False, l1) \<Rightarrow> (None, False, l1)
                | (True, l1) \<Rightarrow>
                    (case send env of
                       Inr r \<Rightarrow> (Some r, True, l1)
                     | Inl e \<Rightarrow> (Some (agent_result (env_command_id env) Failed (DDispatchFailed e) fin), True, l1))))"

section \<open>Polling\<close>

text \<open>One pulled envelope with the behaviour of the ledger file, the actuator socket and the clock while
  it is processed.\<close>

record delivery =
  dl_env :: envelope
  dl_now :: datetime
  dl_finished :: datetime
  dl_append :: append_outcome
  dl_socket :: "string \<Rightarrow> string + string"

record 'vk agent_state =
  ag_ring :: "'vk keyring"
  ag_keyring_file :: "string option"
  ag_ledger :: ledger
  ag_dispatched :: "uuid list"
  ag_reports :: "action_result list"

definition process_delivery ::
  "serde \<Rightarrow> ('sk, 'vk) crypto \<Rightarrow> result_codec \<Rightarrow> delivery \<Rightarrow> 'vk agent_state \<Rightarrow> 'vk agent_state" where
  "process_delivery S C P d a =
     (case process_command S C (dl_append d) (send_to_actuator P (dl_socket d)) (dl_now d) (dl_finished d) (ag_ring a) (dl_env d) (ag_ledger a) of
        (out, sent, l) \<Rightarrow>
          a\<lparr>ag_ledger := l,
            ag_dispatched := ag_dispatched a @ (if sent then [env_command_id (dl_env d)] else []),
            ag_reports := ag_reports a @ (case out of None \<Rightarrow> [] | Some r \<Rightarrow> [r])\<rparr>)"

text \<open>\<open>poll_once\<close>: \<open>Inl\<close> when the pull fails; reporting errors are only logged.\<close>

definition poll_once ::
  "serde \<Rightarrow> ('sk, 'vk) crypto \<Rightarrow> result_codec \<Rightarrow> string + delivery list \<Rightarrow> 'vk agent_state \<Rightarrow> (string + unit) \<times> 'vk agent_state" where
  "poll_once S C P pulled a =
     (case pulled of
        Inl e \<Rightarrow> (Inl e, a)
      | Inr ds \<Rightarrow> (Inr (), fold (process_delivery S C P) ds a))"

subsection \<open>Backoff and circuit breaker\<close>

definition min_poll_secs :: u64 where "min_poll_secs = 5"
definition backoff_multiplier :: u32 where "backoff_multiplier = 2"
definition max_backoff_secs :: u64 where "max_backoff_secs = 300"
definition circuit_open_threshold :: u32 where "circuit_open_threshold = 5"
definition circuit_open_secs :: u64 where "circuit_open_secs = 60"

record poll_state =
  ps_consecutive_errors :: u32
  ps_backoff_secs :: u64
  ps_base_poll_secs :: u64

definition poll_state_new :: "u64 \<Rightarrow> poll_state" where
  "poll_state_new secs = \<lparr>ps_consecutive_errors = 0, ps_backoff_secs = secs, ps_base_poll_secs = secs\<rparr>"

definition record_success :: "poll_state \<Rightarrow> poll_state" where
  "record_success st = st\<lparr>ps_consecutive_errors := 0, ps_backoff_secs := ps_base_poll_secs st\<rparr>"

definition saturating_mul :: "u64 \<Rightarrow> u64 \<Rightarrow> u64" where
  "saturating_mul a b = (if unat a * unat b < 2 ^ 64 then a * b else - 1)"

definition backoff_raw :: "poll_state \<Rightarrow> u64" where
  "backoff_raw st =
     (let exponent = min (ps_consecutive_errors st - 1) 31
      in min (saturating_mul (ps_base_poll_secs st) (ucast (backoff_multiplier ^ unat exponent))) max_backoff_secs)"

text \<open>The random draw \<open>gen_range(0..=raw)\<close> is \<open>pick\<close> applied to the bound.\<close>

definition record_error :: "(u64 \<Rightarrow> u64) \<Rightarrow> poll_state \<Rightarrow> (u64 \<times> bool) \<times> poll_state" where
  "record_error pick st =
     (let st1 = st\<lparr>ps_consecutive_errors := ps_consecutive_errors st + 1\<rparr>;
          st2 = st1\<lparr>ps_backoff_secs := max (pick (backoff_raw st1)) 1\<rparr>
      in ((ps_backoff_secs st2, ps_consecutive_errors st2 = circuit_open_threshold), st2))"

definition circuit_is_open :: "poll_state \<Rightarrow> bool" where
  "circuit_is_open st \<longleftrightarrow> circuit_open_threshold \<le> ps_consecutive_errors st"

definition poll_delay :: "poll_state \<Rightarrow> u64" where
  "poll_delay st = (if circuit_is_open st then circuit_open_secs else ps_backoff_secs st)"

definition initial_poll_state :: "u64 \<Rightarrow> poll_state" where
  "initial_poll_state poll_secs = poll_state_new (max poll_secs min_poll_secs)"

text \<open>One turn of \<open>run\<close>: the time slept, then the refresh, the poll and its bookkeeping.\<close>

definition agent_turn ::
  "serde \<Rightarrow> ('sk, 'vk) crypto \<Rightarrow> result_codec \<Rightarrow> (u64 \<Rightarrow> u64) \<Rightarrow> string option \<Rightarrow> bool \<Rightarrow> string + delivery list
     \<Rightarrow> 'vk agent_state \<times> poll_state \<Rightarrow> u64 \<times> 'vk agent_state \<times> poll_state" where
  "agent_turn S C P pick fetched io pulled ap =
     (let (a, p) = ap;
          (ring, file) = refresh_keyring S C fetched io (ag_ring a, ag_keyring_file a);
          (res, a2) = poll_once S C P pulled (a\<lparr>ag_ring := ring, ag_keyring_file := file\<rparr>)
      in (poll_delay p, a2, (case res of Inr _ \<Rightarrow> record_success p | Inl _ \<Rightarrow> snd (record_error pick p))))"

section \<open>The ledger on disk\<close>

text \<open>The file after complete writes of some ids.\<close>

definition ledger_text :: "serde \<Rightarrow> uuid list \<Rightarrow> string" where
  "ledger_text S ids = concat (map (ledger_line S) ids)"

lemma uuid_text_plain:
  assumes "serde_ok S"
  shows "CHR 0x0A \<notin> set (sd_uuid S i)" "CHR 0x0D \<notin> set (sd_uuid S i)" "trim (sd_uuid S i) = sd_uuid S i"
proof -
  have plain: "\<forall>c\<in>set (sd_uuid S i). plain_char c" using assms by (simp add: serde_ok_def)
  have "\<not> plain_char (CHR 0x0A)" "\<not> plain_char (CHR 0x0D)" by (simp_all add: char_class_defs)
  with plain show "CHR 0x0A \<notin> set (sd_uuid S i)" "CHR 0x0D \<notin> set (sd_uuid S i)" by blast+
  from plain show "trim (sd_uuid S i) = sd_uuid S i" by (intro trim_all_plain) blast
qed

lemma ledger_ids_text:
  assumes "serde_ok S"
  shows "ledger_ids S (ledger_text S ids) = set ids"
proof -
  have "ledger_line S = (\<lambda>i. sd_uuid S i @ [CHR 0x0A])" by (simp add: fun_eq_iff ledger_line_def)
  then have "str_lines (ledger_text S ids) = map (sd_uuid S) ids"
    using str_lines_unlines [of "map (sd_uuid S) ids"] uuid_text_plain [OF assms]
    by (auto simp: ledger_text_def comp_def)
  moreover have "List.map_filter (\<lambda>l. sd_uuid_parse S (trim l)) (map (sd_uuid S) ids) = ids"
    by (induction ids) (simp_all add: uuid_text_plain [OF assms] serde_okD(5) [OF assms])
  ultimately show ?thesis by (simp add: ledger_ids_def)
qed

end
