(* ===== verification/Agent_Props.thy ===== *)
theory Agent_Props
  imports Agent_Remediation Crypto_Props
begin

text \<open>
  Properties of the agent's pull loop: when a command reaches the actuator, that it does so at most
  once across restarts, how that depends on whole ledger writes, and the bounds of the polling
  delay.
\<close>

section \<open>One command\<close>

definition whole_append :: "append_outcome \<Rightarrow> bool" where
  "whole_append w \<longleftrightarrow> w = AppendAll"

lemma ledger_record_fresh:
  assumes "i \<notin> lg_seen l"
  shows "fst (ledger_record S w i l) \<longleftrightarrow> whole_append w"
    "lg_seen (snd (ledger_record S w i l)) = insert i (lg_seen l)"
    "whole_append w \<Longrightarrow> lg_file (snd (ledger_record S w i l)) = lg_file l @ ledger_line S i"
  using assms by (cases w; simp add: ledger_record_def whole_append_def)+

definition dispatches :: "serde \<Rightarrow> ('sk, 'vk) crypto \<Rightarrow> 'vk keyring \<Rightarrow> ledger \<Rightarrow> delivery \<Rightarrow> bool" where
  "dispatches S C ring l d \<longleftrightarrow>
     env_command_id (dl_env d) \<notin> lg_seen l
     \<and> verify_envelope_with S C ring (dl_env d) (dl_now d) = Inr ()
     \<and> whole_append (dl_append d)"

lemma process_command_sent:
  "fst (snd (process_command S C (dl_append d) send (dl_now d) fin ring (dl_env d) l)) \<longleftrightarrow> dispatches S C ring l d"
  using ledger_record_fresh(1) [of "env_command_id (dl_env d)" l S "dl_append d"]
  by (auto simp: process_command_def dispatches_def ledger_contains_def
      split: sum.splits prod.splits bool.splits)

lemma process_command_ledger:
  "snd (snd (process_command S C w send now fin ring env l)) =
     (if env_command_id env \<in> lg_seen l \<or> verify_envelope_with S C ring env now \<noteq> Inr () then l
      else snd (ledger_record S w (env_command_id env) l))"
  by (auto simp: process_command_def ledger_contains_def split: sum.splits prod.splits bool.splits)

lemma process_delivery_fields:
  "ag_ring (process_delivery S C P d a) = ag_ring a"
  "ag_keyring_file (process_delivery S C P d a) = ag_keyring_file a"
  "ag_dispatched (process_delivery S C P d a) =
     ag_dispatched a @ (if dispatches S C (ag_ring a) (ag_ledger a) d then [env_command_id (dl_env d)] else [])"
  "ag_ledger (process_delivery S C P d a) =
     (if env_command_id (dl_env d) \<in> lg_seen (ag_ledger a)
         \<or> verify_envelope_with S C (ag_ring a) (dl_env d) (dl_now d) \<noteq> Inr () then ag_ledger a
      else snd (ledger_record S (dl_append d) (env_command_id (dl_env d)) (ag_ledger a)))"
proof -
  let ?pc = "process_command S C (dl_append d) (send_to_actuator P (dl_socket d)) (dl_now d) (dl_finished d)
    (ag_ring a) (dl_env d) (ag_ledger a)"
  obtain r s l where pc: "?pc = (r, s, l)" by (cases ?pc)
  have s: "s \<longleftrightarrow> dispatches S C (ag_ring a) (ag_ledger a) d"
    using process_command_sent [of S C d "send_to_actuator P (dl_socket d)" "dl_finished d" "ag_ring a" "ag_ledger a"]
    by (simp add: pc)
  have l: "l = (if env_command_id (dl_env d) \<in> lg_seen (ag_ledger a)
         \<or> verify_envelope_with S C (ag_ring a) (dl_env d) (dl_now d) \<noteq> Inr () then ag_ledger a
      else snd (ledger_record S (dl_append d) (env_command_id (dl_env d)) (ag_ledger a)))"
    using process_command_ledger [of S C "dl_append d" "send_to_actuator P (dl_socket d)" "dl_now d" "dl_finished d"
        "ag_ring a" "dl_env d" "ag_ledger a"] by (simp add: pc)
  show "ag_ring (process_delivery S C P d a) = ag_ring a"
    "ag_keyring_file (process_delivery S C P d a) = ag_keyring_file a"
    by (simp_all add: process_delivery_def pc)
  show "ag_dispatched (process_delivery S C P d a) =
     ag_dispatched a @ (if dispatches S C (ag_ring a) (ag_ledger a) d then [env_command_id (dl_env d)] else [])"
    unfolding process_delivery_def pc by (simp add: s)
  show "ag_ledger (process_delivery S C P d a) =
     (if env_command_id (dl_env d) \<in> lg_seen (ag_ledger a)
         \<or> verify_envelope_with S C (ag_ring a) (dl_env d) (dl_now d) \<noteq> Inr () then ag_ledger a
      else snd (ledger_record S (dl_append d) (env_command_id (dl_env d)) (ag_ledger a)))"
    unfolding process_delivery_def pc by (simp add: l)
qed

section \<open>The agent as a transition system\<close>

text \<open>
  What can happen to an agent: a pulled command, a keyring refresh, and a restart that reloads the
  ledger and the keyring from disk. \<open>w\<close> says which ledger writes the file system may make.
\<close>

definition agent_restart :: "serde \<Rightarrow> bool \<Rightarrow> 'vk keyring \<Rightarrow> 'vk agent_state \<Rightarrow> 'vk agent_state" where
  "agent_restart S readable ring a =
     a\<lparr>ag_ring := ring, ag_ledger := ledger_load S readable (lg_file (ag_ledger a))\<rparr>"

inductive agent_step ::
  "serde \<Rightarrow> ('sk, 'vk) crypto \<Rightarrow> result_codec \<Rightarrow> (append_outcome \<Rightarrow> bool) \<Rightarrow> 'vk agent_state \<Rightarrow> 'vk agent_state \<Rightarrow> bool"
  for S C P w where
  Deliver: "w (dl_append d) \<Longrightarrow> agent_step S C P w a (process_delivery S C P d a)"
| Refresh: "refresh_keyring S C fetched io (ag_ring a, ag_keyring_file a) = (ring, kf) \<Longrightarrow>
    agent_step S C P w a (a\<lparr>ag_ring := ring, ag_keyring_file := kf\<rparr>)"
| Restart: "load_pinned_keyring S C (ag_keyring_file a) pubkey = Some ring \<Longrightarrow>
    agent_step S C P w a (agent_restart S True ring a)"

definition agent_init :: "serde \<Rightarrow> 'vk agent_state \<Rightarrow> bool" where
  "agent_init S a \<longleftrightarrow> ag_ledger a = ledger_load S True [] \<and> ag_dispatched a = []"

definition agent_inv :: "serde \<Rightarrow> 'vk agent_state \<Rightarrow> bool" where
  "agent_inv S a \<longleftrightarrow>
     distinct (ag_dispatched a)
     \<and> (\<exists>ids. lg_file (ag_ledger a) = ledger_text S ids
              \<and> set (ag_dispatched a) \<subseteq> set ids \<and> set ids \<subseteq> lg_seen (ag_ledger a))"

definition untorn :: "append_outcome \<Rightarrow> bool" where
  "untorn w \<longleftrightarrow> w = AppendAll \<or> w = OpenFails"

lemma ledger_text_snoc: "ledger_text S ids @ ledger_line S i = ledger_text S (ids @ [i])"
  by (simp add: ledger_text_def)

lemma agent_inv_deliver:
  assumes inv: "agent_inv S a" and w: "untorn (dl_append d)"
  shows "agent_inv S (process_delivery S C P d a)"
proof -
  let ?i = "env_command_id (dl_env d)" and ?l = "ag_ledger a"
  from inv obtain ids where ids: "distinct (ag_dispatched a)" "lg_file ?l = ledger_text S ids"
      "set (ag_dispatched a) \<subseteq> set ids" "set ids \<subseteq> lg_seen ?l"
    unfolding agent_inv_def by blast
  show ?thesis
  proof (cases "?i \<in> lg_seen ?l \<or> verify_envelope_with S C (ag_ring a) (dl_env d) (dl_now d) \<noteq> Inr ()")
    case True
    then have "\<not> dispatches S C (ag_ring a) ?l d" by (auto simp: dispatches_def)
    with True inv show ?thesis by (simp add: agent_inv_def process_delivery_fields)
  next
    case False
    note rec = ledger_record_fresh [where i = ?i and l = ?l and S = S and w = "dl_append d"]
    from w show ?thesis unfolding untorn_def
    proof
      assume w: "dl_append d = AppendAll"
      with False have "dispatches S C (ag_ring a) ?l d" by (simp add: dispatches_def whole_append_def)
      moreover have "lg_file (snd (ledger_record S AppendAll ?i ?l)) = ledger_text S (ids @ [?i])"
        using rec(3) w False ids(2) by (simp add: whole_append_def ledger_text_snoc)
      ultimately show ?thesis using False ids rec(2) w
        by (auto simp: agent_inv_def process_delivery_fields intro!: exI [of _ "ids @ [?i]"])
    next
      assume w: "dl_append d = OpenFails"
      then have "\<not> dispatches S C (ag_ring a) ?l d" by (simp add: dispatches_def whole_append_def)
      moreover have "lg_file (snd (ledger_record S OpenFails ?i ?l)) = lg_file ?l"
        by (simp add: ledger_record_def)
      ultimately show ?thesis using False ids rec(2) w
        by (auto simp: agent_inv_def process_delivery_fields intro!: exI [of _ ids])
    qed
  qed
qed

lemma agent_inv_step:
  assumes "serde_ok S" "agent_inv S a" "agent_step S C P untorn a a'"
  shows "agent_inv S a'"
  using assms(3,2)
proof cases
  case (Deliver d)
  with assms show ?thesis by (simp add: agent_inv_deliver)
next
  case (Restart pubkey ring)
  with assms show ?thesis
    by (auto simp: agent_inv_def agent_restart_def ledger_load_def ledger_ids_text)
qed (auto simp: agent_inv_def)

interpretation agent: transition_invariant
  "\<lambda>a. serde_ok S \<and> agent_init S a" "agent_step S C P untorn" "\<lambda>a. serde_ok S \<and> agent_inv S a"
  for S :: serde and C :: "('sk, 'vk) crypto" and P :: result_codec
proof
  fix a :: "'vk agent_state"
  assume "serde_ok S \<and> agent_init S a"
  then show "serde_ok S \<and> agent_inv S a"
    by (auto simp: agent_init_def agent_inv_def ledger_load_def ledger_text_def intro!: exI [of _ "[]"])
qed (auto intro: agent_inv_step)

section \<open>At most once\<close>



text \<open>A concrete agent: one trusted key, an empty ledger, and a command signed with that key.\<close>

definition demo_signed :: "uuid \<Rightarrow> envelope" where
  "demo_signed i = sign_envelope demo_serde demo_crypto True (demo_envelope\<lparr>env_command_id := i\<rparr>)"

definition demo_delivery :: "append_outcome \<Rightarrow> envelope \<Rightarrow> delivery" where
  "demo_delivery w env = \<lparr>dl_env = env, dl_now = 100, dl_finished = 101, dl_append = w, dl_socket = \<lambda>_. Inl ''down''\<rparr>"

definition demo_codec :: result_codec where
  "demo_codec = \<lparr>rc_print = signing_payload demo_serde, rc_parse = \<lambda>_. Inl ''no result''\<rparr>"

definition demo_agent :: "bool agent_state" where
  "demo_agent =
     \<lparr>ag_ring = keyring_single demo_crypto True, ag_keyring_file = None, ag_ledger = ledger_load demo_serde True [],
      ag_dispatched = [], ag_reports = []\<rparr>"

lemma demo_signed_id [simp]: "env_command_id (demo_signed i) = i"
  by (simp add: demo_signed_def sign_envelope_def Let_def)

lemma demo_signed_verifies [simp]:
  "verify_envelope_with demo_serde demo_crypto (keyring_single demo_crypto True) (demo_signed i) 100 = Inr ()"
proof -
  have "verifying_key demo_crypto True = True" by (simp add: demo_crypto_def)
  then have "authentic demo_serde demo_crypto (keyring_single demo_crypto True) (demo_signed i) 100"
    unfolding demo_signed_def
    by (intro sign_envelope_authentic) (simp_all add: demo_crypto_ok keyring_get_single demo_envelope_def)
  then show ?thesis by (simp add: verify_envelope_with_Inr)
qed

lemma demo_agent_fields:
  "ag_ring demo_agent = keyring_single demo_crypto True" "ag_ledger demo_agent = ledger_load demo_serde True []"
  "lg_seen (ledger_load demo_serde True []) = {}" "ag_dispatched demo_agent = []"
  "dl_env (demo_delivery w env) = env" "dl_now (demo_delivery w env) = 100" "dl_append (demo_delivery w env) = w"
  by (simp_all add: demo_agent_def demo_delivery_def ledger_load_def ledger_ids_def str_lines_def)

lemma demo_agent_dispatches:
  "ag_dispatched (process_delivery demo_serde demo_crypto P (demo_delivery AppendAll (demo_signed i)) demo_agent) = [i]"
  by (simp add: process_delivery_fields dispatches_def demo_agent_fields whole_append_def)


text \<open>
  The proviso is needed. If the append for one command stops part way, the next command's id
  is written on the same line; when the joined text is not that id, a restart forgets it, and the
  same envelope, still unexpired, reaches the actuator a second time.
\<close>

theorem torn_ledger_repeats:
  assumes "serde_ok S" and "ag_ledger a = ledger_load S True []" and "ag_dispatched a = []"
    and "env_command_id (dl_env d) \<noteq> env_command_id (dl_env e)"
    and "verify_envelope_with S C (ag_ring a) (dl_env d) (dl_now d) = Inr ()"
    and "verify_envelope_with S C (ag_ring a) (dl_env e) (dl_now e) = Inr ()"
    and "dl_append d = AppendTorn n" and "dl_append e = AppendAll"
    and "n \<le> length (sd_uuid S (env_command_id (dl_env d)))"
    and "sd_uuid_parse S (take n (sd_uuid S (env_command_id (dl_env d))) @ sd_uuid S (env_command_id (dl_env e)))
           \<noteq> Some (env_command_id (dl_env e))"
  shows "let a2 = process_delivery S C P e (process_delivery S C P d a);
             a3 = process_delivery S C P e (agent_restart S True (ag_ring a) a2)
         in ag_dispatched a3 = [env_command_id (dl_env e), env_command_id (dl_env e)]"
proof -
  let ?i = "env_command_id (dl_env d)" and ?j = "env_command_id (dl_env e)"
  let ?torn = "take n (sd_uuid S ?i)" and ?a1 = "process_delivery S C P d a"
  let ?a2 = "process_delivery S C P e ?a1"
  have empty: "lg_seen (ag_ledger a) = {}" "lg_file (ag_ledger a) = []"
    using assms(2) by (simp_all add: ledger_load_def ledger_ids_def str_lines_def)
  have a1: "ag_dispatched ?a1 = []" "lg_seen (ag_ledger ?a1) = {?i}" "lg_file (ag_ledger ?a1) = ?torn"
    using assms(3,5,7,9) empty
    by (simp_all add: process_delivery_fields dispatches_def whole_append_def ledger_record_def ledger_line_def Let_def)
  have a2: "ag_dispatched ?a2 = [?j]" "lg_file (ag_ledger ?a2) = (?torn @ sd_uuid S ?j) @ [CHR 0x0A]"
    using assms(4,6,8) a1 process_delivery_fields(1) [of S C P d a]
    by (simp_all add: process_delivery_fields(2-4) [of S C P e] dispatches_def whole_append_def ledger_record_def
        ledger_line_def Let_def del: process_delivery_fields)
  have plain: "plain_char c" if "c \<in> set (?torn @ sd_uuid S ?j)" for c
    using that assms(1) by (auto simp: serde_ok_def dest: in_set_takeD)
  have "\<not> plain_char (CHR 0x0A)" "\<not> plain_char (CHR 0x0D)" by (simp_all add: char_class_defs)
  with plain have "str_lines ((?torn @ sd_uuid S ?j) @ [CHR 0x0A]) = [?torn @ sd_uuid S ?j]"
    using str_lines_unlines [of "[?torn @ sd_uuid S ?j]"] by auto
  moreover have "trim (?torn @ sd_uuid S ?j) = ?torn @ sd_uuid S ?j" by (rule trim_all_plain) (rule plain)
  ultimately have "?j \<notin> ledger_ids S (lg_file (ag_ledger ?a2))"
    using assms(10) unfolding a2(2)
    by (auto simp: ledger_ids_def map_filter_def split: option.splits if_splits)
  then show ?thesis
    using assms(6,8) a2(1)
    by (simp add: Let_def agent_restart_def ledger_load_def process_delivery_fields(3) dispatches_def whole_append_def)
qed

lemma demo_torn_id: "sd_uuid_parse demo_serde (take 1 (sd_uuid demo_serde 1) @ sd_uuid demo_serde 2) \<noteq> Some 2"
  by (simp add: demo_serde_def)

theorem torn_ledger_repeats_witness:
  "let d = demo_delivery (AppendTorn 1) (demo_signed 1); e = demo_delivery AppendAll (demo_signed 2);
       p = process_delivery demo_serde demo_crypto demo_codec;
       a2 = p e (p d demo_agent);
       a3 = p e (agent_restart demo_serde True (ag_ring demo_agent) a2)
   in ag_dispatched a3 = [2, 2]"
proof -
  have len: "1 \<le> length (sd_uuid demo_serde 1)" by (simp add: demo_serde_def)
  show ?thesis
    using torn_ledger_repeats [OF demo_serde_ok, of demo_agent "demo_delivery (AppendTorn 1) (demo_signed 1)"
      "demo_delivery AppendAll (demo_signed 2)" demo_crypto 1 demo_codec] demo_torn_id len
    by (simp add: Let_def demo_agent_fields)
qed

section \<open>Commands for another agent\<close>

text \<open>
  A fresh, unexpired command signed with a trusted key is always dispatched; the agent id it
  carries is covered by the signature but is not compared with the identity of the agent that pulls
  it, so this holds of a command addressed to any agent.
\<close>

theorem signed_command_dispatched_by_any_agent:
  assumes "crypto_ok C"
    and "keyring_get (ag_ring a) (key_id C (verifying_key C k)) = Some (verifying_key C k)"
    and "dl_now d \<le> env_expires_at e" and "env_command_id e \<notin> lg_seen (ag_ledger a)"
    and "dl_append d = AppendAll"
  shows "ag_dispatched (process_delivery S C P (d\<lparr>dl_env := sign_envelope S C k (e\<lparr>env_agent_id := x\<rparr>)\<rparr>) a)
           = ag_dispatched a @ [env_command_id e]"
proof -
  let ?e = "sign_envelope S C k (e\<lparr>env_agent_id := x\<rparr>)"
  have "verify_envelope_with S C (ag_ring a) ?e (dl_now d) = Inr ()"
    using sign_envelope_authentic [OF assms(1,2), of "dl_now d" "e\<lparr>env_agent_id := x\<rparr>" S] assms(3)
    by (simp add: verify_envelope_with_Inr)
  moreover have "env_command_id ?e = env_command_id e" by (simp add: sign_envelope_def Let_def)
  ultimately show ?thesis using assms(4,5)
    by (simp add: process_delivery_fields dispatches_def whole_append_def)
qed

theorem signed_command_dispatched_by_any_agent_witness:
  "ag_dispatched (process_delivery demo_serde demo_crypto demo_codec
      ((demo_delivery AppendAll demo_envelope)\<lparr>dl_env :=
         sign_envelope demo_serde demo_crypto True (demo_envelope\<lparr>env_agent_id := AgentId 99\<rparr>)\<rparr>) demo_agent)
     = [env_command_id demo_envelope]"
proof -
  have "verifying_key demo_crypto True = True" by (simp add: demo_crypto_def)
  then show ?thesis
    using signed_command_dispatched_by_any_agent [OF demo_crypto_ok, of demo_agent True
        "demo_delivery AppendAll demo_envelope" demo_envelope demo_serde demo_codec "AgentId 99"]
    by (simp add: demo_agent_fields keyring_get_single) (simp add: demo_envelope_def)
qed

section \<open>The polling delay\<close>

lemma unat_min: "unat (min a b) = min (unat a) (unat (b :: 'a :: len word))"
  by (simp add: min_def word_le_nat_alt)

lemma unat_saturating_mul: "unat (saturating_mul a b) = min (unat a * unat b) (2 ^ 64 - 1)"
proof (cases "unat a * unat b < 2 ^ 64")
  case True
  then have "unat (a * b) = unat a * unat b" by (subst unat_mult_lem [symmetric]) simp
  with True show ?thesis by (simp add: saturating_mul_def)
next
  case False
  moreover have "unat (- 1 :: u64) = 2 ^ 64 - 1" by (simp add: unsigned_minus_1_eq_mask mask_eq_exp_minus_1)
  ultimately show ?thesis by (simp add: saturating_mul_def)
qed

lemma unat_multiplier_power:
  assumes "e \<le> 31"
  shows "unat (ucast (backoff_multiplier ^ e) :: u64) = 2 ^ e"
proof -
  have "(2 :: nat) ^ e \<le> 2 ^ 31" using assms by (intro power_increasing) simp_all
  then have "unat (of_nat (2 ^ e) :: u32) = 2 ^ e" by (intro of_nat_inverse [OF refl]) simp
  then have "unat ((2 :: u32) ^ e) = 2 ^ e" by simp
  with assms show ?thesis
    by (simp add: backoff_multiplier_def unsigned_ucast_eq take_bit_nat_eq_self_iff)
qed

lemma unat_backoff_raw:
  assumes "ps_consecutive_errors st = of_nat (Suc n)" "Suc n < 2 ^ 32"
  shows "unat (backoff_raw st) = min (unat (ps_base_poll_secs st) * 2 ^ min n 31) 300"
proof -
  have "ps_consecutive_errors st - 1 = of_nat n" using assms(1) by simp
  moreover have "unat (of_nat n :: u32) = n" using assms(2) by (intro of_nat_inverse [OF refl]) simp
  ultimately have "unat (min (ps_consecutive_errors st - 1) 31) = min n 31" by (simp add: unat_min)
  then show ?thesis
    by (simp add: backoff_raw_def unat_min unat_saturating_mul unat_multiplier_power max_backoff_secs_def)
qed

definition poll_errors :: "(u64 \<Rightarrow> u64) list \<Rightarrow> poll_state \<Rightarrow> poll_state" where
  "poll_errors picks st = fold (\<lambda>pick st. snd (record_error pick st)) picks st"

lemma poll_errors_count:
  "ps_consecutive_errors (poll_errors picks st) = ps_consecutive_errors st + of_nat (length picks)"
  "ps_base_poll_secs (poll_errors picks st) = ps_base_poll_secs st"
  unfolding poll_errors_def
  by (induction picks arbitrary: st) (simp_all add: record_error_def Let_def)


text \<open>
  After \<open>k\<close> failed polls in a row the random delay is at least one second and at most
  \<open>base * 2 ^ (k - 1)\<close> capped at five minutes; the circuit is open from the fifth failure on and the
  loop then sleeps exactly one minute; one success restores the initial state. The counter is 32 bits
  wide, so fewer than \<open>2 ^ 32\<close> failures are considered.
\<close>

theorem poll_delay_bounds:
  assumes "\<And>n. pick n \<le> n" and "length picks < 2 ^ 32 - 1"
  shows "let k = Suc (length picks); base = max (unat secs) 5;
             st = poll_errors (picks @ [pick]) (initial_poll_state secs)
         in 1 \<le> unat (ps_backoff_secs st)
            \<and> unat (ps_backoff_secs st) \<le> min (base * 2 ^ min (k - 1) 31) 300
            \<and> poll_delay st = (if 5 \<le> k then 60 else ps_backoff_secs st)
            \<and> record_success st = initial_poll_state secs"
proof -
  define st0 where "st0 = poll_errors picks (initial_poll_state secs)"
  define st1 where "st1 = st0\<lparr>ps_consecutive_errors := ps_consecutive_errors st0 + 1\<rparr>"
  let ?k = "Suc (length picks)" and ?base = "max (unat secs) 5"
  have st: "poll_errors (picks @ [pick]) (initial_poll_state secs) = st1\<lparr>ps_backoff_secs := max (pick (backoff_raw st1)) 1\<rparr>"
    by (simp add: poll_errors_def st0_def st1_def record_error_def Let_def)
  have base: "unat (ps_base_poll_secs st1) = ?base" "ps_base_poll_secs st1 = max secs min_poll_secs"
    by (simp_all add: st1_def st0_def poll_errors_count initial_poll_state_def poll_state_new_def min_poll_secs_def
        max_def word_le_nat_alt)
  have errs: "ps_consecutive_errors st1 = of_nat ?k"
    by (simp add: st1_def st0_def poll_errors_count initial_poll_state_def poll_state_new_def)
  have k: "?k < 2 ^ 32" using assms(2) by simp
  have "unat (backoff_raw st1) = min (?base * 2 ^ min (length picks) 31) 300"
    using unat_backoff_raw [OF errs k] base(1) by simp
  moreover have "1 \<le> ?base * 2 ^ min (length picks) 31" by simp
  moreover have "unat (pick (backoff_raw st1)) \<le> unat (backoff_raw st1)"
    using assms(1) by (simp add: word_le_nat_alt)
  ultimately have "unat (max (pick (backoff_raw st1)) 1) \<le> min (?base * 2 ^ min (length picks) 31) 300"
    "1 \<le> unat (max (pick (backoff_raw st1)) 1)"
    by (auto simp: max_def word_le_nat_alt)
  moreover have "circuit_is_open (st1\<lparr>ps_backoff_secs := s\<rparr>) \<longleftrightarrow> 5 \<le> ?k" for s
  proof -
    have "unat (of_nat ?k :: u32) = ?k" using k by (intro of_nat_inverse [OF refl]) simp
    then show ?thesis
      by (simp add: circuit_is_open_def errs circuit_open_threshold_def word_le_nat_alt del: of_nat_Suc)
  qed
  moreover have "record_success (st1\<lparr>ps_backoff_secs := s\<rparr>) = initial_poll_state secs" for s
    by (simp add: record_success_def base(2) initial_poll_state_def poll_state_new_def)
  ultimately show ?thesis
    unfolding Let_def st by (simp add: poll_delay_def circuit_open_secs_def)
qed

theorem poll_delay_bounds_witness:
  "let st = poll_errors [\<lambda>n. n, \<lambda>n. n, \<lambda>n. 0] (initial_poll_state 30)
   in unat (ps_backoff_secs st) \<le> 120 \<and> poll_delay st = 1"
proof -
  have "poll_delay (poll_errors [\<lambda>n. n, \<lambda>n. n, \<lambda>n. 0] (initial_poll_state 30)) = 1"
    by (simp add: poll_errors_def record_error_def Let_def initial_poll_state_def poll_state_new_def poll_delay_def
        circuit_is_open_def circuit_open_threshold_def)
  with poll_delay_bounds [of "\<lambda>_. 0" "[\<lambda>n. n, \<lambda>n. n]" 30] show ?thesis by (simp add: Let_def)
qed

end
