(* ===== verification/Kube_Executor.thy ===== *)
theory Kube_Executor
  imports Host_Props
begin

text \<open>
  \<^verbatim>\<open>crates/ravn-k8s/src/executor.rs\<close> and \<^verbatim>\<open>command_loop.rs\<close>: the in-cluster executor,
  a second implementation of the executor contract, and the loop that feeds it signed commands from
  a message broker. The Kubernetes client is the parameter \<open>kube_api\<close>; a world records every API
  request that was made.
\<close>

section \<open>The Kubernetes client as a parameter\<close>

datatype kube_patch = MergePatch json | ApplyPatch json

record patch_params =
  pp_field_manager :: "string option"
  pp_force :: bool

record pod_object =
  po_name :: "string option"
  po_phase :: "string option"

text \<open>Each request takes some time and returns a value or an error text.\<close>

record 'o kube_api =
  ka_delete_pod :: "string \<Rightarrow> string \<Rightarrow> 'o \<Rightarrow> (string + unit) \<times> nat \<times> 'o"
  ka_patch_deployment :: "string \<Rightarrow> string \<Rightarrow> patch_params \<Rightarrow> kube_patch \<Rightarrow> 'o \<Rightarrow> (string + unit) \<times> nat \<times> 'o"
  ka_list_pods :: "string \<Rightarrow> 'o \<Rightarrow> (string + pod_object list) \<times> nat \<times> 'o"
  ka_wall :: "'o \<Rightarrow> nat \<Rightarrow> datetime"
  ka_oversleep :: "'o \<Rightarrow> nat"
  ka_rfc3339 :: "datetime \<Rightarrow> string"

text \<open>
  Documented behaviour of the client: forcing is for server-side apply only, and a patch request
  that forces anything else is refused.
\<close>

definition force_needs_apply :: "'o kube_api \<Rightarrow> bool" where
  "force_needs_apply K \<longleftrightarrow>
     (\<forall>ns d pp j os. pp_force pp \<longrightarrow> (\<exists>e t os'. ka_patch_deployment K ns d pp (MergePatch j) os = (Inl e, t, os')))"

datatype kube_call = DeleteCall string string | PatchCall string string json | ListCall string

type_synonym 'o kube_world = "('o, kube_call) world"

definition kube_request ::
  "kube_call \<Rightarrow> ('o \<Rightarrow> (string + 'a) \<times> nat \<times> 'o) \<Rightarrow> 'o kube_world \<Rightarrow> (string + 'a) \<times> 'o kube_world" where
  "kube_request call f w =
     (case f (w_os w) of (r, d, os') \<Rightarrow> (r, w\<lparr>w_os := os', w_mono := w_mono w + d, w_log := w_log w @ [call]\<rparr>))"

definition kube_runtime :: "'o kube_api \<Rightarrow> 'o kube_world runtime" where
  "kube_runtime K =
     \<lparr>rt_utc_now = (\<lambda>w. ka_wall K (w_os w) (w_mono w)),
      rt_instant = w_mono,
      rt_sleep = (\<lambda>n w. w\<lparr>w_mono := w_mono w + n + ka_oversleep K (w_os w)\<rparr>)\<rparr>"

section \<open>The executor\<close>

definition kube_name_char :: "char \<Rightarrow> bool" where
  "kube_name_char c \<longleftrightarrow> is_lower c \<or> is_digit c \<or> c = CHR ''-'' \<or> c = CHR ''.''"

definition is_valid_k8s_name :: "string \<Rightarrow> bool" where
  "is_valid_k8s_name name \<longleftrightarrow>
     name \<noteq> [] \<and> length name \<le> 253 \<and> list_all kube_name_char name
     \<and> hd name \<noteq> CHR ''-'' \<and> last name \<noteq> CHR ''-'' \<and> hd name \<noteq> CHR ''.'' \<and> last name \<noteq> CHR ''.''"

definition validate_ns_and_name :: "string \<Rightarrow> string \<Rightarrow> string \<Rightarrow> exec_error + unit" where
  "validate_ns_and_name ns name label =
     (if \<not> is_valid_k8s_name ns then Inl (InvalidNamespace ns)
      else if \<not> is_valid_k8s_name name then Inl (InvalidKubeName label name)
      else Inr ())"

definition delete_pod :: "'o kube_api \<Rightarrow> string \<Rightarrow> string \<Rightarrow> 'o kube_world \<Rightarrow> exec_result \<times> 'o kube_world" where
  "delete_pod K ns pod w =
     (case validate_ns_and_name ns pod ''pod name'' of
        Inl e \<Rightarrow> (Inl e, w)
      | Inr _ \<Rightarrow>
          (case kube_request (DeleteCall ns pod) (ka_delete_pod K ns pod) w of
             (Inl e, w') \<Rightarrow> (Inl (DeletePodFailed ns pod e), w')
           | (Inr _, w') \<Rightarrow> (Inr None, w')))"

definition restart_patch :: "string \<Rightarrow> json" where
  "restart_patch now =
     JObj [(''spec'', JObj [(''template'', JObj [(''metadata'', JObj [(''annotations'',
        JObj [(''kubectl.kubernetes.io/restartedAt'', JStr now)])])])])]"

definition restart_params :: patch_params where
  "restart_params = \<lparr>pp_field_manager = Some ''ravn-k8s-executor'', pp_force = True\<rparr>"

definition restart_deployment :: "'o kube_api \<Rightarrow> string \<Rightarrow> string \<Rightarrow> 'o kube_world \<Rightarrow> exec_result \<times> 'o kube_world" where
  "restart_deployment K ns dep w =
     (case validate_ns_and_name ns dep ''deployment name'' of
        Inl e \<Rightarrow> (Inl e, w)
      | Inr _ \<Rightarrow>
          (let patch = restart_patch (ka_rfc3339 K (ka_wall K (w_os w) (w_mono w)))
           in case kube_request (PatchCall ns dep patch)
                     (ka_patch_deployment K ns dep restart_params (MergePatch patch)) w of
                (Inl e, w') \<Rightarrow> (Inl (PatchDeploymentFailed ns dep e), w')
              | (Inr _, w') \<Rightarrow> (Inr None, w')))"

definition matches_prefix :: "string \<Rightarrow> pod_object \<Rightarrow> bool" where
  "matches_prefix pre p \<longleftrightarrow> (case po_name p of None \<Rightarrow> False | Some n \<Rightarrow> prefix pre n)"

definition phase_of :: "pod_object \<Rightarrow> string" where
  "phase_of p = (case po_phase p of None \<Rightarrow> ''Unknown'' | Some ph \<Rightarrow> ph)"

definition pods_state :: "string \<Rightarrow> string \<Rightarrow> pod_object list \<Rightarrow> exec_result" where
  "pods_state ns pre pods =
     (let matching = filter (matches_prefix pre) pods
      in if matching = [] then Inl (NoPodWithPrefix pre ns)
         else case find (\<lambda>p. phase_of p \<noteq> ''Running'') matching of
                Some p \<Rightarrow> Inr (Some (phase_of p))
              | None \<Rightarrow> Inr (Some ''Running''))"

definition pod_state :: "'o kube_api \<Rightarrow> string \<Rightarrow> string \<Rightarrow> 'o kube_world \<Rightarrow> exec_result \<times> 'o kube_world" where
  "pod_state K ns pre w =
     (case validate_ns_and_name ns pre ''pod prefix'' of
        Inl e \<Rightarrow> (Inl e, w)
      | Inr _ \<Rightarrow>
          (case kube_request (ListCall ns) (ka_list_pods K ns) w of
             (Inl e, w') \<Rightarrow> (Inl (ListPodsFailed ns e), w')
           | (Inr pods, w') \<Rightarrow> (pods_state ns pre pods, w')))"

fun kube_run :: "'o kube_api \<Rightarrow> 'o kube_world run_fun" where
  "kube_run K (DeletePod ns pod) w = delete_pod K ns pod w"
| "kube_run K (RestartDeployment ns dep) w = restart_deployment K ns dep w"
| "kube_run K (PodState ns pre) w = pod_state K ns pre w"
| "kube_run K (ResetFailed _) w = (Inl HostCapabilityUnsupported, w)"
| "kube_run K (RestartUnit _) w = (Inl HostCapabilityUnsupported, w)"
| "kube_run K (UnitState _) w = (Inl HostCapabilityUnsupported, w)"
| "kube_run K NixRollback w = (Inl HostCapabilityUnsupported, w)"

section \<open>The command loop\<close>

text \<open>
  The messages are what the subscription yields before it closes; \<open>parse\<close> is serde's reading of
  an envelope. \<open>ls_results\<close> are the results handed to the broker, whose errors are only logged.
  The set of seen ids lives in memory.
\<close>

record 'w loop_state =
  ls_seen :: "uuid set"
  ls_world :: 'w
  ls_results :: "action_result list"

definition command_step ::
  "serde \<Rightarrow> ('sk, 'vk) crypto \<Rightarrow> 'w run_fun \<Rightarrow> 'w runtime \<Rightarrow> 'vk keyring \<Rightarrow> (string \<Rightarrow> envelope option) \<Rightarrow> string
     \<Rightarrow> 'w loop_state \<Rightarrow> (unit outcome \<times> 'w loop_state) option" where
  "command_step S C run rt ring parse msg st =
     (case parse msg of
        None \<Rightarrow> Some (Returned (), st)
      | Some env \<Rightarrow>
          if env_command_id env \<in> ls_seen st then Some (Returned (), st)
          else
            let st1 = st\<lparr>ls_seen := insert (env_command_id env) (ls_seen st)\<rparr>
            in case handle_command S C run rt ring env (ls_world st) of
                 None \<Rightarrow> None
               | Some (Panicked, w') \<Rightarrow> Some (Panicked, st1\<lparr>ls_world := w'\<rparr>)
               | Some (Returned r, w') \<Rightarrow>
                   Some (Returned (), st1\<lparr>ls_world := w', ls_results := ls_results st @ [r]\<rparr>))"

fun run_command_loop ::
  "serde \<Rightarrow> ('sk, 'vk) crypto \<Rightarrow> 'w run_fun \<Rightarrow> 'w runtime \<Rightarrow> 'vk keyring \<Rightarrow> (string \<Rightarrow> envelope option) \<Rightarrow> string list
     \<Rightarrow> 'w loop_state \<Rightarrow> (unit outcome \<times> 'w loop_state) option" where
  "run_command_loop S C run rt ring parse [] st = Some (Returned (), st)"
| "run_command_loop S C run rt ring parse (m # ms) st =
     (case command_step S C run rt ring parse m st of
        None \<Rightarrow> None
      | Some (Panicked, st') \<Rightarrow> Some (Panicked, st')
      | Some (Returned _, st') \<Rightarrow> run_command_loop S C run rt ring parse ms st')"

section \<open>The executor keeps its contract\<close>

fun kube_calls :: "capability \<Rightarrow> kube_call set" where
  "kube_calls (DeletePod ns pod) = {DeleteCall ns pod}"
| "kube_calls (RestartDeployment ns dep) = {PatchCall ns dep (restart_patch t) |t. True}"
| "kube_calls (PodState ns pre) = {ListCall ns}"
| "kube_calls _ = {}"

lemma kube_request_log:
  "kube_request call f w = (r, w') \<Longrightarrow> w_log w' = w_log w @ [call] \<and> w_mono w \<le> w_mono w'"
  by (auto simp: kube_request_def split: prod.splits)

lemmas kube_operation_defs = delete_pod_def restart_deployment_def pod_state_def

lemma kube_run_effects:
  "(\<exists>es. w_log (snd (kube_run K c w)) = w_log w @ es \<and> set es \<subseteq> kube_calls c)
   \<and> w_mono w \<le> w_mono (snd (kube_run K c w))"
  by (cases c) (auto simp: kube_operation_defs Let_def split: sum.splits prod.splits dest!: kube_request_log)

interpretation kube: timed_executor "kube_run K" "kube_runtime K" w_log kube_calls for K
  using kube_run_effects by unfold_locales (auto simp: kube_runtime_def)


text \<open>
  The shared validation of \<open>handle_command\<close> is the stricter one, so the executor's own check never
  refuses a command that got that far.
\<close>

lemma valid_label_is_name: "is_valid_k8s_label s \<Longrightarrow> is_valid_k8s_name s"
  by (auto simp: is_valid_k8s_label_def is_valid_k8s_name_def list_all_iff label_char_def label_edge_def
      kube_name_char_def last_conv_nth char_class_defs split: if_splits)

section \<open>Effects\<close>

lemma kube_calls_ids:
  assumes "call \<in> kube_calls c"
  shows "c \<noteq> NixRollback \<and> capability_unit c = None
     \<and> (\<exists>ns name. map snd (capability_kube_ids c) = [ns, name]
          \<and> (call = DeleteCall ns name \<or> (\<exists>t. call = PatchCall ns name (restart_patch t)) \<or> call = ListCall ns))"
  using assms by (cases c) auto

text \<open>
  C17: what the in-cluster executor asks of the cluster. It always comes to an end; every request is
  the deletion of a pod, the restart annotation of a deployment or the listing of a namespace's
  pods, for a namespace and a name that the envelope carries and that are valid labels; and there
  is a request only for an authentic, unexpired envelope.
\<close>

theorem kube_effects_whitelisted:
  "\<exists>out w' es. handle_command S C (kube_run K) (kube_runtime K) ring e w = Some (out, w') \<and> w_log w' = w_log w @ es
     \<and> (es \<noteq> [] \<longrightarrow> authentic S C ring e (ka_wall K (w_os w) (w_mono w)))
     \<and> (\<forall>call\<in>set es. \<exists>c\<in>set (envelope_capabilities e). \<exists>ns name.
          map snd (capability_kube_ids c) = [ns, name] \<and> is_valid_k8s_label ns \<and> is_valid_k8s_label name
          \<and> (call = DeleteCall ns name \<or> (\<exists>t. call = PatchCall ns name (restart_patch t)) \<or> call = ListCall ns))"
proof -
  obtain out w' where run: "handle_command S C (kube_run K) (kube_runtime K) ring e w = Some (out, w')"
    using kube.command_returns by blast
  from kube.command_effects [OF run] obtain es where es: "w_log w' = w_log w @ es"
    "set es \<subseteq> (\<Union>c\<in>set (plan e). kube_calls c)" by blast
  have auth: "authentic S C ring e (ka_wall K (w_os w) (w_mono w))"
    and valid: "first_invalid (envelope_capabilities e) = None" if "es \<noteq> []"
    using kube.command_effects_authentic [OF run] es(1) that by (simp_all add: kube_runtime_def)
  have "\<exists>c\<in>set (envelope_capabilities e). \<exists>ns name.
          map snd (capability_kube_ids c) = [ns, name] \<and> is_valid_k8s_label ns \<and> is_valid_k8s_label name
          \<and> (call = DeleteCall ns name \<or> (\<exists>t. call = PatchCall ns name (restart_patch t)) \<or> call = ListCall ns)"
    if call: "call \<in> set es" for call
  proof -
    from call es(2) obtain c where c: "c \<in> set (plan e)" "call \<in> kube_calls c" by blast
    from kube_calls_ids [OF c(2)] obtain ns name where ids: "c \<noteq> NixRollback"
      "map snd (capability_kube_ids c) = [ns, name]"
      "call = DeleteCall ns name \<or> (\<exists>t. call = PatchCall ns name (restart_patch t)) \<or> call = ListCall ns" by (elim conjE exE) (rule that)
    from c(1) ids(1) have mem: "c \<in> set (envelope_capabilities e)" by (auto simp: plan_def split: rollback.splits)
    from call have "first_invalid (envelope_capabilities e) = None" by (intro valid) auto
    with mem have "\<forall>(f, i)\<in>set (capability_kube_ids c). is_valid_k8s_label i" by (auto simp: first_invalid_None)
    then have "\<forall>i\<in>set (map snd (capability_kube_ids c)). is_valid_k8s_label i" by auto
    with ids(2) have "is_valid_k8s_label ns" "is_valid_k8s_label name" by simp_all
    with mem ids(2,3) show ?thesis by (intro bexI [of _ c] exI [of _ ns] exI [of _ name] conjI)
  qed
  with run es(1) auth show ?thesis
    by (intro exI [of _ out] exI [of _ w'] exI [of _ es] conjI impI ballI)
qed

text \<open>A cluster with two pods in one namespace whose requests all succeed at once.\<close>

definition demo_cluster :: "unit kube_api" where
  "demo_cluster =
     \<lparr>ka_delete_pod = (\<lambda>ns p os. (Inr (), 1, os)),
      ka_patch_deployment = (\<lambda>ns d pp patch os.
        (if pp_force pp \<and> (\<nexists>j. patch = ApplyPatch j) then Inl ''force needs apply'' else Inr (), 1, os)),
      ka_list_pods = (\<lambda>ns os. (Inr [\<lparr>po_name = Some ''web-1'', po_phase = Some ''Running''\<rparr>,
                                     \<lparr>po_name = Some ''web-2'', po_phase = None\<rparr>], 1, os)),
      ka_wall = (\<lambda>os t. int t), ka_oversleep = (\<lambda>os. 0), ka_rfc3339 = (\<lambda>t. ''now'')\<rparr>"

definition demo_kube_command :: "uuid \<Rightarrow> envelope" where
  "demo_kube_command i = sign_envelope demo_serde demo_crypto True
     (demo_envelope\<lparr>env_command_id := i, env_steps := [DeletePod ''ravn-test'' ''crasher''], env_preconditions := [],
                    env_verify := None\<rparr>)"

definition demo_kube_world :: "unit kube_world" where
  "demo_kube_world = \<lparr>w_os = (), w_mono = 0, w_log = []\<rparr>"

abbreviation demo_kube_run :: "envelope \<Rightarrow> (action_result outcome \<times> unit kube_world) option" where
  "demo_kube_run e \<equiv> handle_command demo_serde demo_crypto (kube_run demo_cluster) (kube_runtime demo_cluster)
     (keyring_single demo_crypto True) e demo_kube_world"

lemma demo_kube_names: "is_valid_k8s_name ''ravn-test''" "is_valid_k8s_name ''crasher''"
  by (rule valid_label_is_name, rule label_ravn_test label_crasher)+

lemma demo_kube_command_runs:
  "\<exists>r w'. demo_kube_run (demo_kube_command i) = Some (Returned r, w') \<and> w_log w' = [DeleteCall ''ravn-test'' ''crasher'']
     \<and> res_status r = Succeeded \<and> res_command_id r = i"
proof -
  have ver: "verify_envelope_with demo_serde demo_crypto (keyring_single demo_crypto True) (demo_kube_command i) 0 = Inr ()"
    unfolding demo_kube_command_def verify_envelope_with_Inr
    by (rule demo_command_authentic) (simp add: demo_envelope_def)
  have caps: "envelope_capabilities (demo_kube_command i) = [DeletePod ''ravn-test'' ''crasher'']"
    by (simp add: demo_kube_command_def envelope_capabilities_def)
  have valid: "first_invalid (envelope_capabilities (demo_kube_command i)) = None"
    unfolding first_invalid_None caps by (simp add: label_ravn_test label_crasher)
  have fields: "env_steps (demo_kube_command i) = [DeletePod ''ravn-test'' ''crasher'']"
    "env_preconditions (demo_kube_command i) = []" "env_verify (demo_kube_command i) = None"
    "env_command_id (demo_kube_command i) = i"
    by (simp_all add: demo_kube_command_def)
  have ok: "validate_ns_and_name ''ravn-test'' ''crasher'' l = Inr ()" for l
    by (simp add: validate_ns_and_name_def demo_kube_names)
  show ?thesis
    using ver valid
    by (simp add: handle_command_def fields demo_kube_world_def kube_runtime_def demo_cluster_def
        delete_pod_def ok kube_request_def make_result_def)
qed

theorem kube_effects_whitelisted_witness:
  "\<exists>out w'. demo_kube_run (demo_kube_command 1) = Some (out, w')
     \<and> w_log w' = [DeleteCall ''ravn-test'' ''crasher'']
     \<and> authentic demo_serde demo_crypto (keyring_single demo_crypto True) (demo_kube_command 1) 0"
proof -
  obtain r w' where run: "demo_kube_run (demo_kube_command 1) = Some (Returned r, w')"
    "w_log w' = [DeleteCall ''ravn-test'' ''crasher'']" using demo_kube_command_runs by blast
  with kube_effects_whitelisted [of demo_serde demo_crypto demo_cluster "keyring_single demo_crypto True"
      "demo_kube_command 1" demo_kube_world] show ?thesis
    by (auto simp: demo_kube_world_def demo_cluster_def)
qed

section \<open>Pod state\<close>

lemma find_filter: "find P (filter Q xs) = find (\<lambda>x. Q x \<and> P x) xs"
  by (induction xs) auto

lemma find_split:
  "find P xs = Some x \<longleftrightarrow> (\<exists>ys zs. xs = ys @ x # zs \<and> P x \<and> (\<forall>y\<in>set ys. \<not> P y))"
proof
  show "find P xs = Some x \<Longrightarrow> \<exists>ys zs. xs = ys @ x # zs \<and> P x \<and> (\<forall>y\<in>set ys. \<not> P y)"
  proof (induction xs)
    case (Cons a xs)
    show ?case
    proof (cases "P a")
      case True
      with Cons.prems show ?thesis by (intro exI [of _ "[]"] exI [of _ xs]) auto
    next
      case False
      with Cons obtain ys zs where "xs = ys @ x # zs" "P x" "\<forall>y\<in>set ys. \<not> P y" by auto
      with False show ?thesis by (intro exI [of _ "a # ys"] exI [of _ zs]) auto
    qed
  qed simp
next
  assume "\<exists>ys zs. xs = ys @ x # zs \<and> P x \<and> (\<forall>y\<in>set ys. \<not> P y)"
  then obtain ys zs where "xs = ys @ x # zs" "P x" "\<forall>y\<in>set ys. \<not> P y" by blast
  then show "find P xs = Some x" by (induction ys arbitrary: xs) auto
qed

text \<open>
  \<open>pod_state\<close> answers \<open>Running\<close> exactly when some listed pod has the prefix and all those pods
  are running; otherwise it reports the phase of the first that is not (\<open>Unknown\<close> when it has none),
  or that there is no such pod.
\<close>

theorem pods_state_correct:
  "(pods_state ns pre pods = Inr (Some ''Running'') \<longleftrightarrow>
      (\<exists>p\<in>set pods. matches_prefix pre p) \<and> (\<forall>p\<in>set pods. matches_prefix pre p \<longrightarrow> phase_of p = ''Running''))
   \<and> (pods_state ns pre pods = Inl (NoPodWithPrefix pre ns) \<longleftrightarrow> \<not> (\<exists>p\<in>set pods. matches_prefix pre p))
   \<and> (\<forall>ph. ph \<noteq> ''Running'' \<longrightarrow> (pods_state ns pre pods = Inr (Some ph) \<longleftrightarrow>
        (\<exists>xs p ys. pods = xs @ p # ys \<and> matches_prefix pre p \<and> phase_of p = ph
           \<and> (\<forall>q\<in>set xs. matches_prefix pre q \<longrightarrow> phase_of q = ''Running''))))"
proof (intro conjI allI impI)
  let ?bad = "\<lambda>p. matches_prefix pre p \<and> phase_of p \<noteq> ''Running''"
  have eq: "pods_state ns pre pods =
      (if \<not> (\<exists>p\<in>set pods. matches_prefix pre p) then Inl (NoPodWithPrefix pre ns)
       else case find ?bad pods of Some p \<Rightarrow> Inr (Some (phase_of p)) | None \<Rightarrow> Inr (Some ''Running''))"
    by (simp add: pods_state_def Let_def find_filter filter_empty_conv)
  have some: "\<exists>p\<in>set pods. matches_prefix pre p" if "find ?bad pods = Some p" for p
    using that by (auto simp: find_split)
  have bad: "phase_of p \<noteq> ''Running''" if "find ?bad pods = Some p" for p
    using that by (auto simp: find_split)
  show "pods_state ns pre pods = Inr (Some ''Running'') \<longleftrightarrow>
      (\<exists>p\<in>set pods. matches_prefix pre p) \<and> (\<forall>p\<in>set pods. matches_prefix pre p \<longrightarrow> phase_of p = ''Running'')"
    using bad find_None_iff [of ?bad pods] unfolding eq by (cases "find ?bad pods") auto
  show "pods_state ns pre pods = Inl (NoPodWithPrefix pre ns) \<longleftrightarrow> \<not> (\<exists>p\<in>set pods. matches_prefix pre p)"
    unfolding eq by (cases "find ?bad pods") auto
  fix ph :: string
  assume "ph \<noteq> ''Running''"
  then have "pods_state ns pre pods = Inr (Some ph) \<longleftrightarrow> (\<exists>p. find ?bad pods = Some p \<and> phase_of p = ph)"
    using find_None_iff [of ?bad pods] some unfolding eq by (cases "find ?bad pods") auto
  also have "\<dots> \<longleftrightarrow> (\<exists>xs p ys. pods = xs @ p # ys \<and> matches_prefix pre p \<and> phase_of p = ph
           \<and> (\<forall>q\<in>set xs. matches_prefix pre q \<longrightarrow> phase_of q = ''Running''))"
    using \<open>ph \<noteq> ''Running''\<close> by (auto simp: find_split)
  finally show "pods_state ns pre pods = Inr (Some ph) \<longleftrightarrow>
        (\<exists>xs p ys. pods = xs @ p # ys \<and> matches_prefix pre p \<and> phase_of p = ph
           \<and> (\<forall>q\<in>set xs. matches_prefix pre q \<longrightarrow> phase_of q = ''Running''))" .
qed

theorem pods_state_correct_witness:
  "pods_state ''ns'' ''web'' [\<lparr>po_name = Some ''web-1'', po_phase = Some ''Running''\<rparr>] = Inr (Some ''Running'')
   \<and> pods_state ''ns'' ''db'' [\<lparr>po_name = Some ''web-1'', po_phase = Some ''Running''\<rparr>] = Inl (NoPodWithPrefix ''db'' ''ns'')"
  using pods_state_correct [of "''ns''" "''web''" "[\<lparr>po_name = Some ''web-1'', po_phase = Some ''Running''\<rparr>]"]
    pods_state_correct [of "''ns''" "''db''" "[\<lparr>po_name = Some ''web-1'', po_phase = Some ''Running''\<rparr>]"]
  by (simp add: matches_prefix_def phase_of_def)

text \<open>
  With the client's documented rule for forced patches, restarting a deployment never succeeds: the
  merge patch is sent with \<open>force\<close>.
\<close>

theorem restart_deployment_fails:
  assumes "force_needs_apply K"
  shows "\<exists>e w'. restart_deployment K ns dep w = (Inl e, w')"
proof (cases "validate_ns_and_name ns dep ''deployment name''")
  case (Inl e)
  then show ?thesis by (simp add: restart_deployment_def)
next
  case (Inr u)
  obtain e t os' where "ka_patch_deployment K ns dep restart_params
      (MergePatch (restart_patch (ka_rfc3339 K (ka_wall K (w_os w) (w_mono w))))) (w_os w) = (Inl e, t, os')"
    using assms by (fastforce simp: force_needs_apply_def restart_params_def)
  with Inr show ?thesis by (simp add: restart_deployment_def kube_request_def Let_def)
qed

theorem restart_deployment_fails_witness:
  "\<exists>e w'. restart_deployment demo_cluster ''prod'' ''web'' demo_kube_world = (Inl e, w')"
  by (rule restart_deployment_fails) (auto simp: force_needs_apply_def demo_cluster_def)

section \<open>The loop\<close>

lemma command_step_seen:
  "parse msg = Some env \<Longrightarrow> env_command_id env \<in> ls_seen st \<Longrightarrow>
     command_step S C run rt ring parse msg st = Some (Returned (), st)"
  by (simp add: command_step_def)

text \<open>One message: always processed; a result is reported only for an id not seen before, which is then seen.\<close>

lemma kube_step_effect:
  "\<exists>out st' rs. command_step S C (kube_run K) (kube_runtime K) ring parse msg st = Some (out, st')
     \<and> ls_results st' = ls_results st @ rs \<and> ls_seen st \<subseteq> ls_seen st'
     \<and> (rs = [] \<or> (\<exists>r env. rs = [r] \<and> parse msg = Some env \<and> res_command_id r = env_command_id env
           \<and> env_command_id env \<in> ls_seen st' - ls_seen st))"
proof (cases "parse msg")
  case None
  then show ?thesis by (simp add: command_step_def)
next
  case (Some env)
  obtain out w' where run: "handle_command S C (kube_run K) (kube_runtime K) ring env (ls_world st) = Some (out, w')"
    using kube.command_returns by blast
  show ?thesis
  proof (cases "env_command_id env \<in> ls_seen st")
    case True
    with Some show ?thesis by (simp add: command_step_def)
  next
    case False
    with Some run show ?thesis
      by (cases out) (auto simp: command_step_def Let_def dest: kube.command_result_id)
  qed
qed

text \<open>
  C29: the in-cluster loop reports one result per command id. For any messages, the loop comes to an
  end when the subscription closes or a command panics, and the results it published carry distinct
  ids, none of them seen before and each the id of a received command.
\<close>

theorem kube_loop_at_most_once:
  "\<exists>out st' rs. run_command_loop S C (kube_run K) (kube_runtime K) ring parse ms st = Some (out, st')
     \<and> ls_results st' = ls_results st @ rs \<and> distinct (map res_command_id rs)
     \<and> (\<forall>r\<in>set rs. res_command_id r \<notin> ls_seen st
          \<and> (\<exists>m\<in>set ms. \<exists>env. parse m = Some env \<and> env_command_id env = res_command_id r))"
proof (induction ms arbitrary: st)
  case Nil
  then show ?case by simp
next
  case (Cons m ms)
  obtain out st1 rs where step: "command_step S C (kube_run K) (kube_runtime K) ring parse m st = Some (out, st1)"
      "ls_results st1 = ls_results st @ rs" "ls_seen st \<subseteq> ls_seen st1"
      "rs = [] \<or> (\<exists>r env. rs = [r] \<and> parse m = Some env \<and> res_command_id r = env_command_id env
           \<and> env_command_id env \<in> ls_seen st1 - ls_seen st)"
    using kube_step_effect by blast
  obtain out2 st2 qs where rest: "run_command_loop S C (kube_run K) (kube_runtime K) ring parse ms st1 = Some (out2, st2)"
      "ls_results st2 = ls_results st1 @ qs" "distinct (map res_command_id qs)"
      "\<forall>r\<in>set qs. res_command_id r \<notin> ls_seen st1
          \<and> (\<exists>m\<in>set ms. \<exists>env. parse m = Some env \<and> env_command_id env = res_command_id r)"
    using Cons.IH by blast
  show ?case
  proof (cases out)
    case Panicked
    with step show ?thesis by (intro exI [of _ out] exI [of _ st1] exI [of _ rs]) auto
  next
    case (Returned u)
    have "distinct (map res_command_id (rs @ qs))" using step(4) rest(3,4) by auto
    moreover have "res_command_id r \<notin> ls_seen st
          \<and> (\<exists>m\<in>set (m # ms). \<exists>env. parse m = Some env \<and> env_command_id env = res_command_id r)"
      if "r \<in> set (rs @ qs)" for r using that step(3,4) rest(4) by auto
    ultimately show ?thesis
      using Returned step(1,2) rest(1,2)
      by (intro exI [of _ out2] exI [of _ st2] exI [of _ "rs @ qs"]) simp
  qed
qed

definition demo_loop_state :: "unit kube_world loop_state" where
  "demo_loop_state = \<lparr>ls_seen = {}, ls_world = demo_kube_world, ls_results = []\<rparr>"

definition demo_parse :: "string \<Rightarrow> envelope option" where
  "demo_parse m = (if m = ''genuine'' then Some (demo_kube_command 1)
     else if m = ''forged'' then Some (demo_envelope\<lparr>env_command_id := 1\<rparr>) else None)"

abbreviation demo_loop :: "string list \<Rightarrow> (unit outcome \<times> unit kube_world loop_state) option" where
  "demo_loop ms \<equiv> run_command_loop demo_serde demo_crypto (kube_run demo_cluster) (kube_runtime demo_cluster)
     (keyring_single demo_crypto True) demo_parse ms demo_loop_state"

theorem kube_loop_at_most_once_witness:
  "\<exists>out st'. demo_loop [''genuine'', ''junk'', ''genuine''] = Some (out, st')
     \<and> length (ls_results st') = 1 \<and> distinct (map res_command_id (ls_results st'))"
proof -
  have id: "env_command_id (demo_kube_command 1) = 1" by (simp add: demo_kube_command_def)
  obtain r w' where run: "demo_kube_run (demo_kube_command 1) = Some (Returned r, w')"
    using demo_kube_command_runs by blast
  have "\<exists>st'. demo_loop [''genuine'', ''junk'', ''genuine''] = Some (Returned (), st') \<and> length (ls_results st') = 1"
    by (simp add: command_step_def demo_parse_def demo_loop_state_def run id)
  then obtain st' where st': "demo_loop [''genuine'', ''junk'', ''genuine''] = Some (Returned (), st')"
    "length (ls_results st') = 1" by blast
  moreover have "distinct (map res_command_id (ls_results st'))"
    using kube_loop_at_most_once [of demo_serde demo_crypto demo_cluster "keyring_single demo_crypto True" demo_parse
        "[''genuine'', ''junk'', ''genuine'']" demo_loop_state] st'(1)
    by (auto simp: demo_loop_state_def)
  ultimately show ?thesis by blast
qed

text \<open>
  The id is taken before the signature is checked. A message that fails verification makes the
  loop drop every later command with the same id, however well signed: only the rejection is
  reported and nothing is done to the cluster.
\<close>

theorem forged_id_blocks_command:
  assumes "parse m = Some forged" "parse m' = Some genuine" "env_command_id genuine = env_command_id forged"
    and "env_command_id forged \<notin> ls_seen st"
    and "\<not> authentic S C ring forged (rt_utc_now rt (ls_world st))"
  shows "\<exists>st' r. run_command_loop S C run rt ring parse [m, m'] st = Some (Returned (), st')
     \<and> ls_world st' = ls_world st \<and> ls_results st' = ls_results st @ [r] \<and> res_status r = Rejected"
proof -
  obtain err where "verify_envelope_with S C ring forged (rt_utc_now rt (ls_world st)) = Inl err"
    using assms(5) by (cases "verify_envelope_with S C ring forged (rt_utc_now rt (ls_world st))")
      (auto simp: verify_envelope_with_Inr [symmetric])
  then show ?thesis
    using assms(1-4) by (simp add: command_step_def handle_command_def Let_def make_result_def)
qed

theorem forged_id_blocks_command_witness:
  "\<exists>st' r. demo_loop [''forged'', ''genuine''] = Some (Returned (), st')
     \<and> w_log (ls_world st') = [] \<and> ls_results st' = [r] \<and> res_status r = Rejected"
proof -
  have "\<not> authentic demo_serde demo_crypto (keyring_single demo_crypto True) (demo_envelope\<lparr>env_command_id := 1\<rparr>) t" for t
    by (simp add: authentic_def demo_envelope_def)
  moreover have "env_command_id (demo_kube_command 1) = 1" by (simp add: demo_kube_command_def)
  ultimately show ?thesis
    using forged_id_blocks_command [of demo_parse "''forged''" "demo_envelope\<lparr>env_command_id := 1\<rparr>" "''genuine''"
        "demo_kube_command 1" demo_loop_state demo_serde demo_crypto "keyring_single demo_crypto True"
        "kube_runtime demo_cluster" "kube_run demo_cluster"]
    by (auto simp: demo_parse_def demo_loop_state_def demo_kube_world_def)
qed

end
