(* ===== verification/Countability.thy ===== *)
theory Countability
  imports Core_Types "HOL-Library.Countable"
begin

text \<open>
  The message schema is countable: every message can be written as a text that determines it. The
  instances below give the library's \<open>to_nat\<close> for the model's types, and from it the demonstration
  codec that the witnesses about stored messages use.
\<close>

instance agent_id :: countable by countable_datatype
instance severity :: countable by countable_datatype
instance json :: countable by countable_datatype

instance journald_payload_ext :: (countable) countable
  by (rule countable_classI [of "\<lambda>r. to_nat (jd_unit r, jd_priority r, jd_message r, jd_extra r, journald_payload.more r)"])
    (simp add: journald_payload.equality)

instance failed_unit_payload_ext :: (countable) countable
  by (rule countable_classI [of "\<lambda>r. to_nat (fu_unit r, fu_result r, fu_recent_log r, fu_extra r, failed_unit_payload.more r)"])
    (simp add: failed_unit_payload.equality)

instance config_drift_payload_ext :: (countable) countable
  by (rule countable_classI
      [of "\<lambda>r. to_nat (cd_path r, cd_old_hash r, cd_new_hash r, cd_diff r, cd_extra r, config_drift_payload.more r)"])
    (simp add: config_drift_payload.equality)

instance auth_payload_ext :: (countable) countable
  by (rule countable_classI
      [of "\<lambda>r. to_nat (au_action r, au_user r, au_remote_addr r, au_succeeded r, au_extra r, auth_payload.more r)"])
    (simp add: auth_payload.equality)

instance update_payload_ext :: (countable) countable
  by (rule countable_classI
      [of "\<lambda>r. to_nat (up_mechanism r, up_from r, up_to r, up_changes r, up_extra r, update_payload.more r)"])
    (simp add: update_payload.equality)

instance kube_workload_payload_ext :: (countable) countable
  by (rule countable_classI
      [of "\<lambda>r. to_nat (kw_namespace r, kw_object_kind r, kw_name r, kw_reason r, kw_message r, kw_count r,
          kw_container r, kw_extra r, kube_workload_payload.more r)"])
    (simp add: kube_workload_payload.equality)

instance kube_node_payload_ext :: (countable) countable
  by (rule countable_classI [of "\<lambda>r. to_nat (kn_node r, kn_condition r, kn_message r, kn_extra r, kube_node_payload.more r)"])
    (simp add: kube_node_payload.equality)

instance circuit_breaker_trip_payload_ext :: (countable) countable
  by (rule countable_classI [of "\<lambda>r. to_nat (cb_host r, cb_template_id r, circuit_breaker_trip_payload.more r)"])
    (simp add: circuit_breaker_trip_payload.equality)

instance payload :: countable by countable_datatype

instance event_ext :: (countable) countable
  by (rule countable_classI
      [of "\<lambda>r. to_nat (ev_id r, ev_occurred_at r, ev_observed_at r, ev_agent_id r, ev_host r, ev_severity r,
          ev_title r, ev_category_hints r, ev_payload r, event.more r)"])
    (simp add: event.equality)

instance explanation_ext :: (countable) countable
  by (rule countable_classI
      [of "\<lambda>r. to_nat (ex_text r, ex_suggested_check r, ex_model r, ex_generated_at r, explanation.more r)"])
    (simp add: explanation.equality)

instance message_ext :: (countable) countable
  by (rule countable_classI [of "\<lambda>r. to_nat (msg_event r, msg_explanation r, message.more r)"])
    (simp add: message.equality)

section \<open>A demonstration codec\<close>

definition demo_print :: "'a::countable \<Rightarrow> string" where
  "demo_print x = replicate (to_nat x) (CHR ''x'')"

definition demo_read :: "string \<Rightarrow> 'a::countable option" where
  "demo_read s = (if \<exists>x :: 'a. s = demo_print x then Some (from_nat (length s)) else None)"

lemma demo_read_print [simp]: "demo_read (demo_print x) = Some x"
  by (auto simp: demo_read_def demo_print_def)

lemma demo_print_inj: "inj demo_print"
  by (rule injI) (metis demo_read_print option.inject)

end
