(* ===== verification/Offline_Buffer.thy ===== *)
theory Offline_Buffer
  imports Countability "HOL-Library.Multiset"
begin

text \<open>
  \<^verbatim>\<open>crates/ravn-agent/src/buffer.rs\<close> and the publishing part of \<^verbatim>\<open>main.rs\<close>: the
  agent's bounded outbox for messages it could not publish. The table is the list of its rows; an SQL
  statement is a function on that list, and a statement that fails is an input. The text of a message
  is serde's, a parameter.
\<close>

section \<open>The outbox table\<close>

record outbox_row =
  ob_rowid :: nat
  ob_event_id :: string
  ob_message :: string
  ob_enqueued_at :: int

record message_codec =
  mc_print :: "message \<Rightarrow> string"
  mc_parse :: "string \<Rightarrow> message option"
  mc_id :: "uuid \<Rightarrow> string"
  mc_wire :: "message \<Rightarrow> bool"

text \<open>
  What the agent relies on: a message reads back from its text, and ids have distinct texts. The
  first holds of the messages \<open>mc_wire\<close>: an extra entry that repeats the name of a payload field
  is flattened over it, so such a message is not among them.
\<close>

definition codec_ok :: "message_codec \<Rightarrow> bool" where
  "codec_ok M \<longleftrightarrow> (\<forall>m. mc_wire M m \<longrightarrow> mc_parse M (mc_print M m) = Some m) \<and> inj (mc_id M)"

text \<open>\<open>usize\<close> is 64 bits wide; the cap is cast to \<open>i64\<close> where a statement uses it.\<close>

record buffer =
  buf_rows :: "outbox_row list"
  buf_max :: u64

definition buffer_open :: "outbox_row list \<Rightarrow> u64 \<Rightarrow> buffer" where
  "buffer_open rows mx = \<lparr>buf_rows = rows, buf_max = max mx 1\<rparr>"

definition row_age :: "outbox_row \<Rightarrow> int \<times> nat" where
  "row_age r = (ob_enqueued_at r, ob_rowid r)"

text \<open>\<open>ORDER BY enqueued_at ASC, rowid ASC\<close>.\<close>

definition oldest_first :: "outbox_row list \<Rightarrow> outbox_row list" where
  "oldest_first rows = sort_key ob_enqueued_at (sort_key ob_rowid rows)"

definition next_rowid :: "outbox_row list \<Rightarrow> nat" where
  "next_rowid rows = Suc (fold max (map ob_rowid rows) 0)"

definition insert_or_ignore :: "string \<Rightarrow> string \<Rightarrow> int \<Rightarrow> outbox_row list \<Rightarrow> outbox_row list" where
  "insert_or_ignore i text now rows =
     (if i \<in> ob_event_id ` set rows then rows
      else rows @ [\<lparr>ob_rowid = next_rowid rows, ob_event_id = i, ob_message = text, ob_enqueued_at = now\<rparr>])"

definition prune_limit :: "u64 \<Rightarrow> outbox_row list \<Rightarrow> nat" where
  "prune_limit mx rows = nat (max 0 (int (length rows) - sint mx))"

definition pruned_ids :: "u64 \<Rightarrow> outbox_row list \<Rightarrow> string list" where
  "pruned_ids mx rows = map ob_event_id (take (prune_limit mx rows) (oldest_first rows))"

definition delete_ids :: "string list \<Rightarrow> outbox_row list \<Rightarrow> outbox_row list" where
  "delete_ids is rows = filter (\<lambda>r. ob_event_id r \<notin> set is) rows"

text \<open>
  \<open>enqueue\<close>: success, and the buffer. \<open>ins\<close> and \<open>del\<close> say whether the two statements succeed;
  they are not one transaction.
\<close>

definition buffer_enqueue :: "message_codec \<Rightarrow> bool \<Rightarrow> bool \<Rightarrow> int \<Rightarrow> message \<Rightarrow> buffer \<Rightarrow> bool \<times> buffer" where
  "buffer_enqueue M ins del now m b =
     (if \<not> ins then (False, b)
      else
        let rows = insert_or_ignore (mc_id M (ev_id (msg_event m))) (mc_print M m) now (buf_rows b)
        in if \<not> del then (False, b\<lparr>buf_rows := rows\<rparr>)
           else (True, b\<lparr>buf_rows := delete_ids (pruned_ids (buf_max b) rows) rows\<rparr>))"

text \<open>\<open>LIMIT n\<close> with \<open>n as i64\<close>: a negative limit is no limit.\<close>

definition sql_limit :: "u64 \<Rightarrow> 'a list \<Rightarrow> 'a list" where
  "sql_limit n xs = (if sint n < 0 then xs else take (nat (sint n)) xs)"

fun drain_rows :: "message_codec \<Rightarrow> outbox_row list \<Rightarrow> (string \<times> message) list \<times> string list" where
  "drain_rows M [] = ([], [])"
| "drain_rows M (r # rs) =
     (let (out, bad) = drain_rows M rs
      in case mc_parse M (ob_message r) of
           Some m \<Rightarrow> ((ob_event_id r, m) # out, bad)
         | None \<Rightarrow> (out, ob_event_id r # bad))"

definition drain_batch :: "message_codec \<Rightarrow> u64 \<Rightarrow> buffer \<Rightarrow> (string \<times> message) list \<times> buffer" where
  "drain_batch M n b =
     (case drain_rows M (sql_limit n (oldest_first (buf_rows b))) of
        (out, bad) \<Rightarrow> (out, b\<lparr>buf_rows := delete_ids bad (buf_rows b)\<rparr>))"

definition buffer_delete :: "string \<Rightarrow> buffer \<Rightarrow> buffer" where
  "buffer_delete i b = b\<lparr>buf_rows := delete_ids [i] (buf_rows b)\<rparr>"

definition buffer_len :: "buffer \<Rightarrow> nat" where
  "buffer_len b = length (buf_rows b)"

section \<open>Publishing\<close>

text \<open>
  The agent's outbound side: what left the process, and the outbox (\<open>None\<close> when it could not be
  opened). Each publish succeeds or not by an input.
\<close>

record outbound =
  out_sent :: "message list"
  out_buffer :: "buffer option"
  out_published :: nat

record enqueue_io =
  eq_insert :: bool
  eq_prune :: bool
  eq_now :: int

text \<open>One detected message at the end of the loop of \<open>run_detection\<close>.\<close>

definition publish_or_buffer :: "message_codec \<Rightarrow> bool \<Rightarrow> enqueue_io \<Rightarrow> message \<Rightarrow> outbound \<Rightarrow> outbound" where
  "publish_or_buffer M up io m s =
     (if up then s\<lparr>out_sent := out_sent s @ [m], out_published := Suc (out_published s)\<rparr>
      else case out_buffer s of
             None \<Rightarrow> s
           | Some b \<Rightarrow> s\<lparr>out_buffer := Some (snd (buffer_enqueue M (eq_insert io) (eq_prune io) (eq_now io) m b))\<rparr>)"

text \<open>
  One tick of \<open>spawn_flush\<close>: a batch of 100, published in order, each deleted once published (unless
  the delete fails, which is ignored), stopping at the first failure. The list gives the outcome of
  each publish and of the delete that follows.
\<close>

fun flush_batch :: "(string \<times> message) list \<Rightarrow> (bool \<times> bool) list \<Rightarrow> message list \<times> buffer \<Rightarrow> message list \<times> buffer" where
  "flush_batch ((i, m) # ms) ((up, del) # ios) (sent, b) =
     (if up then flush_batch ms ios (sent @ [m], if del then buffer_delete i b else b) else (sent, b))"
| "flush_batch _ _ sb = sb"

definition flush_limit :: u64 where "flush_limit = 100"

definition flush_tick :: "message_codec \<Rightarrow> (bool \<times> bool) list \<Rightarrow> outbound \<Rightarrow> outbound" where
  "flush_tick M ios s =
     (case out_buffer s of
        None \<Rightarrow> s
      | Some b \<Rightarrow>
          (case drain_batch M flush_limit b of
             (batch, b1) \<Rightarrow>
               (case flush_batch batch ios (out_sent s, b1) of
                  (sent, b2) \<Rightarrow> s\<lparr>out_sent := sent, out_buffer := Some b2\<rparr>)))"

section \<open>The table stays a set of distinct rows\<close>

definition rows_distinct :: "outbox_row list \<Rightarrow> bool" where
  "rows_distinct rows \<longleftrightarrow> distinct (map ob_event_id rows) \<and> distinct (map ob_rowid rows)"

lemma set_oldest_first [simp]: "set (oldest_first rows) = set rows"
  by (simp add: oldest_first_def)

lemma length_oldest_first [simp]: "length (oldest_first rows) = length rows"
  by (simp add: oldest_first_def)

lemma mset_oldest_first: "mset (oldest_first rows) = mset rows"
  by (simp add: oldest_first_def)

lemma fold_max_ge: "x \<in> set xs \<or> x \<le> a \<Longrightarrow> x \<le> fold max xs (a :: nat)"
proof (induction xs arbitrary: a)
  case Nil
  then show ?case by simp
next
  case (Cons y ys)
  have "x \<in> set ys \<or> x \<le> max y a" using Cons.prems by auto
  then show ?case using Cons.IH by simp
qed

lemma next_rowid_fresh: "r \<in> set rows \<Longrightarrow> ob_rowid r < next_rowid rows"
  unfolding next_rowid_def by (simp add: less_Suc_eq_le fold_max_ge)

lemma rows_distinct_insert: "rows_distinct rows \<Longrightarrow> rows_distinct (insert_or_ignore i text now rows)"
  by (auto simp: rows_distinct_def insert_or_ignore_def dest: next_rowid_fresh)

lemma rows_distinct_filter: "rows_distinct rows \<Longrightarrow> rows_distinct (filter P rows)"
  by (simp add: rows_distinct_def distinct_map_filter)

lemma distinct_oldest_first: "rows_distinct rows \<Longrightarrow> rows_distinct (oldest_first rows)"
proof -
  assume "rows_distinct rows"
  moreover have "mset (map f (oldest_first rows)) = mset (map f rows)" for f :: "outbox_row \<Rightarrow> 'a"
    by (simp add: mset_oldest_first)
  ultimately show ?thesis by (metis mset_eq_imp_distinct_iff rows_distinct_def)
qed


section \<open>The outbox as a bounded queue\<close>

lemma insort_key_snoc: "f y \<le> f x \<Longrightarrow> insort_key f y (zs @ [x]) = insort_key f y zs @ [x]"
  by (induction zs) auto

lemma sort_key_snoc: "(\<And>y. y \<in> set ys \<Longrightarrow> f y \<le> f x) \<Longrightarrow> sort_key f (ys @ [x]) = sort_key f ys @ [x]"
  by (induction ys) (simp_all add: insort_key_snoc)

lemma oldest_first_snoc:
  assumes "\<And>y. y \<in> set rows \<Longrightarrow> ob_enqueued_at y \<le> ob_enqueued_at r"
    and "\<And>y. y \<in> set rows \<Longrightarrow> ob_rowid y \<le> ob_rowid r"
  shows "oldest_first (rows @ [r]) = oldest_first rows @ [r]"
proof -
  have "sort_key ob_rowid (rows @ [r]) = sort_key ob_rowid rows @ [r]" by (rule sort_key_snoc) (rule assms(2))
  then show ?thesis unfolding oldest_first_def by (metis assms(1) set_sort sort_key_snoc)
qed

lemma oldest_first_filter: "oldest_first (filter P rows) = filter P (oldest_first rows)"
  by (simp add: oldest_first_def filter_sort)

lemma filter_not_in_take:
  assumes "distinct (map f xs)"
  shows "filter (\<lambda>x. f x \<notin> set (map f (take k xs))) xs = drop k xs"
proof -
  let ?P = "\<lambda>x. f x \<notin> set (map f (take k xs))"
  have "set (map f (take k xs)) \<inter> set (map f (drop k xs)) = {}"
    using assms by (metis append_take_drop_id distinct_append map_append)
  then have "filter ?P (drop k xs) = drop k xs" by (intro filter_True) auto
  moreover have "filter ?P (take k xs) = []" by (intro filter_False) auto
  moreover have "filter ?P xs = filter ?P (take k xs) @ filter ?P (drop k xs)"
    by (metis append_take_drop_id filter_append)
  ultimately show ?thesis by simp
qed

lemma oldest_first_delete_prefix:
  assumes "rows_distinct rows"
  shows "oldest_first (delete_ids (map ob_event_id (take k (oldest_first rows))) rows) = drop k (oldest_first rows)"
proof -
  have "distinct (map ob_event_id (oldest_first rows))"
    using distinct_oldest_first [OF assms] by (simp add: rows_distinct_def)
  then show ?thesis unfolding delete_ids_def oldest_first_filter by (rule filter_not_in_take)
qed

text \<open>
  A well-formed outbox: distinct ids and row numbers, every row the text of a message with its id,
  no row from the future, and a cap that fits \<open>i64\<close>.
\<close>

definition row_of :: "message_codec \<Rightarrow> outbox_row \<Rightarrow> message \<Rightarrow> bool" where
  "row_of M r m \<longleftrightarrow> mc_wire M m \<and> ob_message r = mc_print M m \<and> ob_event_id r = mc_id M (ev_id (msg_event m))"

definition outbox_ok :: "message_codec \<Rightarrow> int \<Rightarrow> buffer \<Rightarrow> bool" where
  "outbox_ok M now b \<longleftrightarrow>
     rows_distinct (buf_rows b) \<and> 0 < buf_max b \<and> unat (buf_max b) < 2 ^ 63
     \<and> length (buf_rows b) \<le> unat (buf_max b)
     \<and> (\<forall>r\<in>set (buf_rows b). ob_enqueued_at r \<le> now \<and> (\<exists>m. row_of M r m))"

definition outbox_view :: "message_codec \<Rightarrow> buffer \<Rightarrow> message list" where
  "outbox_view M b = map (\<lambda>r. the (mc_parse M (ob_message r))) (oldest_first (buf_rows b))"

lemma length_outbox_view [simp]: "length (outbox_view M b) = length (buf_rows b)"
  by (simp add: outbox_view_def)

lemma outbox_ok_later: "outbox_ok M now b \<Longrightarrow> now \<le> now' \<Longrightarrow> outbox_ok M now' b"
  unfolding outbox_ok_def by (meson order_trans)

lemma outbox_ok_delete:
  assumes "outbox_ok M now b"
  shows "outbox_ok M now (b\<lparr>buf_rows := delete_ids is (buf_rows b)\<rparr>)"
proof -
  have "length (delete_ids is (buf_rows b)) \<le> length (buf_rows b)" by (simp add: delete_ids_def)
  also have "\<dots> \<le> unat (buf_max b)" using assms by (simp add: outbox_ok_def)
  finally show ?thesis
    using assms by (auto simp: outbox_ok_def delete_ids_def rows_distinct_filter)
qed

lemma sint_small:
  assumes "unat (w :: u64) < 2 ^ 63"
  shows "sint w = int (unat w)"
proof -
  have "int (unat w) < int (2 ^ 63)" using assms by (simp only: of_nat_less_iff)
  then have upper: "uint w < 2 ^ 63" by simp
  have lower: "- (2 ^ 63) \<le> uint w" by (rule order_trans [OF _ uint_ge_0]) simp
  have "LENGTH(64) - Suc 0 = 63" by simp
  with sint_uint [of w] have "sint w = signed_take_bit 63 (uint w)" by (simp only:)
  also have "\<dots> = uint w" by (rule signed_take_bit_int_eq_self [OF lower upper])
  finally show ?thesis by simp
qed

lemma prune_limit_small: "unat mx < 2 ^ 63 \<Longrightarrow> prune_limit mx rows = length rows - unat mx"
  unfolding prune_limit_def by (subst sint_small) (simp_all only: nat_minus_as_int max_def, auto)

lemma parse_row: "codec_ok M \<Longrightarrow> row_of M r m \<Longrightarrow> mc_parse M (ob_message r) = Some m"
  by (simp add: codec_ok_def row_of_def)

text \<open>
  C18: the outbox is a bounded queue. While the clock does not run backwards, buffering a message
  whose event is already there changes nothing; otherwise the message joins at the end and the
  oldest ones beyond the cap fall out. The outbox stays well formed and within its cap.
\<close>

theorem outbox_is_bounded_queue:
  assumes M: "codec_ok M" and wire: "mc_wire M m" and ok: "outbox_ok M t b" and "t \<le> now"
    and enq: "buffer_enqueue M True True now m b = (res, b')"
  shows "res \<and> outbox_ok M now b' \<and> length (buf_rows b') \<le> unat (buf_max b)
     \<and> outbox_view M b' =
         (if mc_id M (ev_id (msg_event m)) \<in> ob_event_id ` set (buf_rows b) then outbox_view M b
          else drop (Suc (length (outbox_view M b)) - unat (buf_max b)) (outbox_view M b @ [m]))"
proof (cases "mc_id M (ev_id (msg_event m)) \<in> ob_event_id ` set (buf_rows b)")
  case True
  with ok have "prune_limit (buf_max b) (buf_rows b) = 0" by (simp add: outbox_ok_def prune_limit_small)
  with True enq have "res" "b' = b" by (auto simp: buffer_enqueue_def insert_or_ignore_def pruned_ids_def delete_ids_def)
  with True ok show ?thesis using outbox_ok_later [OF ok \<open>t \<le> now\<close>] by (simp add: outbox_ok_def)
next
  case False
  define r where "r = \<lparr>ob_rowid = next_rowid (buf_rows b), ob_event_id = mc_id M (ev_id (msg_event m)),
    ob_message = mc_print M m, ob_enqueued_at = now\<rparr>"
  define rows where "rows = buf_rows b @ [r]"
  let ?k = "Suc (length (buf_rows b)) - unat (buf_max b)"
  have rows: "insert_or_ignore (mc_id M (ev_id (msg_event m))) (mc_print M m) now (buf_rows b) = rows"
    using False by (simp add: insert_or_ignore_def rows_def r_def)
  have distinct: "rows_distinct rows" using ok rows_distinct_insert rows by (metis outbox_ok_def)
  have k: "prune_limit (buf_max b) rows = ?k" using ok by (simp add: outbox_ok_def prune_limit_small rows_def)
  have b': "res" "b' = b\<lparr>buf_rows := delete_ids (map ob_event_id (take ?k (oldest_first rows))) rows\<rparr>"
    using enq by (auto simp: buffer_enqueue_def rows pruned_ids_def k)
  have sorted: "oldest_first rows = oldest_first (buf_rows b) @ [r]"
    unfolding rows_def
  proof (rule oldest_first_snoc)
    fix y assume y: "y \<in> set (buf_rows b)"
    with ok \<open>t \<le> now\<close> show "ob_enqueued_at y \<le> ob_enqueued_at r" by (auto simp: outbox_ok_def r_def)
    show "ob_rowid y \<le> ob_rowid r" using next_rowid_fresh [OF y] by (simp add: r_def)
  qed
  have kept: "oldest_first (buf_rows b') = drop ?k (oldest_first (buf_rows b) @ [r])"
    using oldest_first_delete_prefix [OF distinct, of ?k] b'(2) sorted by simp
  then have len: "length (buf_rows b') = Suc (length (buf_rows b)) - ?k" by (metis length_oldest_first length_drop length_append_singleton)
  have "the (mc_parse M (ob_message r)) = m" using M wire by (simp add: r_def codec_ok_def)
  with kept have view: "outbox_view M b' = drop ?k (outbox_view M b @ [m])" 
    by (simp only: outbox_view_def drop_map [symmetric] map_append list.map)
  have "row_of M r m" using wire by (simp add: row_of_def r_def)
  then have "\<forall>q\<in>set rows. ob_enqueued_at q \<le> now \<and> (\<exists>m. row_of M q m)"
    using ok \<open>t \<le> now\<close> by (auto simp: outbox_ok_def rows_def r_def)
  moreover have "set (buf_rows b') \<subseteq> set rows" "rows_distinct (buf_rows b')"
    using b'(2) rows_distinct_filter [OF distinct] by (auto simp: delete_ids_def)
  ultimately have "outbox_ok M now b'" using ok len b'(2) by (auto simp: outbox_ok_def)
  with b'(1) view False len show ?thesis by simp
qed

text \<open>A demonstration outbox of one row, and messages told apart by their event ids.\<close>

definition demo_message :: "uuid \<Rightarrow> message" where
  "demo_message i = message_new
     \<lparr>ev_id = i, ev_occurred_at = 0, ev_observed_at = 0, ev_agent_id = AgentId 1, ev_host = ''web'', ev_severity = Error,
      ev_title = ''unit failed'', ev_category_hints = [],
      ev_payload = FailedUnit \<lparr>fu_unit = ''nginx.service'', fu_result = ''exit-code'', fu_recent_log = [], fu_extra = []\<rparr>\<rparr>"

definition demo_outbox_codec :: message_codec where
  "demo_outbox_codec = \<lparr>mc_print = demo_print, mc_parse = demo_read, mc_id = demo_print, mc_wire = \<lambda>_. True\<rparr>"

lemma demo_outbox_codec_ok: "codec_ok demo_outbox_codec"
  by (simp add: codec_ok_def demo_outbox_codec_def demo_print_inj)

lemma demo_message_id [simp]: "ev_id (msg_event (demo_message i)) = i"
  by (simp add: demo_message_def message_new_def)

lemma demo_ids [simp]: "mc_id demo_outbox_codec i = mc_id demo_outbox_codec j \<longleftrightarrow> i = j"
  using demo_outbox_codec_ok by (auto simp: codec_ok_def dest: injD)

definition demo_outbox :: "nat \<Rightarrow> message list \<Rightarrow> buffer" where
  "demo_outbox n ms = \<lparr>buf_rows = map (\<lambda>(k, m). \<lparr>ob_rowid = k, ob_event_id = mc_id demo_outbox_codec (ev_id (msg_event m)),
     ob_message = mc_print demo_outbox_codec m, ob_enqueued_at = 0\<rparr>) (enumerate 1 ms), buf_max = of_nat n\<rparr>"

lemma demo_wire [simp]: "mc_wire demo_outbox_codec m"
  by (simp add: demo_outbox_codec_def)

lemma demo_outbox_ok: "outbox_ok demo_outbox_codec 0 (demo_outbox 1 [demo_message 1])"
  by (auto simp: outbox_ok_def rows_distinct_def demo_outbox_def row_of_def)

lemma demo_outbox_view: "outbox_view demo_outbox_codec (demo_outbox 1 [demo_message 1]) = [demo_message 1]"
  using demo_outbox_codec_ok by (simp add: outbox_view_def demo_outbox_def oldest_first_def codec_ok_def)

theorem outbox_is_bounded_queue_witness:
  "\<exists>b'. buffer_enqueue demo_outbox_codec True True 5 (demo_message 2) (demo_outbox 1 [demo_message 1]) = (True, b')
     \<and> outbox_view demo_outbox_codec b' = [demo_message 2]"
proof -
  obtain res b' where e: "buffer_enqueue demo_outbox_codec True True 5 (demo_message 2) (demo_outbox 1 [demo_message 1]) = (res, b')"
    by fastforce
  have "mc_id demo_outbox_codec (ev_id (msg_event (demo_message 2)))
      \<notin> ob_event_id ` set (buf_rows (demo_outbox 1 [demo_message 1]))"
    by (simp add: demo_outbox_def)
  with outbox_is_bounded_queue [OF demo_outbox_codec_ok demo_wire demo_outbox_ok _ e] e show ?thesis
    by (auto simp: demo_outbox_view) (simp add: demo_outbox_def)
qed

section \<open>Flushing\<close>

lemma drain_rows_wf:
  assumes "codec_ok M" "\<forall>r\<in>set rs. \<exists>m. row_of M r m"
  shows "drain_rows M rs = (map (\<lambda>r. (ob_event_id r, the (mc_parse M (ob_message r)))) rs, [])"
  using assms(2)
proof (induction rs)
  case Nil
  then show ?case by simp
next
  case (Cons r rs)
  then obtain m where "mc_parse M (ob_message r) = Some m" using parse_row [OF assms(1)] by auto
  with Cons show ?case by simp
qed

lemma delete_ids_Cons: "delete_ids is (delete_ids [i] rows) = delete_ids (i # is) rows"
  by (auto simp: delete_ids_def intro: filter_cong)

lemma delete_ids_Nil [simp]: "delete_ids [] rows = rows"
  by (simp add: delete_ids_def)

lemma flush_batch_exact:
  assumes "\<forall>x\<in>set ios. snd x"
  shows "flush_batch batch ios (sent, b) =
     (let p = length (takeWhile fst (take (length batch) ios))
      in (sent @ map snd (take p batch), b\<lparr>buf_rows := delete_ids (map fst (take p batch)) (buf_rows b)\<rparr>))"
  using assms
proof (induction batch ios "(sent, b)" arbitrary: sent b rule: flush_batch.induct)
  case (1 i m ms up del ios sent b)
  then show ?case by (simp add: buffer_delete_def delete_ids_Cons Let_def)
qed (simp_all add: Let_def)

definition flushed :: "(bool \<times> bool) list \<Rightarrow> nat \<Rightarrow> nat" where
  "flushed ios n = length (takeWhile fst (take (min 100 n) ios))"

lemma flushed_le: "flushed ios n \<le> 100" "flushed ios n \<le> n"
  using length_takeWhile_le [of fst "take (min 100 n) ios"] by (simp_all add: flushed_def)

lemma flush_tick_exact:
  assumes M: "codec_ok M" and ok: "outbox_ok M t b" and b: "out_buffer s = Some b" and del: "\<forall>x\<in>set ios. snd x"
  shows "\<exists>b'. flush_tick M ios s =
      s\<lparr>out_sent := out_sent s @ take (flushed ios (length (buf_rows b))) (outbox_view M b), out_buffer := Some b'\<rparr>
    \<and> outbox_ok M t b' \<and> outbox_view M b' = drop (flushed ios (length (buf_rows b))) (outbox_view M b)"
proof -
  let ?rs = "oldest_first (buf_rows b)" and ?g = "\<lambda>r. (ob_event_id r, the (mc_parse M (ob_message r)))"
  let ?p = "flushed ios (length (buf_rows b))"
  have limit: "sql_limit flush_limit ?rs = take 100 ?rs"
    using sint_small [of flush_limit] by (simp add: sql_limit_def flush_limit_def)
  have "\<forall>r\<in>set (take 100 ?rs). \<exists>m. row_of M r m" using ok by (auto simp: outbox_ok_def dest: in_set_takeD)
  then have drain: "drain_batch M flush_limit b = (map ?g (take 100 ?rs), b)"
    by (simp add: drain_batch_def limit drain_rows_wf [OF M])
  have len: "length (map ?g (take 100 ?rs)) = min 100 (length (buf_rows b))" by simp
  have p: "min ?p 100 = ?p" using flushed_le(1) [of ios "length (buf_rows b)"] by simp
  define b' where "b' = b\<lparr>buf_rows := delete_ids (map ob_event_id (take ?p ?rs)) (buf_rows b)\<rparr>"
  have "flush_batch (map ?g (take 100 ?rs)) ios (out_sent s, b) = (out_sent s @ take ?p (outbox_view M b), b')"
    unfolding flush_batch_exact [OF del] Let_def len flushed_def [symmetric]
    by (simp add: take_map [symmetric] p b'_def outbox_view_def comp_def)
  then have tick: "flush_tick M ios s = s\<lparr>out_sent := out_sent s @ take ?p (outbox_view M b), out_buffer := Some b'\<rparr>"
    by (simp add: flush_tick_def b drain)
  have "rows_distinct (buf_rows b)" using ok by (simp add: outbox_ok_def)
  then have "oldest_first (buf_rows b') = drop ?p ?rs" unfolding b'_def by (simp add: oldest_first_delete_prefix)
  then have "outbox_view M b' = drop ?p (outbox_view M b)" by (simp add: outbox_view_def drop_map)
  with tick show ?thesis using outbox_ok_delete [OF ok] unfolding b'_def by blast
qed

text \<open>
  C19: once the control plane is reachable again, the outbox empties. After enough ticks in which
  every publish and every delete succeeds (one per hundred buffered messages), all buffered messages
  have been sent, oldest first, each once, and nothing is left.
\<close>

theorem outbox_drains:
  assumes "codec_ok M" "outbox_ok M t b" "out_buffer s = Some b" "length (buf_rows b) \<le> 100 * k"
  shows "\<exists>b'. (flush_tick M (replicate 100 (True, True)) ^^ k) s =
           s\<lparr>out_sent := out_sent s @ outbox_view M b, out_buffer := Some b'\<rparr> \<and> buf_rows b' = []"
  using assms(2-4)
proof (induction k arbitrary: s b)
  case 0
  then show ?case by (intro exI [of _ b]) (simp add: outbox_view_def oldest_first_def)
next
  case (Suc k)
  let ?ios = "replicate 100 (True, True)" and ?n = "length (buf_rows b)"
  have p: "flushed ?ios ?n = min 100 ?n" by (simp add: flushed_def)
  obtain b1 where b1: "flush_tick M ?ios s = s\<lparr>out_sent := out_sent s @ take (min 100 ?n) (outbox_view M b), out_buffer := Some b1\<rparr>"
    "outbox_ok M t b1" "outbox_view M b1 = drop (min 100 ?n) (outbox_view M b)"
    using flush_tick_exact [OF assms(1) Suc.prems(1,2), of ?ios] p by auto
  from b1(3) have "length (buf_rows b1) = ?n - min 100 ?n" by (metis length_drop length_outbox_view)
  with Suc.prems(3) have "length (buf_rows b1) \<le> 100 * k" by simp
  from Suc.IH [OF b1(2) _ this, of "flush_tick M ?ios s"] b1(1) obtain b2 where
    "(flush_tick M ?ios ^^ k) (flush_tick M ?ios s) = s\<lparr>out_sent := out_sent s @ take (min 100 ?n) (outbox_view M b)
       @ outbox_view M b1, out_buffer := Some b2\<rparr>" "buf_rows b2 = []" by auto
  with b1(3) show ?case by (intro exI [of _ b2]) (simp add: funpow_swap1)
qed

definition demo_outbound :: outbound where
  "demo_outbound = \<lparr>out_sent = [], out_buffer = Some (demo_outbox 1 [demo_message 1]), out_published = 0\<rparr>"

theorem outbox_drains_witness:
  "\<exists>b'. (flush_tick demo_outbox_codec (replicate 100 (True, True)) ^^ 1) demo_outbound =
     demo_outbound\<lparr>out_sent := [demo_message 1], out_buffer := Some b'\<rparr> \<and> buf_rows b' = []"
proof -
  have s: "out_buffer demo_outbound = Some (demo_outbox 1 [demo_message 1])" "out_sent demo_outbound = []"
    by (simp_all add: demo_outbound_def)
  have "length (buf_rows (demo_outbox 1 [demo_message 1])) \<le> 100 * 1" by (simp add: demo_outbox_def)
  from outbox_drains [OF demo_outbox_codec_ok demo_outbox_ok s(1) this] show ?thesis
    unfolding demo_outbox_view s(2) append_Nil .
qed

section \<open>No alarm is lost\<close>

datatype out_op = Detected bool enqueue_io message | Tick "(bool \<times> bool) list"

fun out_run :: "message_codec \<Rightarrow> out_op list \<Rightarrow> outbound \<Rightarrow> outbound" where
  "out_run M [] s = s"
| "out_run M (Detected up io m # ops) s = out_run M ops (publish_or_buffer M up io m s)"
| "out_run M (Tick ios # ops) s = out_run M ops (flush_tick M ios s)"

definition id_of :: "message_codec \<Rightarrow> message \<Rightarrow> string" where
  "id_of M m = mc_id M (ev_id (msg_event m))"

definition sql_works :: "out_op \<Rightarrow> bool" where
  "sql_works p = (case p of Detected _ io _ \<Rightarrow> eq_insert io \<and> eq_prune io | Tick _ \<Rightarrow> True)"

fun alarms_of :: "out_op list \<Rightarrow> message list" where
  "alarms_of [] = []"
| "alarms_of (Detected up io m # ops) = m # alarms_of ops"
| "alarms_of (Tick ios # ops) = alarms_of ops"

text \<open>The event ids that are accounted for: sent, or waiting in the outbox.\<close>

definition accounted :: "message_codec \<Rightarrow> message list \<times> buffer \<Rightarrow> string set" where
  "accounted M sb = id_of M ` set (fst sb) \<union> ob_event_id ` set (buf_rows (snd sb))"

lemma flush_batch_accounted:
  assumes "\<forall>(i, m)\<in>set batch. i = id_of M m"
  shows "accounted M sb \<subseteq> accounted M (flush_batch batch ios sb)
     \<and> set (buf_rows (snd (flush_batch batch ios sb))) \<subseteq> set (buf_rows (snd sb))
     \<and> length (buf_rows (snd (flush_batch batch ios sb))) \<le> length (buf_rows (snd sb))
     \<and> buf_max (snd (flush_batch batch ios sb)) = buf_max (snd sb)"
  using assms
proof (induction batch ios sb rule: flush_batch.induct)
  case (1 i m ms up del ios sent b)
  show ?case
  proof (cases up)
    case True
    let ?b1 = "if del then buffer_delete i b else b"
    from 1 True have IH: "accounted M (sent @ [m], ?b1) \<subseteq> accounted M (flush_batch ms ios (sent @ [m], ?b1))"
      "set (buf_rows (snd (flush_batch ms ios (sent @ [m], ?b1)))) \<subseteq> set (buf_rows ?b1)"
      "length (buf_rows (snd (flush_batch ms ios (sent @ [m], ?b1)))) \<le> length (buf_rows ?b1)"
      "buf_max (snd (flush_batch ms ios (sent @ [m], ?b1))) = buf_max ?b1" by auto
    have "i = id_of M m" using 1(2) by simp
    then have "accounted M (sent, b) \<subseteq> accounted M (sent @ [m], ?b1)"
      by (auto simp: accounted_def buffer_delete_def delete_ids_def)
    moreover have "set (buf_rows ?b1) \<subseteq> set (buf_rows b)" "length (buf_rows ?b1) \<le> length (buf_rows b)"
      "buf_max ?b1 = buf_max b"
      by (auto simp: buffer_delete_def delete_ids_def)
    ultimately show ?thesis using IH True by (auto intro: order_trans)
  qed simp
qed simp_all

lemma flush_tick_accounted:
  assumes M: "codec_ok M" and b: "out_buffer s = Some b" and rows: "\<forall>r\<in>set (buf_rows b). \<exists>m. row_of M r m"
  shows "\<exists>b'. out_buffer (flush_tick M ios s) = Some b'
     \<and> accounted M (out_sent s, b) \<subseteq> accounted M (out_sent (flush_tick M ios s), b')
     \<and> set (buf_rows b') \<subseteq> set (buf_rows b) \<and> length (buf_rows b') \<le> length (buf_rows b) \<and> buf_max b' = buf_max b"
proof -
  let ?rs = "sql_limit flush_limit (oldest_first (buf_rows b))"
  let ?g = "\<lambda>r. (ob_event_id r, the (mc_parse M (ob_message r)))"
  have rs: "set ?rs \<subseteq> set (buf_rows b)" by (auto simp: sql_limit_def dest: in_set_takeD)
  with rows have wf: "\<forall>r\<in>set ?rs. \<exists>m. row_of M r m" by blast
  have drain: "drain_batch M flush_limit b = (map ?g ?rs, b)" by (simp add: drain_batch_def drain_rows_wf [OF M wf])
  have "\<forall>(i, m)\<in>set (map ?g ?rs). i = id_of M m"
    using wf parse_row [OF M] by (fastforce simp: id_of_def row_of_def)
  note acc = flush_batch_accounted [OF this, of "(out_sent s, b)" ios]
  obtain sent2 b2 where "flush_batch (map ?g ?rs) ios (out_sent s, b) = (sent2, b2)" by fastforce
  with acc show ?thesis by (auto simp: flush_tick_def b drain)
qed

lemma publish_accounted:
  assumes "sql_works (Detected up io m)" "out_buffer s = Some b" "\<forall>r\<in>set (buf_rows b). \<exists>m. row_of M r m"
    and "unat (buf_max b) < 2 ^ 63" "mc_wire M m" "Suc (length (buf_rows b)) \<le> unat (buf_max b)"
  shows "\<exists>b1. out_buffer (publish_or_buffer M up io m s) = Some b1
    \<and> accounted M (out_sent s, b) \<union> {id_of M m} \<subseteq> accounted M (out_sent (publish_or_buffer M up io m s), b1)
    \<and> (\<forall>r\<in>set (buf_rows b1). \<exists>m. row_of M r m) \<and> length (buf_rows b1) \<le> Suc (length (buf_rows b)) \<and> buf_max b1 = buf_max b"
proof (cases up)
  case True
  with assms(2,3) show ?thesis
    by (intro exI [of _ b]) (auto simp: publish_or_buffer_def accounted_def)
next
  case False
  define rows where "rows = insert_or_ignore (id_of M m) (mc_print M m) (eq_now io) (buf_rows b)"
  have wf: "\<forall>r\<in>set rows. \<exists>m. row_of M r m"
    using assms(3,5) by (auto simp: rows_def insert_or_ignore_def row_of_def id_of_def)
  have len: "length rows \<le> Suc (length (buf_rows b))" by (simp add: rows_def insert_or_ignore_def)
  with assms(4,6) have "prune_limit (buf_max b) rows = 0" by (simp add: prune_limit_small)
  then have "out_buffer (publish_or_buffer M up io m s) = Some (b\<lparr>buf_rows := rows\<rparr>)"
    "out_sent (publish_or_buffer M up io m s) = out_sent s"
    using False assms(1,2)
    by (simp_all add: publish_or_buffer_def buffer_enqueue_def sql_works_def rows_def [unfolded id_of_def, symmetric]
        pruned_ids_def)
  moreover have "ob_event_id ` set rows = insert (id_of M m) (ob_event_id ` set (buf_rows b))"
    by (auto simp: rows_def insert_or_ignore_def)
  ultimately show ?thesis using wf len by (intro exI [of _ "b\<lparr>buf_rows := rows\<rparr>"]) (auto simp: accounted_def)
qed

lemma run_accounted:
  assumes "codec_ok M" "list_all sql_works ops" "out_buffer s = Some b"
    and "\<forall>r\<in>set (buf_rows b). \<exists>m. row_of M r m" "unat (buf_max b) < 2 ^ 63"
    and "\<forall>m\<in>set (alarms_of ops). mc_wire M m"
    and "length (buf_rows b) + length (alarms_of ops) \<le> unat (buf_max b)"
  shows "\<exists>b'. out_buffer (out_run M ops s) = Some b'
     \<and> accounted M (out_sent s, b) \<union> id_of M ` set (alarms_of ops) \<subseteq> accounted M (out_sent (out_run M ops s), b')"
  using assms(2-7)
proof (induction ops arbitrary: s b)
  case Nil
  then show ?case by simp
next
  case (Cons p ops)
  show ?case
  proof (cases p)
    case (Tick ios)
    obtain b1 where b1: "out_buffer (flush_tick M ios s) = Some b1"
      "accounted M (out_sent s, b) \<subseteq> accounted M (out_sent (flush_tick M ios s), b1)"
      "set (buf_rows b1) \<subseteq> set (buf_rows b)" "length (buf_rows b1) \<le> length (buf_rows b)" "buf_max b1 = buf_max b"
      using flush_tick_accounted [OF assms(1) Cons.prems(2,3)] by blast
    with Cons.prems Tick Cons.IH [of "flush_tick M ios s" b1] show ?thesis by fastforce
  next
    case (Detected up io m)
    obtain b1 where b1: "out_buffer (publish_or_buffer M up io m s) = Some b1"
      "accounted M (out_sent s, b) \<union> {id_of M m} \<subseteq> accounted M (out_sent (publish_or_buffer M up io m s), b1)"
      "\<forall>r\<in>set (buf_rows b1). \<exists>m. row_of M r m" "length (buf_rows b1) \<le> Suc (length (buf_rows b))" "buf_max b1 = buf_max b"
      using publish_accounted [of up io m s b M] Cons.prems Detected by auto
    with Cons.prems Detected Cons.IH [of "publish_or_buffer M up io m s" b1] show ?thesis by fastforce
  qed
qed

text \<open>
  No alarm is lost. Over any sequence of detections and flushes, with the control plane coming
  and going, every detected event has left the process or waits in the outbox, as long as the
  outbox's statements succeed and its cap is not reached by the number of detections.
\<close>

theorem no_alarm_lost:
  assumes "codec_ok M" "list_all sql_works ops" "out_buffer s = Some b"
    and "\<forall>r\<in>set (buf_rows b). \<exists>m. row_of M r m" "unat (buf_max b) < 2 ^ 63"
    and "\<forall>m\<in>set (alarms_of ops). mc_wire M m"
    and "length (buf_rows b) + length (alarms_of ops) \<le> unat (buf_max b)"
  shows "\<exists>b'. out_buffer (out_run M ops s) = Some b'
     \<and> accounted M (out_sent s, b) \<union> id_of M ` set (alarms_of ops) \<subseteq> accounted M (out_sent (out_run M ops s), b')"
  by (rule run_accounted [OF assms])

theorem no_alarm_lost_witness:
  "let s = \<lparr>out_sent = [], out_buffer = Some (demo_outbox 8 []), out_published = 0\<rparr>;
       ops = [Detected False \<lparr>eq_insert = True, eq_prune = True, eq_now = 3\<rparr> (demo_message 1), Tick [(False, True)],
              Detected True \<lparr>eq_insert = True, eq_prune = True, eq_now = 3\<rparr> (demo_message 2), Tick [(True, True)]]
   in \<exists>b'. out_buffer (out_run demo_outbox_codec ops s) = Some b'
        \<and> {id_of demo_outbox_codec (demo_message 1), id_of demo_outbox_codec (demo_message 2)}
            \<subseteq> accounted demo_outbox_codec (out_sent (out_run demo_outbox_codec ops s), b')"
proof -
  let ?s = "\<lparr>out_sent = [], out_buffer = Some (demo_outbox 8 []), out_published = 0\<rparr>"
  let ?ops = "[Detected False \<lparr>eq_insert = True, eq_prune = True, eq_now = 3\<rparr> (demo_message 1), Tick [(False, True)],
              Detected True \<lparr>eq_insert = True, eq_prune = True, eq_now = 3\<rparr> (demo_message 2), Tick [(True, True)]]"
  have "buf_rows (demo_outbox 8 []) = []" "buf_max (demo_outbox 8 []) = 8" by (simp_all add: demo_outbox_def)
  then have "\<exists>b'. out_buffer (out_run demo_outbox_codec ?ops ?s) = Some b' \<and> accounted demo_outbox_codec (out_sent ?s, demo_outbox 8 [])
      \<union> id_of demo_outbox_codec ` set (alarms_of ?ops) \<subseteq> accounted demo_outbox_codec (out_sent (out_run demo_outbox_codec ?ops ?s), b')"
    by (intro no_alarm_lost [OF demo_outbox_codec_ok]) (simp_all add: sql_works_def)
  then obtain b' where "out_buffer (out_run demo_outbox_codec ?ops ?s) = Some b'"
    "id_of demo_outbox_codec ` set (alarms_of ?ops) \<subseteq> accounted demo_outbox_codec (out_sent (out_run demo_outbox_codec ?ops ?s), b')"
    by blast
  then show ?thesis
    unfolding Let_def by (intro exI [of _ b'] conjI) (assumption, simp only: alarms_of.simps, simp)
qed

end
