(* ===== verification/Failed_Units.thy ===== *)
theory Failed_Units
  imports Core_Types Text
begin

text \<open>
  \<^verbatim>\<open>crates/ravn-agent/src/detection/failed_unit.rs\<close>: the tap that polls systemd for failed
  units and reports one once it has stayed failed for the grace window. Instants and durations are
  nanoseconds since the process started; \<open>saturating_duration_since\<close> is subtraction of natural
  numbers. D-Bus and \<open>journalctl\<close> answer by inputs.
\<close>

section \<open>The tracker\<close>

record grace_tracker =
  gt_pending :: "string \<rightharpoonup> nat"
  gt_emitted :: "string set"

definition tracker_new :: grace_tracker where
  "tracker_new = \<lparr>gt_pending = Map.empty, gt_emitted = {}\<rparr>"

text \<open>The loop of \<open>observe\<close> over the failed units, in the order the hash set yields them.\<close>

fun observe_loop :: "nat \<Rightarrow> nat \<Rightarrow> string list \<Rightarrow> grace_tracker \<Rightarrow> string list \<times> grace_tracker" where
  "observe_loop now grace [] t = ([], t)"
| "observe_loop now grace (n # ns) t =
     (if n \<in> gt_emitted t then observe_loop now grace ns t
      else
        let first_seen = (case gt_pending t n of Some f \<Rightarrow> f | None \<Rightarrow> now)
        in if grace \<le> now - first_seen then
             (case observe_loop now grace ns
                     (t\<lparr>gt_pending := (gt_pending t)(n := None), gt_emitted := insert n (gt_emitted t)\<rparr>) of
                (out, t') \<Rightarrow> (n # out, t'))
           else observe_loop now grace ns (t\<lparr>gt_pending := (gt_pending t)(n \<mapsto> first_seen)\<rparr>))"

definition observe :: "string list \<Rightarrow> nat \<Rightarrow> nat \<Rightarrow> grace_tracker \<Rightarrow> string list \<times> grace_tracker" where
  "observe current_failed now grace t =
     observe_loop now grace current_failed
       (t\<lparr>gt_pending := gt_pending t |` set current_failed,
          gt_emitted := gt_emitted t \<inter> set current_failed\<rparr>)"

section \<open>The tap\<close>

record unit_status =
  us_name :: string
  us_description :: string
  us_load_state :: string
  us_active_state :: string
  us_sub_state :: string
  us_followed :: string
  us_unit_path :: string
  us_job_id :: u32
  us_job_type :: string
  us_job_path :: string

record failed_unit_tap =
  ft_agent_id :: uuid
  ft_host :: string
  ft_user_bus :: bool
  ft_poll_interval :: nat
  ft_grace :: nat

text \<open>\<open>build_event\<close>, with the fresh id and the clock.\<close>

definition failed_unit_event ::
    "failed_unit_tap \<Rightarrow> uuid \<Rightarrow> datetime \<Rightarrow> string \<Rightarrow> string \<Rightarrow> string list \<Rightarrow> string \<Rightarrow> event" where
  "failed_unit_event tap i now unit result log active_state =
     \<lparr>ev_id = i, ev_occurred_at = now, ev_observed_at = now, ev_agent_id = AgentId (ft_agent_id tap),
      ev_host = ft_host tap, ev_severity = Error, ev_title = ''unit failed: '' @ unit, ev_category_hints = [],
      ev_payload = FailedUnit \<lparr>fu_unit = unit, fu_result = result, fu_recent_log = log,
        fu_extra = btree_insert ''active_state'' (JStr active_state) []\<rparr>\<rparr>"

text \<open>
  What the world answers while the events of one poll are built: the \<open>Result\<close> property of a unit,
  the text \<open>journalctl\<close> prints (after \<open>from_utf8_lossy\<close>), whether the channel takes the message, and
  the ids and times of the events.
\<close>

record unit_io =
  ui_result :: "string \<Rightarrow> string option"
  ui_journal :: "string list \<Rightarrow> string option"
  ui_fresh :: "string \<Rightarrow> uuid \<times> datetime"
  ui_open :: "string \<Rightarrow> bool"

definition journal_args :: "string \<Rightarrow> bool \<Rightarrow> string list" where
  "journal_args unit user =
     (if user then [''--user''] else []) @ [''-u'', unit, ''-n'', ''12'', ''-o'', ''cat'', ''--no-pager'']"

definition recent_log :: "unit_io \<Rightarrow> string \<Rightarrow> bool \<Rightarrow> string list" where
  "recent_log io unit user =
     (case ui_journal io (journal_args unit user) of Some text \<Rightarrow> str_lines text | None \<Rightarrow> [])"

definition unit_by_name :: "unit_status list \<Rightarrow> string \<Rightarrow> unit_status option" where
  "unit_by_name units = map_of (rev (map (\<lambda>u. (us_name u, u)) units))"

text \<open>The units to report, in order: the messages sent, and whether the tap goes on.\<close>

fun emit_units :: "failed_unit_tap \<Rightarrow> unit_io \<Rightarrow> unit_status list \<Rightarrow> string list \<Rightarrow> message list \<times> bool" where
  "emit_units tap io units [] = ([], True)"
| "emit_units tap io units (n # ns) =
     (case unit_by_name units n of
        None \<Rightarrow> emit_units tap io units ns
      | Some u \<Rightarrow>
          let result = (case ui_result io (us_unit_path u) of Some r \<Rightarrow> r | None \<Rightarrow> us_sub_state u);
              log = recent_log io (us_name u) (ft_user_bus tap);
              (i, now) = ui_fresh io (us_name u);
              event = failed_unit_event tap i now (us_name u) result log (us_active_state u)
          in if ui_open io (us_name u) then
               (case emit_units tap io units ns of (ms, go) \<Rightarrow> (message_new event # ms, go))
             else ([], False))"

definition failed_names :: "unit_status list \<Rightarrow> string set" where
  "failed_names units = set (map us_name (filter (\<lambda>u. us_active_state u = ''failed'') units))"

text \<open>
  One tick of \<open>run\<close>: \<open>closed\<close> is \<open>tx.is_closed()\<close>, \<open>listed\<close> the answer of \<open>ListUnits\<close>, and \<open>order\<close>
  the order in which the hash set of failed names is traversed.
\<close>

definition poll_units ::
    "failed_unit_tap \<Rightarrow> unit_io \<Rightarrow> bool \<Rightarrow> unit_status list option \<Rightarrow> string list \<Rightarrow> nat \<Rightarrow> grace_tracker
      \<Rightarrow> message list \<times> grace_tracker \<times> bool" where
  "poll_units tap io closed listed order now t =
     (if closed then ([], t, False)
      else case listed of
             None \<Rightarrow> ([], t, True)
           | Some units \<Rightarrow>
               (case observe order now (ft_grace tap) t of
                  (to_emit, t') \<Rightarrow>
                    if to_emit = [] then ([], t', True)
                    else (case emit_units tap io units to_emit of (ms, go) \<Rightarrow> (ms, t', go))))"

section \<open>When a unit is reported\<close>

text \<open>What one observation does to one unit: it is reported, and its entries change.\<close>

definition due :: "nat \<Rightarrow> nat \<Rightarrow> string \<Rightarrow> grace_tracker \<Rightarrow> bool" where
  "due now grace u t \<longleftrightarrow>
     u \<notin> gt_emitted t \<and> grace \<le> now - (case gt_pending t u of Some f \<Rightarrow> f | None \<Rightarrow> now)"

lemma observe_loop_unit:
  assumes "observe_loop now grace ns t = (out, t')" "distinct ns"
  shows "u \<in> set out \<longleftrightarrow> u \<in> set ns \<and> due now grace u t"
    and "u \<in> gt_emitted t' \<longleftrightarrow> u \<in> gt_emitted t \<or> u \<in> set ns \<and> due now grace u t"
    and "gt_pending t' u =
       (if u \<in> set ns \<and> u \<notin> gt_emitted t then
          if due now grace u t then None
          else Some (case gt_pending t u of Some f \<Rightarrow> f | None \<Rightarrow> now)
        else gt_pending t u)"
proof -
  have "(u \<in> set out \<longleftrightarrow> u \<in> set ns \<and> due now grace u t)
     \<and> (u \<in> gt_emitted t' \<longleftrightarrow> u \<in> gt_emitted t \<or> u \<in> set ns \<and> due now grace u t)
     \<and> gt_pending t' u =
       (if u \<in> set ns \<and> u \<notin> gt_emitted t then
          if due now grace u t then None
          else Some (case gt_pending t u of Some f \<Rightarrow> f | None \<Rightarrow> now)
        else gt_pending t u)"
    using assms
  proof (induction ns arbitrary: t out)
    case Nil
    then show ?case by simp
  next
    case (Cons n ns)
    then show ?case
      by (cases "n \<in> gt_emitted t"; cases "due now grace n t"; cases "u = n")
         (auto simp: due_def Let_def split: prod.splits)
  qed
  then show "u \<in> set out \<longleftrightarrow> u \<in> set ns \<and> due now grace u t"
    and "u \<in> gt_emitted t' \<longleftrightarrow> u \<in> gt_emitted t \<or> u \<in> set ns \<and> due now grace u t"
    and "gt_pending t' u =
       (if u \<in> set ns \<and> u \<notin> gt_emitted t then
          if due now grace u t then None
          else Some (case gt_pending t u of Some f \<Rightarrow> f | None \<Rightarrow> now)
        else gt_pending t u)"
    by auto
qed

lemma observe_loop_distinct: "observe_loop now grace ns t = (out, t') \<Longrightarrow> distinct ns \<Longrightarrow> distinct out"
proof (induction ns arbitrary: t out)
  case Nil
  then show ?case by simp
next
  case (Cons n ns)
  then show ?case
    by (auto simp: Let_def observe_loop_unit(1) split: if_splits prod.splits)
qed

text \<open>A history of observations, oldest first: the time and the failed units of each.\<close>

type_synonym unit_history = "(nat \<times> string list) list"

definition observe_all :: "nat \<Rightarrow> unit_history \<Rightarrow> grace_tracker" where
  "observe_all grace h = foldl (\<lambda>t (now, failed). snd (observe failed now grace t)) tracker_new h"

text \<open>The run of observations at the end of the history in which the unit was failed throughout.\<close>

definition episode :: "string \<Rightarrow> unit_history \<Rightarrow> unit_history" where
  "episode u h = rev (takeWhile (\<lambda>(_, failed). u \<in> set failed) (rev h))"

definition lasted :: "nat \<Rightarrow> unit_history \<Rightarrow> bool" where
  "lasted grace ep \<longleftrightarrow> ep \<noteq> [] \<and> (\<exists>(t, _)\<in>set ep. grace \<le> t - fst (hd ep))"

lemma episode_Nil [simp]: "episode u [] = []"
  by (simp add: episode_def)

lemma episode_snoc [simp]: "episode u (h @ [(now, failed)]) = (if u \<in> set failed then episode u h @ [(now, failed)] else [])"
  by (simp add: episode_def)

lemma observe_all_snoc [simp]: "observe_all grace (h @ [(now, failed)]) = snd (observe failed now grace (observe_all grace h))"
  by (simp add: observe_all_def)

lemma lasted_snoc:
  "lasted grace (ep @ [(now, failed)]) \<longleftrightarrow>
     lasted grace ep \<or> grace \<le> now - (if ep = [] then now else fst (hd ep))"
  by (auto simp: lasted_def)

lemma lasted_Nil [simp]: "\<not> lasted grace []"
  by (simp add: lasted_def)

lemma lasted_single [simp]: "lasted grace [(now, failed)] \<longleftrightarrow> grace = 0"
  by (simp add: lasted_def)

lemma tracker_exact:
  assumes "\<forall>(_, failed)\<in>set h. distinct failed"
  shows "(u \<in> gt_emitted (observe_all grace h) \<longleftrightarrow> lasted grace (episode u h))
    \<and> gt_pending (observe_all grace h) u =
        (if episode u h = [] \<or> lasted grace (episode u h) then None else Some (fst (hd (episode u h))))"
  using assms
proof (induction h rule: rev_induct)
  case Nil
  then show ?case by (simp add: observe_all_def tracker_new_def lasted_def)
next
  case (snoc o' h)
  obtain now failed where o': "o' = (now, failed)" by (cases o')
  obtain out t' where obs: "observe failed now grace (observe_all grace h) = (out, t')" by fastforce
  have "distinct failed" using snoc.prems o' by simp
  from observe_loop_unit [OF obs [unfolded observe_def] this, of u] snoc.IH snoc.prems obs show ?case
    by (cases "u \<in> set failed"; cases "episode u h = []"; cases "lasted grace (episode u h)")
       (simp_all add: o' lasted_snoc due_def restrict_map_def)
qed

lemma observe_after:
  assumes "\<forall>(_, failed)\<in>set (h @ [(now, failed)]). distinct failed"
  shows "u \<in> set (fst (observe failed now grace (observe_all grace h))) \<longleftrightarrow>
     u \<in> set failed \<and> \<not> lasted grace (episode u h) \<and> lasted grace (episode u (h @ [(now, failed)]))"
proof -
  obtain out t' where obs: "observe failed now grace (observe_all grace h) = (out, t')" by fastforce
  have d: "distinct failed" "\<forall>(_, failed)\<in>set h. distinct failed" using assms by auto
  from observe_loop_unit(1) [OF obs [unfolded observe_def] d(1), of u] tracker_exact [OF d(2), of u grace] obs show ?thesis
    by (cases "u \<in> set failed"; cases "episode u h = []"; cases "lasted grace (episode u h)")
       (simp_all add: lasted_snoc due_def restrict_map_def)
qed

section \<open>What a poll sends\<close>

definition reported_unit :: "message \<Rightarrow> string" where
  "reported_unit m = (case ev_payload (msg_event m) of FailedUnit p \<Rightarrow> fu_unit p | _ \<Rightarrow> [])"

lemma unit_by_name_Some: "unit_by_name units n = Some u \<Longrightarrow> u \<in> set units \<and> us_name u = n"
  by (auto simp: unit_by_name_def dest!: map_of_SomeD)

lemma unit_by_name_ex: "n \<in> us_name ` set units \<Longrightarrow> \<exists>u. unit_by_name units n = Some u"
  unfolding unit_by_name_def by (metis (no_types, lifting) domD dom_map_of_conv_image_fst image_image image_cong fst_conv set_map set_rev)

lemma emit_units_all:
  assumes "\<forall>n. ui_open io n" "set ns \<subseteq> us_name ` set units"
  shows "\<exists>ms. emit_units tap io units ns = (ms, True) \<and> map reported_unit ms = ns"
  using assms(2)
proof (induction ns)
  case Nil
  then show ?case by simp
next
  case (Cons n ns)
  then obtain ms where ms: "emit_units tap io units ns = (ms, True)" "map reported_unit ms = ns" by auto
  from Cons.prems obtain u where u: "unit_by_name units n = Some u" using unit_by_name_ex [of n units] by auto
  with unit_by_name_Some [OF u] ms assms(1) show ?case
    by (auto simp: Let_def reported_unit_def message_new_def failed_unit_event_def split: prod.splits)
qed

text \<open>
  C21: a failed unit is reported exactly when it has stayed failed, at every poll, for the grace
  window, and once: at the first poll of the episode that is at least the grace window after the
  episode's first poll. Each poll sends one message per such unit and no other, and the tap goes on
  in the state that the history of polls determines.
\<close>

theorem failed_unit_reported_exactly:
  assumes h: "\<forall>(_, failed)\<in>set h. distinct failed"
    and order: "distinct order" "set order = failed_names units"
    and up: "\<forall>n. ui_open io n"
  shows "\<exists>ms. poll_units tap io False (Some units) order now (observe_all (ft_grace tap) h) =
        (ms, observe_all (ft_grace tap) (h @ [(now, order)]), True)
    \<and> distinct (map reported_unit ms)
    \<and> set (map reported_unit ms) =
        {u \<in> failed_names units. \<not> lasted (ft_grace tap) (episode u h)
           \<and> lasted (ft_grace tap) (episode u (h @ [(now, order)]))}"
proof -
  let ?t = "observe_all (ft_grace tap) h"
  obtain out t' where obs: "observe order now (ft_grace tap) ?t = (out, t')" by fastforce
  have due: "set out = {u \<in> failed_names units. \<not> lasted (ft_grace tap) (episode u h)
      \<and> lasted (ft_grace tap) (episode u (h @ [(now, order)]))}"
    using observe_after [of h now order _ "ft_grace tap"] h order obs by auto
  then have "set out \<subseteq> us_name ` set units" by (auto simp: failed_names_def)
  from emit_units_all [OF up this, of tap] obtain ms where
    ms: "emit_units tap io units out = (ms, True)" "map reported_unit ms = out" by blast
  have "distinct out" using obs order(1) unfolding observe_def by (rule observe_loop_distinct)
  moreover have "poll_units tap io False (Some units) order now ?t = (ms, t', True)"
    using ms obs by (auto simp: poll_units_def)
  moreover have "observe_all (ft_grace tap) (h @ [(now, order)]) = t'" using obs by simp
  ultimately show ?thesis using due ms(2) by (intro exI [of _ ms] conjI) (simp_all only:)
qed

definition demo_tap :: failed_unit_tap where
  "demo_tap = \<lparr>ft_agent_id = 1, ft_host = ''web'', ft_user_bus = False, ft_poll_interval = 5, ft_grace = 7\<rparr>"

definition demo_unit :: "string \<Rightarrow> string \<Rightarrow> unit_status" where
  "demo_unit n st = \<lparr>us_name = n, us_description = [], us_load_state = ''loaded'', us_active_state = st,
     us_sub_state = st, us_followed = [], us_unit_path = ''/'' @ n, us_job_id = 0, us_job_type = [], us_job_path = ''/''\<rparr>"

definition demo_unit_io :: unit_io where
  "demo_unit_io = \<lparr>ui_result = \<lambda>_. Some ''exit-code'', ui_journal = \<lambda>_. None, ui_fresh = \<lambda>_. (1, 0), ui_open = \<lambda>_. True\<rparr>"

theorem failed_unit_reported_exactly_witness:
  "\<exists>ms t. poll_units demo_tap demo_unit_io False
       (Some [demo_unit ''nginx'' ''failed'', demo_unit ''sshd'' ''active'', demo_unit ''cron'' ''failed''])
       [''nginx'', ''cron''] 10 (observe_all 7 [(0, [''nginx'']), (5, [''nginx''])]) = (ms, t, True)
     \<and> map reported_unit ms = [''nginx'']"
proof -
  let ?units = "[demo_unit ''nginx'' ''failed'', demo_unit ''sshd'' ''active'', demo_unit ''cron'' ''failed'']"
  let ?h = "[(0, [''nginx'']), (5, [''nginx''])] :: unit_history"
  let ?due = "\<lambda>u. \<not> lasted 7 (episode u ?h) \<and> lasted 7 (episode u (?h @ [(10, [''nginx'', ''cron''])]))"
  have failed: "failed_names ?units = {''nginx'', ''cron''}" by (simp add: failed_names_def demo_unit_def)
  have "?due ''nginx''" "\<not> ?due ''cron''" by (simp_all add: episode_def lasted_def)
  then have due: "{u \<in> failed_names ?units. ?due u} = {''nginx''}" unfolding failed by blast
  have grace: "ft_grace demo_tap = 7" by (simp add: demo_tap_def)
  have h: "\<forall>(_, failed)\<in>set ?h. distinct failed" "distinct [''nginx'', ''cron'']" "set [''nginx'', ''cron''] = failed_names ?units"
    "\<forall>n. ui_open demo_unit_io n" by (simp_all add: failed demo_unit_io_def)
  from failed_unit_reported_exactly [OF h, of demo_tap 10, unfolded grace due]
  obtain ms where ms: "poll_units demo_tap demo_unit_io False (Some ?units) [''nginx'', ''cron''] 10 (observe_all 7 ?h) =
      (ms, observe_all 7 (?h @ [(10, [''nginx'', ''cron''])]), True)"
    and r: "distinct (map reported_unit ms)" "set (map reported_unit ms) = {''nginx''}" by (elim exE conjE)
  have "map reported_unit ms = [''nginx'']" using r by (cases ms rule: remdups_adj.cases) auto
  with ms show ?thesis by (intro exI conjI)
qed

end
