(* ===== verification/Detection.thy ===== *)
theory Detection
  imports Core_Types Text
begin

text \<open>
  The other taps of \<^verbatim>\<open>crates/ravn-agent/src/detection\<close>: the journal reader
  (\<^verbatim>\<open>journald.rs\<close>), the access-event classifier it calls (\<^verbatim>\<open>auth.rs\<close>), the watcher of
  configuration files (\<^verbatim>\<open>config_drift.rs\<close>) and the watcher of NixOS generations
  (\<^verbatim>\<open>update.rs\<close>). Clocks, fresh ids, files and child processes answer by inputs; chrono's
  conversion of microseconds, SHA-256 and the text diff are parameters.
\<close>

section \<open>Access events\<close>

record detected =
  dt_action :: string
  dt_user :: "string option"
  dt_remote :: "string option"
  dt_succeeded :: bool
  dt_severity :: severity

type_synonym journal_record = "(string \<times> json) list"

definition record_field :: "journal_record \<Rightarrow> string \<Rightarrow> string option" where
  "record_field r k = (case map_of r k of Some (JStr s) \<Rightarrow> Some s | _ \<Rightarrow> None)"

definition word_after :: "string \<Rightarrow> string \<Rightarrow> string option" where
  "word_after s marker =
     (case str_find marker s of
        None \<Rightarrow> None
      | Some i \<Rightarrow>
          (case first_word (drop (i + length marker) s) of
             None \<Rightarrow> None
           | Some w \<Rightarrow>
               let w = trim_end_any '':;,.'' w in if w = [] then None else Some w))"

definition sudo_user :: "string \<Rightarrow> string option" where
  "sudo_user msg =
     (case (case word_after msg ''ruser='' of Some u \<Rightarrow> if u \<noteq> [] then Some u else None | None \<Rightarrow> None) of
        Some u \<Rightarrow> Some u
      | None \<Rightarrow>
          let head = trim (case split_once '' : '' msg of Some (h, _) \<Rightarrow> h | None \<Rightarrow> msg)
          in if head \<noteq> [] \<and> CHR '' '' \<notin> set head then Some head else word_after msg ''logname='')"

definition classify_ssh :: "string \<Rightarrow> detected option" where
  "classify_ssh msg =
     (case strip_prefix ''Accepted '' msg of
        Some rest \<Rightarrow>
          Some \<lparr>dt_action = ''ssh_login'', dt_user = word_after rest ''for '', dt_remote = word_after rest ''from '',
                dt_succeeded = True, dt_severity = Notice\<rparr>
      | None \<Rightarrow>
          if prefix ''Failed password for'' msg \<or> prefix ''Failed publickey for'' msg then
            Some \<lparr>dt_action = ''ssh_failed'',
                  dt_user = (if contains msg ''invalid user'' then word_after msg ''invalid user '' else word_after msg ''for ''),
                  dt_remote = word_after msg ''from '', dt_succeeded = False, dt_severity = Warning\<rparr>
          else if prefix ''Invalid user'' msg then
            Some \<lparr>dt_action = ''ssh_invalid_user'', dt_user = word_after msg ''Invalid user '',
                  dt_remote = word_after msg ''from '', dt_succeeded = False, dt_severity = Warning\<rparr>
          else None)"

definition classify_sudo :: "string \<Rightarrow> detected option" where
  "classify_sudo msg =
     (if contains msg ''authentication failure'' \<or> contains msg ''incorrect password'' then
        Some \<lparr>dt_action = ''sudo_failed'', dt_user = sudo_user msg, dt_remote = None,
              dt_succeeded = False, dt_severity = Warning\<rparr>
      else if contains msg ''TTY='' \<and> contains msg ''COMMAND='' then
        Some \<lparr>dt_action = ''sudo'', dt_user = sudo_user msg, dt_remote = None,
              dt_succeeded = True, dt_severity = Notice\<rparr>
      else None)"

definition classify_audit :: "string \<Rightarrow> detected option" where
  "classify_audit msg =
     (if \<not> (contains msg ''USER_AUTH'' \<or> contains msg ''USER_LOGIN'') then None
      else
        let succeeded = contains msg ''res=success''
        in Some \<lparr>dt_action = ''audit_user_auth'', dt_user = word_after msg ''acct='',
                 dt_remote = (case word_after msg ''addr='' of Some a \<Rightarrow> if a \<noteq> ''?'' then Some a else None | None \<Rightarrow> None),
                 dt_succeeded = succeeded, dt_severity = (if succeeded then Info else Warning)\<rparr>)"

text \<open>
  What an event takes from the outside: its id, chrono's \<open>timestamp_micros\<close>, and the two readings
  of the clock (the first only when the record carries no usable time).
\<close>

record event_env =
  ee_id :: uuid
  ee_micros :: "int \<Rightarrow> datetime option"
  ee_fallback :: datetime
  ee_now :: datetime

definition occurred_at :: "event_env \<Rightarrow> journal_record \<Rightarrow> datetime" where
  "occurred_at E r =
     (case Option.bind (Option.bind (record_field r ''__REALTIME_TIMESTAMP'') parse_i64) (ee_micros E) of
        Some t \<Rightarrow> t | None \<Rightarrow> ee_fallback E)"

definition auth_title :: "detected \<Rightarrow> string" where
  "auth_title d =
     (case (dt_user d, dt_remote d) of
        (Some u, Some r) \<Rightarrow> dt_action d @ '': '' @ u @ '' from '' @ r
      | (Some u, None) \<Rightarrow> dt_action d @ '': '' @ u
      | (None, Some r) \<Rightarrow> dt_action d @ '' from '' @ r
      | (None, None) \<Rightarrow> dt_action d)"

definition auth_detect :: "journal_record \<Rightarrow> detected option" where
  "auth_detect r =
     (let ident = (case record_field r ''SYSLOG_IDENTIFIER'' of
                     Some i \<Rightarrow> i
                   | None \<Rightarrow> (case record_field r ''_COMM'' of Some i \<Rightarrow> i | None \<Rightarrow> []));
          transport = (case record_field r ''_TRANSPORT'' of Some t \<Rightarrow> t | None \<Rightarrow> [])
      in case record_field r ''MESSAGE'' of
           None \<Rightarrow> None
         | Some msg \<Rightarrow>
             if ident = ''sshd'' then classify_ssh msg
             else if ident = ''sudo'' then classify_sudo msg
             else if transport = ''audit'' \<or> ident = ''audit'' \<or> ident = ''auditd'' then classify_audit msg
             else if prefix ''New session'' msg \<or> contains msg ''session opened for user'' then
               Some \<lparr>dt_action = ''session_open'', dt_user = word_after msg ''user '', dt_remote = None,
                     dt_succeeded = True, dt_severity = Info\<rparr>
             else None)"

definition auth_classify :: "event_env \<Rightarrow> journal_record \<Rightarrow> uuid \<Rightarrow> string \<Rightarrow> event option" where
  "auth_classify E r agent host =
     map_option (\<lambda>d.
       \<lparr>ev_id = ee_id E, ev_occurred_at = occurred_at E r, ev_observed_at = ee_now E, ev_agent_id = AgentId agent,
        ev_host = host, ev_severity = dt_severity d, ev_title = auth_title d, ev_category_hints = [],
        ev_payload = Auth \<lparr>au_action = dt_action d, au_user = dt_user d, au_remote_addr = dt_remote d,
          au_succeeded = dt_succeeded d, au_extra = []\<rparr>\<rparr>) (auth_detect r)"

section \<open>The journal\<close>

record journald_tap =
  jt_agent_id :: uuid
  jt_host :: string
  jt_min_priority :: u8
  jt_auth_enable :: bool
  jt_skip_kernel :: bool

definition severity_from_priority :: "u8 \<Rightarrow> severity" where
  "severity_from_priority p =
     (if p \<le> 2 then Critical else if p = 3 then Error else if p = 4 then Warning else if p = 5 then Notice else Info)"

text \<open>The ellipsis is one character of three bytes.\<close>

definition truncate_chars :: "string \<Rightarrow> nat \<Rightarrow> string" where
  "truncate_chars s n =
     (if length (chars s) \<le> n then s else concat (take n (chars s)) @ [CHR 0xE2, CHR 0x80, CHR 0xA6])"

definition stream_priority :: "journald_tap \<Rightarrow> u8" where
  "stream_priority tap = (if jt_auth_enable tap then max (jt_min_priority tap) 6 else jt_min_priority tap)"

definition journalctl_args :: "journald_tap \<Rightarrow> string list" where
  "journalctl_args tap =
     [''--follow'', ''--lines=0'', ''--output=json'', ''--priority='' @ show_nat (unat (stream_priority tap))]"

definition record_priority :: "journal_record \<Rightarrow> u8" where
  "record_priority r = (case Option.bind (record_field r ''PRIORITY'') parse_u8 of Some p \<Rightarrow> p | None \<Rightarrow> 6)"

definition journal_extra :: "journal_record \<Rightarrow> extra" where
  "journal_extra r =
     (let x = (case record_field r ''SYSLOG_IDENTIFIER'' of Some i \<Rightarrow> btree_insert ''syslog_identifier'' (JStr i) [] | None \<Rightarrow> [])
      in case record_field r ''_PID'' of Some p \<Rightarrow> btree_insert ''pid'' (JStr p) x | None \<Rightarrow> x)"

definition record_to_event :: "event_env \<Rightarrow> journald_tap \<Rightarrow> journal_record \<Rightarrow> event option" where
  "record_to_event E tap r =
     (let priority = record_priority r
      in if priority > jt_min_priority tap then None
         else if jt_skip_kernel tap \<and> record_field r ''_TRANSPORT'' = Some ''kernel'' then None
         else case record_field r ''MESSAGE'' of
           None \<Rightarrow> None
         | Some msg \<Rightarrow>
             let unit = record_field r ''_SYSTEMD_UNIT''
             in Some \<lparr>ev_id = ee_id E, ev_occurred_at = occurred_at E r, ev_observed_at = ee_now E,
                      ev_agent_id = AgentId (jt_agent_id tap), ev_host = jt_host tap,
                      ev_severity = severity_from_priority priority,
                      ev_title = (case unit of Some u \<Rightarrow> u @ '': '' @ truncate_chars msg 80 | None \<Rightarrow> truncate_chars msg 100),
                      ev_category_hints = [],
                      ev_payload = Journald \<lparr>jd_unit = unit, jd_priority = Some priority, jd_message = msg,
                        jd_extra = journal_extra r\<rparr>\<rparr>)"

definition journald_classify :: "event_env \<Rightarrow> journald_tap \<Rightarrow> journal_record \<Rightarrow> event option" where
  "journald_classify E tap r =
     (case (if jt_auth_enable tap then auth_classify E r (jt_agent_id tap) (jt_host tap) else None) of
        Some e \<Rightarrow> Some e
      | None \<Rightarrow> record_to_event E tap r)"

text \<open>
  The loop of \<open>run\<close> over the lines of \<open>journalctl\<close>: \<open>parse\<close> is serde's reading of a line as an
  object, \<open>open\<close> tells whether the channel still takes the message.
\<close>

fun journald_run ::
    "(string \<Rightarrow> journal_record option) \<Rightarrow> journald_tap \<Rightarrow> (string \<times> event_env \<times> bool) list \<Rightarrow> message list" where
  "journald_run parse tap [] = []"
| "journald_run parse tap ((line, E, up) # ls) =
     (if line = [] then journald_run parse tap ls
      else case Option.bind (parse line) (journald_classify E tap) of
             None \<Rightarrow> journald_run parse tap ls
           | Some e \<Rightarrow> if up then message_new e # journald_run parse tap ls else [])"

section \<open>Configuration drift\<close>

definition max_text_bytes :: nat where "max_text_bytes = 256 * 1024"

record file_state =
  fs_hash :: string
  fs_text :: "string option"

text \<open>Slicing a string inside a character panics.\<close>

datatype panic = Panic

text \<open>The hex digest of SHA-256, and the diff of two texts printed with its header.\<close>

record drift_lib =
  dl_sha256 :: "string \<Rightarrow> string"
  dl_diff :: "string \<Rightarrow> string \<Rightarrow> string \<Rightarrow> string"

definition unified_diff :: "drift_lib \<Rightarrow> string \<Rightarrow> string \<Rightarrow> string \<Rightarrow> panic + string" where
  "unified_diff L path old new =
     (let diff = dl_diff L path old new
      in if length diff > max_text_bytes then
           if is_char_boundary diff max_text_bytes then
             Inr (take max_text_bytes diff @ [CHR 0x0A, CHR 0xE2, CHR 0x80, CHR 0xA6] @ '' (diff truncated)'')
           else Inl Panic
         else Inr diff)"

definition drift_evaluate ::
    "drift_lib \<Rightarrow> string \<Rightarrow> file_state option \<Rightarrow> string \<Rightarrow> panic + (config_drift_payload \<times> file_state) option" where
  "drift_evaluate L path prev new_bytes =
     (let new_hash = dl_sha256 L new_bytes
      in if map_option fs_hash prev = Some new_hash then Inr None
         else
           let new_text = (if length new_bytes \<le> max_text_bytes \<and> utf8_valid new_bytes then Some new_bytes else None);
               out = (\<lambda>diff. Inr (Some (\<lparr>cd_path = path, cd_old_hash = map_option fs_hash prev, cd_new_hash = new_hash,
                                        cd_diff = diff, cd_extra = []\<rparr>,
                                      \<lparr>fs_hash = new_hash, fs_text = new_text\<rparr>)))
           in case (Option.bind prev fs_text, new_text) of
                (Some old, Some new) \<Rightarrow>
                  (case unified_diff L path old new of Inl p \<Rightarrow> Inl p | Inr d \<Rightarrow> out (Some d))
              | _ \<Rightarrow> out None)"

definition drift_event :: "event_env \<Rightarrow> config_drift_payload \<Rightarrow> uuid \<Rightarrow> string \<Rightarrow> event" where
  "drift_event E p agent host =
     \<lparr>ev_id = ee_id E, ev_occurred_at = ee_now E, ev_observed_at = ee_now E, ev_agent_id = AgentId agent,
      ev_host = host, ev_severity = Warning, ev_title = ''config drift: '' @ cd_path p, ev_category_hints = [],
      ev_payload = ConfigDrift p\<rparr>"

type_synonym baseline = "string \<rightharpoonup> file_state"

text \<open>\<open>process\<close>: \<open>contents\<close> is what reading the path gives, \<open>None\<close> when it fails.\<close>

definition process_path ::
    "drift_lib \<Rightarrow> event_env \<Rightarrow> string \<Rightarrow> string option \<Rightarrow> uuid \<Rightarrow> string \<Rightarrow> baseline \<Rightarrow> panic + (event option \<times> baseline)" where
  "process_path L E path contents agent host base =
     (case contents of
        Some bytes \<Rightarrow>
          (case drift_evaluate L path (base path) bytes of
             Inl p \<Rightarrow> Inl p
           | Inr None \<Rightarrow> Inr (None, base)
           | Inr (Some (payload, st)) \<Rightarrow> Inr (Some (drift_event E payload agent host), base(path \<mapsto> st)))
      | None \<Rightarrow>
          (case base path of
             None \<Rightarrow> Inr (None, base)
           | Some prev \<Rightarrow>
               Inr (Some (drift_event E \<lparr>cd_path = path, cd_old_hash = Some (fs_hash prev), cd_new_hash = ''(removed)'',
                             cd_diff = None, cd_extra = []\<rparr> agent host),
                    base(path := None))))"

text \<open>The baseline at the start: the watched paths that are readable files.\<close>

fun seed_baseline :: "drift_lib \<Rightarrow> (string \<times> bool \<times> string option) list \<Rightarrow> baseline \<Rightarrow> panic + baseline" where
  "seed_baseline L [] base = Inr base"
| "seed_baseline L ((p, watched, contents) # ps) base =
     (if watched then
        (case contents of
           None \<Rightarrow> seed_baseline L ps base
         | Some bytes \<Rightarrow>
             (case drift_evaluate L p None bytes of
                Inl e \<Rightarrow> Inl e
              | Inr None \<Rightarrow> seed_baseline L ps base
              | Inr (Some (_, st)) \<Rightarrow> seed_baseline L ps (base(p \<mapsto> st))))
      else seed_baseline L ps base)"

datatype watch_kind = Modify | Create | Remove | OtherKind

text \<open>
  One notification: each of its paths with whether it is a directory, what reading it gives, and
  whether the channel takes the message. The result is the messages, the baseline, and whether the
  watch goes on.
\<close>

fun watch_paths ::
    "drift_lib \<Rightarrow> uuid \<Rightarrow> string \<Rightarrow> (string \<times> bool \<times> string option \<times> event_env \<times> bool) list \<Rightarrow> baseline
      \<Rightarrow> panic + (message list \<times> baseline \<times> bool)" where
  "watch_paths L agent host [] base = Inr ([], base, True)"
| "watch_paths L agent host ((p, dir, contents, E, up) # ps) base =
     (if dir then watch_paths L agent host ps base
      else case process_path L E p contents agent host base of
             Inl e \<Rightarrow> Inl e
           | Inr (None, base') \<Rightarrow> watch_paths L agent host ps base'
           | Inr (Some ev, base') \<Rightarrow>
               if up then
                 (case watch_paths L agent host ps base' of
                    Inl e \<Rightarrow> Inl e
                  | Inr (ms, b, go) \<Rightarrow> Inr (message_new ev # ms, b, go))
               else Inr ([], base', False))"

definition watch_event ::
    "drift_lib \<Rightarrow> uuid \<Rightarrow> string \<Rightarrow> watch_kind \<Rightarrow> (string \<times> bool \<times> string option \<times> event_env \<times> bool) list \<Rightarrow> baseline
      \<Rightarrow> panic + (message list \<times> baseline \<times> bool)" where
  "watch_event L agent host k ps base = (if k = OtherKind then Inr ([], base, True) else watch_paths L agent host ps base)"

section \<open>System updates\<close>

text \<open>\<open>ut_dir\<close> is the parent of the profile's path, or the current directory.\<close>

record update_tap =
  ut_agent_id :: uuid
  ut_host :: string
  ut_dir :: string

definition parse_generation :: "string \<Rightarrow> u64 option" where
  "parse_generation target =
     (case strip_suffix ''-link'' target of None \<Rightarrow> None | Some s \<Rightarrow> parse_u64 (last (split_on (CHR ''-'') s)))"

text \<open>\<open>read_link\<close> and \<open>file_name\<close> are inputs: the last component of the link's target, if any.\<close>

definition read_generation :: "string option \<Rightarrow> u64 option" where
  "read_generation name = Option.bind name parse_generation"

definition generation_link :: "string \<Rightarrow> u64 \<Rightarrow> string" where
  "generation_link dir n = dir @ ''/system-'' @ show_nat (unat n) @ ''-link''"

text \<open>\<open>nix\<close> answers its arguments with its output when it succeeds.\<close>

definition closure_diff :: "(string list \<Rightarrow> string option) \<Rightarrow> string \<Rightarrow> u64 \<Rightarrow> u64 \<Rightarrow> string list" where
  "closure_diff nix dir from to =
     (case nix [''--extra-experimental-features'', ''nix-command'', ''store'', ''diff-closures'',
                generation_link dir from, generation_link dir to] of
        Some text \<Rightarrow> take 50 (filter (\<lambda>l. trim l \<noteq> []) (str_lines text))
      | None \<Rightarrow> [])"

definition update_event :: "event_env \<Rightarrow> update_tap \<Rightarrow> u64 \<Rightarrow> u64 \<Rightarrow> string list \<Rightarrow> event" where
  "update_event E tap from to changes =
     \<lparr>ev_id = ee_id E, ev_occurred_at = ee_now E, ev_observed_at = ee_now E, ev_agent_id = AgentId (ut_agent_id tap),
      ev_host = ut_host tap, ev_severity = Notice,
      ev_title = ''system updated: generation '' @ show_nat (unat from) @ '' '' @ [CHR 0xE2, CHR 0x86, CHR 0x92]
        @ '' '' @ show_nat (unat to),
      ev_category_hints = [],
      ev_payload = Update \<lparr>up_mechanism = ''nixos'', up_from = Some (show_nat (unat from)),
        up_to = Some (show_nat (unat to)), up_changes = changes, up_extra = []\<rparr>\<rparr>"

text \<open>One poll: the event to send, if any, and the generation to compare the next poll with.\<close>

definition update_poll ::
    "(string list \<Rightarrow> string option) \<Rightarrow> update_tap \<Rightarrow> u64 \<Rightarrow> string option \<times> event_env \<Rightarrow> event option \<times> u64" where
  "update_poll nix tap current i =
     (case i of (link, E) \<Rightarrow>
        (case read_generation link of
           None \<Rightarrow> (None, current)
         | Some latest \<Rightarrow>
             if latest = current then (None, current)
             else (Some (update_event E tap current latest (closure_diff nix (ut_dir tap) current latest)), latest)))"

text \<open>
  The loop of \<open>run\<close>. The flags of a poll: whether the channel was found closed at the tick, and
  whether it took the message.
\<close>

fun update_polls ::
    "(string list \<Rightarrow> string option) \<Rightarrow> update_tap \<Rightarrow> u64 \<Rightarrow> (bool \<times> bool \<times> string option \<times> event_env) list
      \<Rightarrow> message list" where
  "update_polls nix tap current [] = []"
| "update_polls nix tap current ((closed, up, i) # ps) =
     (if closed then []
      else case update_poll nix tap current i of
             (None, current') \<Rightarrow> update_polls nix tap current' ps
           | (Some e, latest) \<Rightarrow> if up then message_new e # update_polls nix tap latest ps else [])"

definition update_run ::
    "(string list \<Rightarrow> string option) \<Rightarrow> update_tap \<Rightarrow> string option \<Rightarrow> (bool \<times> bool \<times> string option \<times> event_env) list
      \<Rightarrow> message list" where
  "update_run nix tap link ps =
     (case read_generation link of None \<Rightarrow> [] | Some current \<Rightarrow> update_polls nix tap current ps)"

end
