(* ===== verification/Detection_Props.thy ===== *)
theory Detection_Props
  imports Detection Failed_Units
begin

text \<open>
  What the taps report. A tap that compares what it reads with what it read last is a change
  detector: a locale states its two laws, and the taps for updates and for configuration drift
  are instances. The classifier of access events is exact on genuine lines; its reading of the
  remote address can be misled by a user name.
\<close>

section \<open>Change detectors\<close>

text \<open>The steps at which a sequence of values changes.\<close>

fun changes :: "'v list \<Rightarrow> ('v \<times> 'v) list" where
  "changes (a # b # xs) = (if a = b then changes (b # xs) else (a, b) # changes (b # xs))"
| "changes xs = []"

text \<open>
  A detector in state \<open>s\<close> remembers the value \<open>view s\<close>; an input shows a new value (\<open>read\<close>) or
  nothing. An output carries the change it reports (\<open>edge\<close>).
\<close>

locale change_detector =
  fixes step :: "'s \<Rightarrow> 'i \<Rightarrow> 'o option \<times> 's"
    and view :: "'s \<Rightarrow> 'v"
    and read :: "'i \<Rightarrow> 'v option"
    and edge :: "'o \<Rightarrow> 'v \<times> 'v"
  assumes quiet: "read i = None \<or> read i = Some (view s) \<Longrightarrow> fst (step s i) = None \<and> view (snd (step s i)) = view s"
    and change: "read i = Some v \<Longrightarrow> v \<noteq> view s \<Longrightarrow>
      (\<exists>x. fst (step s i) = Some x \<and> edge x = (view s, v)) \<and> view (snd (step s i)) = v"
begin

fun outputs :: "'s \<Rightarrow> 'i list \<Rightarrow> 'o list" where
  "outputs s [] = []"
| "outputs s (i # is) = (case fst (step s i) of None \<Rightarrow> [] | Some x \<Rightarrow> [x]) @ outputs (snd (step s i)) is"

lemma outputs_are_changes: "map edge (outputs s is) = changes (view s # List.map_filter read is)"
proof (induction "is" arbitrary: s)
  case Nil
  then show ?case by (simp add: List.map_filter_def)
next
  case (Cons i "is")
  show ?case
  proof (cases "read i = None \<or> read i = Some (view s)")
    case True
    with quiet [OF True] Cons show ?thesis by (auto simp: List.map_filter_simps)
  next
    case False
    then obtain v where v: "read i = Some v" "v \<noteq> view s" by auto
    with change [OF v] Cons show ?thesis by (auto simp: List.map_filter_simps)
  qed
qed

end

section \<open>Updates\<close>

definition update_edge :: "event \<Rightarrow> u64 \<times> u64" where
  "update_edge e =
     (case ev_payload e of
        Update u \<Rightarrow> (the (parse_u64 (the (up_from u))), the (parse_u64 (the (up_to u)))) | _ \<Rightarrow> (0, 0))"

lemma update_edge_event [simp]: "update_edge (update_event E tap a b cs) = (a, b)"
  by (simp add: update_edge_def update_event_def parse_u64_show)

interpretation updates: change_detector "update_poll nix tap" id "\<lambda>(link, E). read_generation link" update_edge
  by unfold_locales (auto simp: update_poll_def split: option.splits prod.splits)

lemma update_polls_open:
  assumes "\<forall>(closed, up, _)\<in>set ps. \<not> closed \<and> up"
  shows "map msg_event (update_polls nix tap current ps) = updates.outputs nix tap current (map (snd \<circ> snd) ps)"
  using assms
proof (induction nix tap current ps rule: update_polls.induct)
  case (2 nix tap current closed up i ps)
  then show ?case by (auto simp: message_new_def split: option.splits prod.splits)
qed simp

lemma split_on_append: "split_on d (s @ d # t) = split_on d s @ split_on d t"
proof (induction s)
  case (Cons c s)
  then show ?case by (cases "split_on d s") auto
qed simp

lemma split_on_last: "d \<notin> set t \<Longrightarrow> last (split_on d (s @ d # t)) = t"
  by (simp add: split_on_append split_on_no_delim)

lemma parse_generation_link: "parse_generation (''system-'' @ show_nat (unat n) @ ''-link'') = Some n"
proof -
  have "CHR ''-'' \<notin> set (show_nat (unat n))"
    using show_nat_digits [of "CHR ''-''" "unat n"] by (auto simp: is_digit_def less_eq_char_def)
  from split_on_last [OF this, of "''system''"]
  have "last (split_on CHR ''-'' (''system-'' @ show_nat (unat n))) = show_nat (unat n)" by simp
  moreover have "strip_suffix ''-link'' ((''system-'' @ show_nat (unat n)) @ ''-link'') = Some (''system-'' @ show_nat (unat n))"
    unfolding strip_suffix_def by (simp add: suffix_def)
  ultimately show ?thesis using parse_u64_show [of n] by (simp add: parse_generation_def)
qed

text \<open>
  The update tap reports every change of the system generation that its polls see, in order, and
  nothing else: the pairs of old and new generation in its messages are the steps at which the
  sequence of generations read changes. Readings that fail count as no reading.
\<close>

theorem updates_reported_exactly:
  assumes "\<forall>(closed, up, _)\<in>set ps. \<not> closed \<and> up" and "read_generation link = Some current"
  shows "map (update_edge \<circ> msg_event) (update_run nix tap link ps) =
    changes (current # List.map_filter (\<lambda>(_, _, link, _). read_generation link) ps)"
proof -
  have "map (update_edge \<circ> msg_event) (update_run nix tap link ps) =
      map update_edge (map msg_event (update_polls nix tap current ps))"
    by (simp add: update_run_def assms(2))
  also have "\<dots> = changes (current # List.map_filter (\<lambda>(link, E). read_generation link) (map (snd \<circ> snd) ps))"
    using updates.outputs_are_changes [of nix tap current "map (snd \<circ> snd) ps"] by (simp add: update_polls_open [OF assms(1)])
  also have "List.map_filter (\<lambda>(link, E). read_generation link) (map (snd \<circ> snd) ps) =
      List.map_filter (\<lambda>(_, _, link, _). read_generation link) ps"
    by (induction ps) (auto simp: List.map_filter_simps split: option.splits)
  finally show ?thesis .
qed

definition demo_env :: event_env where
  "demo_env = \<lparr>ee_id = 1, ee_micros = \<lambda>us. Some (1000 * us), ee_fallback = 0, ee_now = 0\<rparr>"

theorem updates_reported_exactly_witness:
  "map (update_edge \<circ> msg_event)
     (update_run (\<lambda>_. None) \<lparr>ut_agent_id = 1, ut_host = ''web'', ut_dir = ''/nix''\<rparr> (Some ''system-141-link'')
       [(False, True, Some ''system-142-link'', demo_env), (False, True, None, demo_env),
        (False, True, Some ''system-142-link'', demo_env), (False, True, Some ''system-140-link'', demo_env)])
   = [(141, 142), (142, 140)]"
proof -
  have n: "show_nat 141 = ''141''" "show_nat 142 = ''142''" "show_nat 140 = ''140''"
    by code_simp+
  have g: "read_generation (Some ''system-141-link'') = Some 141" "read_generation (Some ''system-142-link'') = Some 142"
    "read_generation (Some ''system-140-link'') = Some 140" "read_generation None = None"
    using parse_generation_link [of 141] parse_generation_link [of 142] parse_generation_link [of 140]
    by (simp_all add: n read_generation_def)
  let ?ps = "[(False, True, Some ''system-142-link'', demo_env), (False, True, None, demo_env),
        (False, True, Some ''system-142-link'', demo_env), (False, True, Some ''system-140-link'', demo_env)]"
  have "\<forall>(closed, up, _)\<in>set ?ps. \<not> closed \<and> up" by simp
  from updates_reported_exactly [OF this g(1)] show ?thesis by (simp add: g List.map_filter_simps)
qed

section \<open>Configuration drift\<close>

lemma unified_diff_Inl_iff:
  "unified_diff L path old new = Inl Panic \<longleftrightarrow>
     max_text_bytes < length (dl_diff L path old new) \<and> \<not> is_char_boundary (dl_diff L path old new) max_text_bytes"
  by (simp add: unified_diff_def Let_def)

definition kept_text :: "string \<Rightarrow> bool" where
  "kept_text s \<longleftrightarrow> length s \<le> max_text_bytes \<and> utf8_valid s"

lemma drift_evaluate_hash: 
  assumes "map_option fs_hash prev \<noteq> Some (dl_sha256 L bytes)" "\<And>old new. unified_diff L path old new \<noteq> Inl Panic"
  shows "\<exists>p st. drift_evaluate L path prev bytes = Inr (Some (p, st)) \<and> cd_path p = path \<and> cd_old_hash p = map_option fs_hash prev
    \<and> cd_new_hash p = dl_sha256 L bytes \<and> fs_hash st = dl_sha256 L bytes"
proof -
  have "\<exists>d. unified_diff L path old new = Inr d" for old new
    using assms(2) [of old new] by (cases "unified_diff L path old new") (auto, metis panic.exhaust)
  then show ?thesis using assms(1) by (auto simp: drift_evaluate_def Let_def split: option.splits sum.splits) (metis sum.distinct(1))
qed

text \<open>
  C34: the watcher dies exactly when the diff to be stored is longer than 256 KiB and its byte at
  that limit lies inside a character: slicing there panics, and the task that watches ends.
\<close>

theorem drift_panics_exactly:
  "process_path L E path contents agent host base = Inl Panic \<longleftrightarrow>
     (\<exists>bytes prev old. contents = Some bytes \<and> base path = Some prev \<and> fs_text prev = Some old
        \<and> fs_hash prev \<noteq> dl_sha256 L bytes \<and> kept_text bytes
        \<and> max_text_bytes < length (dl_diff L path old bytes)
        \<and> \<not> is_char_boundary (dl_diff L path old bytes) max_text_bytes)"
proof -
  have "drift_evaluate L path prev bytes = Inl Panic \<longleftrightarrow>
     (\<exists>st old. prev = Some st \<and> fs_text st = Some old \<and> fs_hash st \<noteq> dl_sha256 L bytes \<and> kept_text bytes
        \<and> unified_diff L path old bytes = Inl Panic)" for prev bytes
    by (cases prev) (auto simp: drift_evaluate_def Let_def kept_text_def split: option.splits sum.splits)
  note drift_evaluate = this
  have "process_path L E path contents agent host base = Inl Panic \<longleftrightarrow>
     (\<exists>bytes. contents = Some bytes \<and> drift_evaluate L path (base path) bytes = Inl Panic)"
    by (auto simp: process_path_def split: option.splits sum.splits)
  then show ?thesis unfolding drift_evaluate unified_diff_Inl_iff by blast
qed

definition demo_drift :: drift_lib where
  "demo_drift = \<lparr>dl_sha256 = \<lambda>s. ''hash of '' @ s,
     dl_diff = \<lambda>_ _ _. replicate 262143 (CHR ''a'') @ [CHR 0xC3, CHR 0xA9]\<rparr>"

theorem drift_panics_exactly_witness:
  "process_path demo_drift demo_env ''/etc/motd'' (Some ''new'') 1 ''web''
     [''/etc/motd'' \<mapsto> \<lparr>fs_hash = ''hash of old'', fs_text = Some ''old''\<rparr>] = Inl Panic"
proof -
  let ?diff = "replicate 262143 (CHR ''a'') @ [CHR 0xC3, CHR 0xA9]"
  have d: "dl_diff demo_drift p a b = ?diff" for p a b by (simp add: demo_drift_def)
  have "?diff ! 262144 = CHR 0xA9" by (simp add: nth_append)
  then have b: "max_text_bytes < length ?diff" "\<not> is_char_boundary ?diff max_text_bytes"
    by (simp_all add: max_text_bytes_def is_char_boundary_def is_continuation_def less_eq_char_def)
  have k: "kept_text ''new''" "dl_sha256 demo_drift ''new'' = ''hash of new''"
    by (simp_all add: kept_text_def max_text_bytes_def between_def demo_drift_def)
  show ?thesis
    unfolding drift_panics_exactly d
    by (intro exI [of _ "''new''"] exI [of _ "\<lparr>fs_hash = ''hash of old'', fs_text = Some ''old''\<rparr>"] exI [of _ "''old''"])
       (intro conjI b k(1); simp add: k(2))
qed

text \<open>The watcher as a change detector on one path.\<close>

definition drift_step ::
    "drift_lib \<Rightarrow> uuid \<Rightarrow> string \<Rightarrow> string \<Rightarrow> baseline \<Rightarrow> string \<times> bool \<times> string option \<times> event_env \<times> bool
      \<Rightarrow> event option \<times> baseline" where
  "drift_step L agent host p base i =
     (case i of (q, dir, contents, E, up) \<Rightarrow>
        if dir then (None, base)
        else case process_path L E q contents agent host base of
               Inl _ \<Rightarrow> (None, base)
             | Inr (e, base') \<Rightarrow> (if q = p then e else None, base'))"

definition drift_read :: "drift_lib \<Rightarrow> string \<Rightarrow> string \<times> bool \<times> string option \<times> event_env \<times> bool \<Rightarrow> string option option" where
  "drift_read L p i =
     (case i of (q, dir, contents, _, _) \<Rightarrow>
        if dir \<or> q \<noteq> p then None else Some (map_option (dl_sha256 L) contents))"

definition drift_edge :: "event \<Rightarrow> string option \<times> string option" where
  "drift_edge e =
     (case ev_payload e of
        ConfigDrift c \<Rightarrow> (cd_old_hash c, if cd_new_hash c = ''(removed)'' then None else Some (cd_new_hash c))
      | _ \<Rightarrow> (None, None))"

definition drift_path :: "event \<Rightarrow> string" where
  "drift_path e = (case ev_payload e of ConfigDrift c \<Rightarrow> cd_path c | _ \<Rightarrow> [])"

text \<open>
  The documented behaviour relied on: a digest is hexadecimal text. And a bound that excludes the
  panic: no diff ends inside a character at the limit.
\<close>

definition drift_safe :: "drift_lib \<Rightarrow> bool" where
  "drift_safe L \<longleftrightarrow> (\<forall>s c. c \<in> set (dl_sha256 L s) \<longrightarrow> c \<noteq> CHR ''('')
     \<and> (\<forall>p a b. length (dl_diff L p a b) \<le> max_text_bytes)"

lemma drift_safe_hash: "drift_safe L \<Longrightarrow> dl_sha256 L s \<noteq> ''(removed)''"
  unfolding drift_safe_def by (metis list.set_intros(1))

lemma drift_safe_diff: "drift_safe L \<Longrightarrow> unified_diff L p a b \<noteq> Inl Panic"
  unfolding drift_safe_def unified_diff_Inl_iff by (metis not_le)

lemma process_path_safe:
  assumes "drift_safe L"
  shows "\<exists>e base'. process_path L E p contents agent host base = Inr (e, base')
    \<and> (\<forall>q. q \<noteq> p \<longrightarrow> base' q = base q) \<and> map_option fs_hash (base' p) = map_option (dl_sha256 L) contents
    \<and> (if map_option fs_hash (base p) = map_option (dl_sha256 L) contents then e = None
       else \<exists>x. e = Some x \<and> drift_path x = p
         \<and> drift_edge x = (map_option fs_hash (base p), map_option (dl_sha256 L) contents))"
proof (cases contents)
  case None
  then show ?thesis
    by (auto simp: process_path_def drift_edge_def drift_path_def drift_event_def split: option.splits)
next
  case (Some bytes)
  show ?thesis
  proof (cases "map_option fs_hash (base p) = Some (dl_sha256 L bytes)")
    case True
    with Some show ?thesis by (auto simp: process_path_def drift_evaluate_def)
  next
    case False
    from drift_evaluate_hash [OF this drift_safe_diff [OF assms], of p] Some False drift_safe_hash [OF assms] show ?thesis
      by (auto simp: process_path_def drift_edge_def drift_path_def drift_event_def)
  qed
qed

lemma drift_detector:
  assumes "drift_safe L"
  shows "change_detector (drift_step L agent host p) (\<lambda>base. map_option fs_hash (base p)) (drift_read L p) drift_edge"
proof
  fix i :: "string \<times> bool \<times> string option \<times> event_env \<times> bool" and base :: baseline
  obtain q dir contents E up where i: "i = (q, dir, contents, E, up)" by (cases i)
  from process_path_safe [OF assms, of E q contents agent host base]
  obtain e base' where pp: "process_path L E q contents agent host base = Inr (e, base')"
    and other: "\<forall>q'. q' \<noteq> q \<longrightarrow> base' q' = base q'" and new: "map_option fs_hash (base' q) = map_option (dl_sha256 L) contents"
    and out: "if map_option fs_hash (base q) = map_option (dl_sha256 L) contents then e = None
       else \<exists>x. e = Some x \<and> drift_path x = q
         \<and> drift_edge x = (map_option fs_hash (base q), map_option (dl_sha256 L) contents)" by (elim exE conjE)
  have step: "drift_step L agent host p base i = (if dir then (None, base) else (if q = p then e else None, base'))"
    by (simp add: drift_step_def i pp)
  show "fst (drift_step L agent host p base i) = None
      \<and> map_option fs_hash (snd (drift_step L agent host p base i) p) = map_option fs_hash (base p)"
    if "drift_read L p i = None \<or> drift_read L p i = Some (map_option fs_hash (base p))"
  proof (cases "dir \<or> q \<noteq> p")
    case True
    with other step show ?thesis by auto
  next
    case False
    with that have "map_option (dl_sha256 L) contents = map_option fs_hash (base p)" by (simp add: drift_read_def i)
    with False step new out show ?thesis by simp
  qed
  show "(\<exists>x. fst (drift_step L agent host p base i) = Some x \<and> drift_edge x = (map_option fs_hash (base p), v))
      \<and> map_option fs_hash (snd (drift_step L agent host p base i) p) = v"
    if "drift_read L p i = Some v" "v \<noteq> map_option fs_hash (base p)" for v
  proof -
    from that have "\<not> dir" "q = p" "v = map_option (dl_sha256 L) contents" by (auto simp: drift_read_def i split: if_splits)
    with step new out that(2) show ?thesis by auto
  qed
qed

lemma watch_paths_outputs:
  assumes "drift_safe L" "\<forall>(_, _, _, _, up)\<in>set ps. up"
  shows "\<exists>ms base'. watch_paths L agent host ps base = Inr (ms, base', True)
    \<and> filter (\<lambda>e. drift_path e = p) (map msg_event ms) = change_detector.outputs (drift_step L agent host p) base ps"
  using assms(2)
proof (induction ps arbitrary: base)
  case Nil
  then show ?case by (simp add: change_detector.outputs.simps [OF drift_detector [OF assms(1)]])
next
  case (Cons i ps)
  obtain q dir contents E up where i: "i = (q, dir, contents, E, up)" by (cases i)
  note outputs = change_detector.outputs.simps [OF drift_detector [OF assms(1)]]
  from process_path_safe [OF assms(1), of E q contents agent host base]
  obtain e base' where pp: "process_path L E q contents agent host base = Inr (e, base')"
    and out: "e = None \<or> (\<exists>x. e = Some x \<and> drift_path x = q)" by (auto split: if_splits)
  from Cons obtain ms b where "watch_paths L agent host ps (if dir then base else base') = Inr (ms, b, True)"
    "filter (\<lambda>e. drift_path e = p) (map msg_event ms)
      = change_detector.outputs (drift_step L agent host p) (if dir then base else base') ps"
    by (meson list.set_intros(2))
  moreover have "drift_step L agent host p base i = (if dir then (None, base) else (if q = p then e else None, base'))"
    by (simp add: drift_step_def i pp)
  ultimately show ?case using out Cons.prems
    by (cases dir) (auto simp: outputs(2) i pp message_new_def)
qed

text \<open>
  The watcher reports exactly the changes. For notifications in any order, about any paths, the
  messages about a path are the steps at which the digest of its contents changes, \<open>None\<close> standing
  for a path that cannot be read; each message carries the digest before and the one after.
\<close>

theorem drift_reported_exactly:
  assumes "drift_safe L" "\<forall>(_, _, _, _, up)\<in>set ps. up" "k \<noteq> OtherKind"
  shows "\<exists>ms base'. watch_event L agent host k ps base = Inr (ms, base', True)
    \<and> map drift_edge (filter (\<lambda>e. drift_path e = p) (map msg_event ms)) =
        changes (map_option fs_hash (base p) # List.map_filter (drift_read L p) ps)"
proof -
  from watch_paths_outputs [OF assms(1,2), of agent host base p] obtain ms base' where
    "watch_paths L agent host ps base = Inr (ms, base', True)"
    "filter (\<lambda>e. drift_path e = p) (map msg_event ms) = change_detector.outputs (drift_step L agent host p) base ps"
    by blast
  then show ?thesis
    using change_detector.outputs_are_changes [OF drift_detector [OF assms(1)], of agent host p base ps] assms(3)
    by (simp add: watch_event_def)
qed

definition safe_drift :: drift_lib where
  "safe_drift = \<lparr>dl_sha256 = \<lambda>s. show_nat (length s), dl_diff = \<lambda>_ _ _. []\<rparr>"

lemma safe_drift_safe: "drift_safe safe_drift"
  using show_nat_digits [of "CHR ''(''"] by (auto simp: drift_safe_def safe_drift_def is_digit_def less_eq_char_def)

theorem drift_reported_exactly_witness:
  "\<exists>ms base'. watch_event safe_drift 1 ''web'' Modify
      [(''/a'', False, Some ''x'', demo_env, True), (''/b'', False, None, demo_env, True),
       (''/a'', False, Some ''y'', demo_env, True), (''/a'', False, None, demo_env, True)] Map.empty = Inr (ms, base', True)
    \<and> map drift_edge (filter (\<lambda>e. drift_path e = ''/a'') (map msg_event ms)) = [(None, Some ''1''), (Some ''1'', None)]"
proof -
  let ?ps = "[(''/a'', False, Some ''x'', demo_env, True), (''/b'', False, None, demo_env, True),
       (''/a'', False, Some ''y'', demo_env, True), (''/a'', False, None, demo_env, True)]"
  have "show_nat 1 = ''1''" by code_simp
  then have "changes (map_option fs_hash (Map.empty ''/a'') # List.map_filter (drift_read safe_drift ''/a'') ?ps)
      = [(None, Some ''1''), (Some ''1'', None)]"
    by (simp add: List.map_filter_simps drift_read_def safe_drift_def)
  moreover have "\<forall>(_, _, _, _, up)\<in>set ?ps. up" by simp
  ultimately show ?thesis
    using drift_reported_exactly [OF safe_drift_safe, of ?ps Modify 1 "''web''" Map.empty "''/a''"] by simp
qed

section \<open>Access events\<close>

text \<open>A word that the classifier reads back: printable, without the punctuation it trims.\<close>

definition clean_word :: "string \<Rightarrow> bool" where
  "clean_word w \<longleftrightarrow> w \<noteq> [] \<and> (\<forall>c\<in>set w. plain_char c) \<and> last w \<notin> set '':;,.''"

lemma clean_word_no_space: "clean_word w \<Longrightarrow> CHR '' '' \<notin> set w"
  by (auto simp: clean_word_def plain_char_def less_eq_char_def)

lemma trim_clean: "clean_word w \<Longrightarrow> trim_end_any '':;,.'' w = w"
  unfolding clean_word_def trim_end_any_def by (cases w rule: rev_cases) auto

lemma word_after_here:
  assumes "CHR '' '' \<notin> set p" "clean_word w"
  shows "word_after (p @ '' '' @ w @ '' '' @ t) (p @ '' '') = Some w"
proof -
  have "str_find (p @ '' '') (p @ '' '' @ w @ '' '' @ t) = Some 0"
    using str_find_word [of p p "w @ '' '' @ t"] assms(1) by simp
  moreover have "first_word (w @ CHR '' '' # t) = Some w"
    using assms(2) by (intro first_word_plain) (auto simp: clean_word_def)
  moreover have "w \<noteq> []" using assms(2) by (simp add: clean_word_def)
  ultimately show ?thesis using trim_clean [OF assms(2)] by (simp add: word_after_def Let_def)
qed

lemma word_after_skip:
  assumes "CHR '' '' \<notin> set p" "CHR '' '' \<notin> set w" "\<not> suffix p w"
  shows "word_after (w @ '' '' @ s) (p @ '' '') = word_after s (p @ '' '')"
  using str_find_word [OF assms(1,2), of s] assms(3)
  by (auto simp: word_after_def add.commute split: option.splits)

lemmas word_after_for = word_after_here [of "''for''", simplified] word_after_skip [of "''for''", simplified]

lemmas word_after_from = word_after_here [of "''from''", simplified] word_after_skip [of "''from''", simplified]

text \<open>
  A successful SSH login is reported with the user and the address of the line, for every method,
  user and address that are printable words; the exceptions are words that end in the markers
  themselves.
\<close>

theorem ssh_login_exact:
  assumes "CHR '' '' \<notin> set m" "\<not> suffix ''for'' m" "\<not> suffix ''from'' m"
    and "clean_word u" "\<not> suffix ''from'' u" "clean_word a"
  shows "classify_ssh (''Accepted '' @ m @ '' for '' @ u @ '' from '' @ a @ '' '' @ t) =
    Some \<lparr>dt_action = ''ssh_login'', dt_user = Some u, dt_remote = Some a, dt_succeeded = True, dt_severity = Notice\<rparr>"
proof -
  let ?rest = "m @ '' '' @ ''for '' @ u @ '' '' @ ''from '' @ a @ '' '' @ t"
  have "word_after ?rest ''for '' = Some u"
    using word_after_for(2) [OF assms(1,2), of "''for '' @ u @ '' '' @ ''from '' @ a @ '' '' @ t"]
      word_after_for(1) [OF assms(4), of "''from '' @ a @ '' '' @ t"] by simp
  moreover have "word_after ?rest ''from '' = Some a"
    using word_after_from(2) [OF assms(1,3), of "''for '' @ u @ '' '' @ ''from '' @ a @ '' '' @ t"]
      word_after_from(2) [of "''for''" "u @ '' '' @ ''from '' @ a @ '' '' @ t"]
      word_after_from(2) [OF clean_word_no_space [OF assms(4)] assms(5), of "''from '' @ a @ '' '' @ t"]
      word_after_from(1) [OF assms(6), of t]
    by (simp add: suffix_Cons)
  ultimately show ?thesis by (simp add: classify_ssh_def strip_prefix_def)
qed

theorem ssh_login_exact_witness:
  "classify_ssh (''Accepted '' @ ''publickey'' @ '' for '' @ ''alice'' @ '' from '' @ ''10.0.0.5'' @ '' '' @ ''port 22 ssh2'') =
    Some \<lparr>dt_action = ''ssh_login'', dt_user = Some ''alice'', dt_remote = Some ''10.0.0.5'', dt_succeeded = True,
      dt_severity = Notice\<rparr>"
proof (rule ssh_login_exact)
  show "clean_word ''alice''" "clean_word ''10.0.0.5''"
    by (simp_all add: clean_word_def plain_char_def less_eq_char_def)
qed (simp_all add: suffix_Cons)

text \<open>
  Whoever tries to log in chooses the address that a failed login is reported with. A user name
  that contains a space, the word \<open>from\<close> and an address puts that address before the real one.
\<close>

theorem ssh_source_spoofable:
  assumes "clean_word n" "\<not> suffix ''from'' n" "clean_word fake"
  shows "\<exists>d. classify_ssh (''Failed password for invalid user '' @ (n @ '' from '' @ fake) @ '' from '' @ real @ '' '' @ t) = Some d
    \<and> dt_action d = ''ssh_failed'' \<and> dt_remote d = Some fake"
proof -
  let ?tail = "n @ '' '' @ ''from '' @ fake @ '' '' @ ''from '' @ real @ '' '' @ t"
  have "word_after (''Failed '' @ ''password '' @ ''for '' @ ''invalid '' @ ''user '' @ ?tail) ''from '' = word_after ?tail ''from ''"
    using word_after_from(2) [of "''Failed''"] word_after_from(2) [of "''password''"] word_after_from(2) [of "''for''"]
      word_after_from(2) [of "''invalid''"] word_after_from(2) [of "''user''"]
    by (simp add: suffix_Cons)
  also have "\<dots> = Some fake"
    using word_after_from(2) [OF clean_word_no_space [OF assms(1)] assms(2)]
      word_after_from(1) [OF assms(3), of "''from '' @ real @ '' '' @ t"] by simp
  finally show ?thesis by (simp add: classify_ssh_def strip_prefix_def)
qed

theorem ssh_source_spoofable_witness:
  "\<exists>d. classify_ssh (''Failed password for invalid user '' @ (''x'' @ '' from '' @ ''10.0.0.1'') @ '' from '' @ ''203.0.113.9'' @ '' '' @ ''port 22'') = Some d
    \<and> dt_action d = ''ssh_failed'' \<and> dt_remote d = Some ''10.0.0.1''"
proof (rule ssh_source_spoofable)
  show "clean_word ''x''" "clean_word ''10.0.0.1''" "\<not> suffix ''from'' ''x''"
    by (simp_all add: clean_word_def plain_char_def less_eq_char_def suffix_Cons)
qed

text \<open>
  The empty remote user of a PAM line is read as the field after it: the word after \<open>ruser=\<close> skips
  the space, so the fallbacks of \<open>sudo_user\<close> are not reached.
\<close>

lemma sudo_user_empty_ruser:
  "sudo_user ''pam_unix(sudo:auth): authentication failure; logname=bob ruser= rhost=10.0.0.5  user=bob'' = Some ''rhost=10.0.0.5''"
  by code_simp

section \<open>The journal\<close>

lemma hd_chars: "chars s = g # gs \<Longrightarrow> hd g = hd s \<and> s \<noteq> []"
  by (cases s) (auto split: list.splits if_splits)

lemma length_chars:
  "length (chars s) = (if s = [] then 0 else Suc (length (filter (\<lambda>c. \<not> is_continuation c) (tl s))))"
proof (induction s)
  case (Cons c s)
  show ?case
  proof (cases "chars s")
    case Nil
    then have "s = []" by (metis concat.simps(1) concat_chars)
    then show ?thesis by simp
  next
    case (Cons g gs)
    then obtain x xs where "s = x # xs" "hd g = x" using hd_chars [OF Cons] by (cases s) auto
    with Cons Cons.IH show ?thesis by auto
  qed
qed simp

lemma length_chars_append: "length (chars (s @ t)) \<le> length (chars s) + length (chars t)"
  unfolding length_chars by (cases s; cases t) auto

lemma chars_tail: "g \<in> set (chars s) \<Longrightarrow> c \<in> set (tl g) \<Longrightarrow> is_continuation c"
proof (induction s arbitrary: g)
  case (Cons x s)
  show ?case
  proof (cases "chars s")
    case Nil
    with Cons.prems show ?thesis by auto
  next
    case (Cons h gs)
    with chars_nonempty [of h s] obtain y ys where "h = y # ys" by (cases h) auto
    with Cons Cons.prems Cons.IH [of h] Cons.IH [of g] show ?thesis by (auto split: if_splits)
  qed
qed simp

lemma length_chars_concat: "\<forall>g\<in>set gs. g \<in> set (chars s) \<Longrightarrow> length (chars (concat gs)) \<le> length gs"
proof (induction gs)
  case (Cons g gs)
  have "length (chars g) = 1"
    using Cons.prems chars_nonempty [of g s] chars_tail [of g s] by (auto simp: length_chars filter_empty_conv)
  with Cons length_chars_append [of g "concat gs"] show ?case by simp
qed simp

lemma length_truncate: "length (chars (truncate_chars s n)) \<le> Suc n"
proof (cases "length (chars s) \<le> n")
  case False
  let ?c = "concat (take n (chars s))"
  have "length (chars ?c) \<le> n"
    using length_chars_concat [of "take n (chars s)" s] by (auto dest: in_set_takeD)
  moreover have "length (chars [CHR 0xE2, CHR 0x80, CHR 0xA6]) = 1"
    by (simp add: is_continuation_def less_eq_char_def)
  ultimately show ?thesis
    using False length_chars_append [of ?c "[CHR 0xE2, CHR 0x80, CHR 0xA6]"] by (simp add: truncate_chars_def)
qed (simp add: truncate_chars_def)

lemma severity_antitone: "p \<le> q \<Longrightarrow> severity_from_priority q \<le> severity_from_priority p"
  unfolding severity_from_priority_def less_eq_severity_def by (auto simp: word_le_nat_alt word_unat_eq_iff)

text \<open>
  An entry of the journal is reported exactly when it is urgent enough, is not kernel noise that
  is to be skipped, and carries a text. Its severity is that of its priority, and its title is
  bounded whatever the length of the text: at most 101 characters, or 83 after the unit's name.
\<close>

theorem journal_entry_reported:
  "case record_to_event E tap r of
     None \<Rightarrow> jt_min_priority tap < record_priority r \<or> record_field r ''MESSAGE'' = None
       \<or> jt_skip_kernel tap \<and> record_field r ''_TRANSPORT'' = Some ''kernel''
   | Some e \<Rightarrow> record_priority r \<le> jt_min_priority tap
       \<and> \<not> (jt_skip_kernel tap \<and> record_field r ''_TRANSPORT'' = Some ''kernel'')
       \<and> ev_severity e = severity_from_priority (record_priority r)
       \<and> length (chars (ev_title e)) \<le>
           (case record_field r ''_SYSTEMD_UNIT'' of Some u \<Rightarrow> length (chars u) + 83 | None \<Rightarrow> 101)"
proof -
  have short: "length (chars (truncate_chars s 100)) \<le> 101" for s using length_truncate [of s 100] by simp
  have long: "length (chars (u @ '': '' @ truncate_chars s 80)) \<le> length (chars u) + 83" for u s
  proof -
    have "length (chars (u @ '': '' @ truncate_chars s 80)) \<le> length (chars u) + length (chars ('': '' @ truncate_chars s 80))"
      by (rule length_chars_append)
    also have "length (chars ('': '' @ truncate_chars s 80)) \<le> length (chars '': '') + length (chars (truncate_chars s 80))"
      by (rule length_chars_append)
    also have "length (chars '': '') \<le> 2" unfolding length_chars by (simp add: is_continuation_def less_eq_char_def)
    finally show ?thesis using length_truncate [of s 80] by simp
  qed
  show ?thesis
  proof (cases "record_to_event E tap r")
    case None
    then show ?thesis by (auto simp: record_to_event_def Let_def not_less split: if_splits option.splits)
  next
    case (Some e)
    then obtain msg where "record_priority r \<le> jt_min_priority tap"
      "\<not> (jt_skip_kernel tap \<and> record_field r ''_TRANSPORT'' = Some ''kernel'')"
      "ev_severity e = severity_from_priority (record_priority r)"
      "ev_title e = (case record_field r ''_SYSTEMD_UNIT'' of Some u \<Rightarrow> u @ '': '' @ truncate_chars msg 80 | None \<Rightarrow> truncate_chars msg 100)"
      by (auto simp: record_to_event_def Let_def not_less split: if_splits option.splits)
    with Some short long show ?thesis by (auto split: option.split)
  qed
qed

end
