(* ===== verification/Agent_Config.thy ===== *)
theory Agent_Config
  imports Core_Types Text
begin

text \<open>
  \<^verbatim>\<open>crates/ravn-agent/src/config.rs\<close> and \<^verbatim>\<open>enrollment.rs\<close>: how the agent resolves
  its configuration from arguments, a file and the environment, and how it obtains the credentials
  that the command loop trusts. The TOML reader, the UUID reader, the certificate library and the
  HTTP exchange are parameters; files are a map from paths to contents.
\<close>

section \<open>The configuration file\<close>

record file_digest =
  fd_enable :: "bool option"
  fd_interval_secs :: "u64 option"
  fd_max_events :: "u64 option"
  fd_min_severity :: "string option"

record file_inference =
  fi_enable :: "bool option"
  fi_endpoint :: "string option"
  fi_model :: "string option"
  fi_digest :: file_digest

record file_journald =
  fj_enable :: "bool option"
  fj_priority :: "u8 option"

record file_failed_units =
  ff_enable :: "bool option"
  ff_grace_secs :: "u64 option"

record file_detection =
  fdt_journald :: file_journald
  fdt_auth_enable :: "bool option"
  fdt_config_drift_paths :: "string list"
  fdt_failed_units :: file_failed_units
  fdt_updates_enable :: "bool option"

record file_config =
  fc_server_url :: "string option"
  fc_log_level :: "string option"
  fc_detection :: file_detection
  fc_inference :: file_inference
  fc_enrollment_endpoint :: "string option"

definition default_file :: file_config where
  "default_file =
     \<lparr>fc_server_url = None, fc_log_level = None,
      fc_detection = \<lparr>fdt_journald = \<lparr>fj_enable = None, fj_priority = None\<rparr>, fdt_auth_enable = None,
        fdt_config_drift_paths = [], fdt_failed_units = \<lparr>ff_enable = None, ff_grace_secs = None\<rparr>,
        fdt_updates_enable = None\<rparr>,
      fc_inference = \<lparr>fi_enable = None, fi_endpoint = None, fi_model = None,
        fi_digest = \<lparr>fd_enable = None, fd_interval_secs = None, fd_max_events = None, fd_min_severity = None\<rparr>\<rparr>,
      fc_enrollment_endpoint = None\<rparr>"

section \<open>The resolved configuration\<close>

record config =
  cf_server_url :: string
  cf_agent_id :: uuid
  cf_host :: string
  cf_log :: string
  cf_journald_enable :: bool
  cf_journald_min_priority :: u8
  cf_journald_skip_kernel :: bool
  cf_auth_enable :: bool
  cf_config_drift_paths :: "string list"
  cf_failed_units_enable :: bool
  cf_failed_units_grace_secs :: u64
  cf_systemd_user_bus :: bool
  cf_updates_enable :: bool
  cf_nix_profile :: string
  cf_update_poll_secs :: u64
  cf_inference_enable :: bool
  cf_inference_endpoint :: string
  cf_inference_model :: string
  cf_inference_timeout_secs :: u64
  cf_digest_enable :: bool
  cf_digest_interval_secs :: u64
  cf_digest_max_events :: u64
  cf_digest_min_severity :: severity
  cf_heartbeat_interval_secs :: u64
  cf_buffer_path :: string
  cf_buffer_max :: u64
  cf_enroll_endpoint :: "string option"
  cf_bootstrap_token :: "string option"
  cf_cred_dir :: string
  cf_remediation_enable :: bool
  cf_actuator_socket :: string
  cf_command_poll_secs :: u64
  cf_api_token :: "string option"

text \<open>
  What \<open>load\<close> reads: the arguments, the variables of the environment, files, and the readers of TOML
  and of UUIDs; and the id that is generated when none is given.
\<close>

record config_env =
  ce_args :: "string list"
  ce_vars :: "string \<Rightarrow> string option"
  ce_read :: "string \<Rightarrow> string option"
  ce_toml :: "string \<Rightarrow> file_config option"
  ce_uuid :: "string \<Rightarrow> uuid option"
  ce_fresh :: uuid

datatype config_error = ReadingConfig | ParsingConfig | InvalidAgentId

fun config_path_from_args :: "string list \<Rightarrow> string option" where
  "config_path_from_args [] = None"
| "config_path_from_args (arg # args) =
     (if arg = ''--config'' then (case args of [] \<Rightarrow> None | p # _ \<Rightarrow> Some p)
      else case strip_prefix ''--config='' arg of Some rest \<Rightarrow> Some rest | None \<Rightarrow> config_path_from_args args)"

definition read_file_config :: "config_env \<Rightarrow> string \<Rightarrow> config_error + file_config" where
  "read_file_config E path =
     (case ce_read E path of
        None \<Rightarrow> Inl ReadingConfig
      | Some text \<Rightarrow> (case ce_toml E text of None \<Rightarrow> Inl ParsingConfig | Some f \<Rightarrow> Inr f))"

definition env_var :: "config_env \<Rightarrow> string \<Rightarrow> string option" where
  "env_var E key = (case ce_vars E key of Some v \<Rightarrow> if v \<noteq> [] then Some v else None | None \<Rightarrow> None)"

definition lowercase :: "string \<Rightarrow> string" where
  "lowercase s = map to_ascii_lowercase s"

definition severity_from_str :: "string \<Rightarrow> severity option" where
  "severity_from_str s =
     (let t = lowercase (trim s)
      in if t = ''info'' then Some Info
         else if t = ''notice'' then Some Notice
         else if t = ''warning'' then Some Warning
         else if t = ''error'' then Some Error
         else if t = ''critical'' then Some Critical
         else None)"

definition env_bool :: "config_env \<Rightarrow> string \<Rightarrow> bool option" where
  "env_bool E key =
     (case env_var E key of
        None \<Rightarrow> None
      | Some v \<Rightarrow>
          let t = lowercase v
          in if t \<in> {''1'', ''true'', ''yes'', ''on''} then Some True
             else if t \<in> {''0'', ''false'', ''no'', ''off''} then Some False
             else None)"

text \<open>\<open>Option::or\<close> and \<open>unwrap_or\<close>.\<close>

definition or_else :: "'a option \<Rightarrow> 'a option \<Rightarrow> 'a option" where
  "or_else a b = (case a of Some x \<Rightarrow> Some x | None \<Rightarrow> b)"

definition unwrap_or :: "'a option \<Rightarrow> 'a \<Rightarrow> 'a" where
  "unwrap_or a d = (case a of Some x \<Rightarrow> x | None \<Rightarrow> d)"

definition bootstrap_token :: "config_env \<Rightarrow> string option" where
  "bootstrap_token E =
     (case env_var E ''RAVN_BOOTSTRAP_TOKEN'' of
        Some tok \<Rightarrow> Some tok
      | None \<Rightarrow>
          (case env_var E ''CREDENTIALS_DIRECTORY'' of
             None \<Rightarrow> None
           | Some dir \<Rightarrow>
               (case ce_read E (dir @ ''/bootstrap-token'') of
                  None \<Rightarrow> None
                | Some s \<Rightarrow> let t = trim s in if t \<noteq> [] then Some t else None)))"

text \<open>\<open>split([',', ':'])\<close>: at either character.\<close>

definition split_paths :: "string \<Rightarrow> string list" where
  "split_paths raw = filter (\<lambda>s. s \<noteq> []) (map trim (concat (map (split_on (CHR '':'')) (split_on (CHR '','') raw))))"

abbreviation env_num :: "config_env \<Rightarrow> string \<Rightarrow> u64 option" where
  "env_num E key \<equiv> Option.bind (env_var E key) parse_u64"

definition config_load :: "config_env \<Rightarrow> config_error + config" where
  "config_load E =
     (case (case config_path_from_args (ce_args E) of Some path \<Rightarrow> read_file_config E path | None \<Rightarrow> Inr default_file) of
        Inl e \<Rightarrow> Inl e
      | Inr file \<Rightarrow>
     (case (case env_var E ''RAVN_AGENT_ID'' of
              Some raw \<Rightarrow> (case ce_uuid E raw of Some i \<Rightarrow> Inr i | None \<Rightarrow> Inl InvalidAgentId)
            | None \<Rightarrow> Inr (ce_fresh E)) of
        Inl e \<Rightarrow> Inl e
      | Inr agent_id \<Rightarrow>
          let det = fc_detection file; inf = fc_inference file; dig = fi_digest inf
          in Inr
     \<lparr>cf_server_url = unwrap_or (or_else (env_var E ''RAVN_SERVER_URL'') (fc_server_url file)) ''nats://127.0.0.1:14222'',
      cf_agent_id = agent_id,
      cf_host = unwrap_or (or_else (env_var E ''RAVN_HOST'') (env_var E ''HOSTNAME'')) ''unknown'',
      cf_log = unwrap_or (or_else (env_var E ''RAVN_LOG'') (fc_log_level file)) ''info'',
      cf_journald_enable = unwrap_or (or_else (env_bool E ''RAVN_JOURNALD'') (fj_enable (fdt_journald det))) True,
      cf_journald_min_priority =
        min (unwrap_or (or_else (Option.bind (env_var E ''RAVN_JOURNALD_PRIORITY'') parse_u8) (fj_priority (fdt_journald det))) 4) 7,
      cf_journald_skip_kernel = unwrap_or (env_bool E ''RAVN_JOURNALD_SKIP_KERNEL'') False,
      cf_auth_enable = unwrap_or (or_else (env_bool E ''RAVN_AUTH'') (fdt_auth_enable det)) True,
      cf_config_drift_paths =
        (case env_var E ''RAVN_CONFIG_DRIFT_PATHS'' of Some raw \<Rightarrow> split_paths raw | None \<Rightarrow> fdt_config_drift_paths det),
      cf_failed_units_enable = unwrap_or (or_else (env_bool E ''RAVN_FAILED_UNITS'') (ff_enable (fdt_failed_units det))) True,
      cf_failed_units_grace_secs =
        unwrap_or (or_else (env_num E ''RAVN_FAILED_UNITS_GRACE_SECS'') (ff_grace_secs (fdt_failed_units det))) 15,
      cf_systemd_user_bus = unwrap_or (env_bool E ''RAVN_SYSTEMD_USER_BUS'') False,
      cf_updates_enable = unwrap_or (or_else (env_bool E ''RAVN_UPDATES'') (fdt_updates_enable det)) True,
      cf_nix_profile = unwrap_or (env_var E ''RAVN_NIX_PROFILE'') ''/nix/var/nix/profiles/system'',
      cf_update_poll_secs = max (unwrap_or (env_num E ''RAVN_UPDATE_POLL_SECS'') 30) 1,
      cf_inference_enable = unwrap_or (or_else (env_bool E ''RAVN_INFERENCE'') (fi_enable inf)) False,
      cf_inference_endpoint =
        unwrap_or (or_else (env_var E ''RAVN_INFERENCE_ENDPOINT'') (fi_endpoint inf)) ''http://127.0.0.1:18181'',
      cf_inference_model = unwrap_or (or_else (env_var E ''RAVN_INFERENCE_MODEL'') (fi_model inf)) ''qwen3-1.7b-q4_k_m'',
      cf_inference_timeout_secs = max (unwrap_or (env_num E ''RAVN_INFERENCE_TIMEOUT_SECS'') 15) 1,
      cf_digest_enable = unwrap_or (or_else (env_bool E ''RAVN_DIGEST'') (fd_enable dig)) False,
      cf_digest_interval_secs =
        max (unwrap_or (or_else (env_num E ''RAVN_DIGEST_INTERVAL_SECS'') (fd_interval_secs dig)) 3600) 1,
      cf_digest_max_events =
        max (unwrap_or (or_else (env_num E ''RAVN_DIGEST_MAX_EVENTS'') (fd_max_events dig)) 100) 1,
      cf_digest_min_severity =
        unwrap_or (Option.bind (or_else (env_var E ''RAVN_DIGEST_MIN_SEVERITY'') (fd_min_severity dig)) severity_from_str) Info,
      cf_heartbeat_interval_secs = max (unwrap_or (env_num E ''RAVN_HEARTBEAT_SECS'') 15) 1,
      cf_buffer_path =
        (case env_var E ''RAVN_BUFFER_PATH'' of
           Some p \<Rightarrow> p
         | None \<Rightarrow> (case env_var E ''STATE_DIRECTORY'' of Some dir \<Rightarrow> dir @ ''/outbox.db'' | None \<Rightarrow> ''ravn-outbox.db'')),
      cf_buffer_max = unwrap_or (env_num E ''RAVN_BUFFER_MAX'') 10000,
      cf_enroll_endpoint = or_else (env_var E ''RAVN_ENROLL_ENDPOINT'') (fc_enrollment_endpoint file),
      cf_bootstrap_token = bootstrap_token E,
      cf_cred_dir =
        unwrap_or (or_else (env_var E ''RAVN_CRED_DIR'')
          (map_option (\<lambda>d. d @ ''/credentials'') (env_var E ''STATE_DIRECTORY''))) ''ravn-credentials'',
      cf_remediation_enable = unwrap_or (env_bool E ''RAVN_REMEDIATION'') False,
      cf_actuator_socket = unwrap_or (env_var E ''RAVN_ACTUATOR_SOCKET'') ''/run/ravn/actuator.sock'',
      cf_command_poll_secs = max (unwrap_or (env_num E ''RAVN_COMMAND_POLL_SECS'') 10) 1,
      cf_api_token = env_var E ''RAVN_API_TOKEN''\<rparr>))"

section \<open>Enrolment\<close>

record identity =
  id_key_path :: string
  id_cert_path :: string
  id_ca_path :: string

definition identity_in_dir :: "string \<Rightarrow> identity" where
  "identity_in_dir dir = \<lparr>id_key_path = dir @ ''/agent.key'', id_cert_path = dir @ ''/agent.crt'', id_ca_path = dir @ ''/ca.crt''\<rparr>"

type_synonym files = "string \<rightharpoonup> string"

definition identity_complete :: "files \<Rightarrow> identity \<Rightarrow> bool" where
  "identity_complete fs i \<longleftrightarrow> fs (id_key_path i) \<noteq> None \<and> fs (id_cert_path i) \<noteq> None \<and> fs (id_ca_path i) \<noteq> None"

datatype enroll_error = Csr | HttpClient | Post | Rejected | Decoding | CreatingDir | Writing string

text \<open>
  The outside of an enrolment: the key pair and request of rcgen, whether the HTTP client is built,
  the exchange (\<open>Inl\<close> an error of it), and which file operations succeed.
\<close>

record enroll_env =
  en_csr :: "uuid \<Rightarrow> (string \<times> string) option"
  en_client :: bool
  en_post :: "string \<Rightarrow> enroll_request \<Rightarrow> enroll_error + enroll_response"
  en_mkdir :: bool
  en_write :: "string \<Rightarrow> bool"

text \<open>Writing files in order, stopping at the first that fails; the files written stay.\<close>

fun write_files :: "(string \<Rightarrow> bool) \<Rightarrow> (string \<times> string) list \<Rightarrow> files \<Rightarrow> (enroll_error + unit) \<times> files" where
  "write_files ok [] fs = (Inr (), fs)"
| "write_files ok ((p, c) # ws) fs =
     (if ok p then write_files ok ws (fs(p \<mapsto> c)) else (Inl (Writing p), fs))"

definition credential_files :: "config \<Rightarrow> string \<Rightarrow> enroll_response \<Rightarrow> (string \<times> string) list" where
  "credential_files c key r =
     (let i = identity_in_dir (cf_cred_dir c)
      in [(id_key_path i, key), (id_cert_path i, es_certificate_pem r), (id_ca_path i, es_ca_certificate_pem r),
          (cf_cred_dir c @ ''/command_pubkey.b64'', es_command_signing_pubkey r)]
         @ (if es_command_keyring r \<noteq> [] then [(cf_cred_dir c @ ''/command_keyring.json'', es_command_keyring r)] else []))"

definition ensure_enrolled :: "enroll_env \<Rightarrow> config \<Rightarrow> files \<Rightarrow> (enroll_error + identity option) \<times> files" where
  "ensure_enrolled N c fs =
     (let i = identity_in_dir (cf_cred_dir c)
      in if identity_complete fs i then (Inr (Some i), fs)
         else case (cf_enroll_endpoint c, cf_bootstrap_token c) of
                (Some endpoint, Some token) \<Rightarrow>
                  (case en_csr N (cf_agent_id c) of
                     None \<Rightarrow> (Inl Csr, fs)
                   | Some (csr, key) \<Rightarrow>
                       if \<not> en_client N then (Inl HttpClient, fs)
                       else
                         (case en_post N (trim_end_matches (CHR ''/'') endpoint @ ''/enroll'')
                                 \<lparr>er_bootstrap_token = token, er_agent_id = AgentId (cf_agent_id c),
                                  er_host = cf_host c, er_csr_pem = csr\<rparr> of
                            Inl e \<Rightarrow> (Inl e, fs)
                          | Inr r \<Rightarrow>
                              if \<not> en_mkdir N then (Inl CreatingDir, fs)
                              else case write_files (en_write N) (credential_files c key r) fs of
                                     (Inl e, fs') \<Rightarrow> (Inl e, fs')
                                   | (Inr _, fs') \<Rightarrow> (Inr (Some i), fs')))
              | _ \<Rightarrow> (Inr None, fs))"

section \<open>What a configuration guarantees\<close>

text \<open>
  The periods of the agent's timers are positive (a timer with a zero period panics), the priority
  is a syslog priority, and texts that must not be empty are not.
\<close>

definition config_wf :: "config \<Rightarrow> bool" where
  "config_wf c \<longleftrightarrow>
     cf_journald_min_priority c \<le> 7 \<and> 0 < cf_update_poll_secs c \<and> 0 < cf_inference_timeout_secs c
     \<and> 0 < cf_digest_interval_secs c \<and> 0 < cf_digest_max_events c \<and> 0 < cf_heartbeat_interval_secs c
     \<and> 0 < cf_command_poll_secs c \<and> cf_host c \<noteq> [] \<and> cf_buffer_path c \<noteq> []
     \<and> [] \<notin> set (cf_config_drift_paths c)"

lemma env_var_nonempty: "env_var E k = Some v \<Longrightarrow> v \<noteq> []"
  by (auto simp: env_var_def split: option.splits if_splits)

lemma max_one_pos: "0 < max (w :: u64) 1"
  by (rule less_le_trans [of _ 1]) simp_all

lemma loaded_config_wf:
  assumes "config_load E = Inr c" and "\<And>text f. ce_toml E text = Some f \<Longrightarrow> [] \<notin> set (fdt_config_drift_paths (fc_detection f))"
  shows "config_wf c"
proof -
  from assms(1) obtain f i where
    fl: "(case config_path_from_args (ce_args E) of Some path \<Rightarrow> read_file_config E path | None \<Rightarrow> Inr default_file) = Inr f"
    and i: "(case env_var E ''RAVN_AGENT_ID'' of
              Some raw \<Rightarrow> (case ce_uuid E raw of Some i \<Rightarrow> Inr i | None \<Rightarrow> Inl InvalidAgentId)
            | None \<Rightarrow> Inr (ce_fresh E)) = Inr i"
    unfolding config_load_def by (simp only: split: sum.splits) auto
  have paths: "[] \<notin> set (fdt_config_drift_paths (fc_detection f))"
    using fl assms(2) by (auto simp: read_file_config_def default_file_def split: option.splits)
  have host: "unwrap_or (or_else (env_var E a) (env_var E b)) ''unknown'' \<noteq> []" for a b
    using env_var_nonempty [of E] by (auto simp: unwrap_or_def or_else_def split: option.splits)
  have watch: "[] \<notin> set (case env_var E k of Some raw \<Rightarrow> split_paths raw | None \<Rightarrow> fdt_config_drift_paths (fc_detection f))" for k
    using paths by (auto simp: split_paths_def split: option.splits)
  have buffer: "(case env_var E a of Some p \<Rightarrow> p
      | None \<Rightarrow> (case env_var E b of Some dir \<Rightarrow> dir @ ''/outbox.db'' | None \<Rightarrow> ''ravn-outbox.db'')) \<noteq> []" for a b
    using env_var_nonempty [of E a] by (auto split: option.splits)
  have c: "Inr c = config_load E" using assms(1) by simp
  show ?thesis
    using c unfolding config_load_def fl i sum.case Let_def
    by (simp only: sum.inject config.simps config_wf_def max_one_pos host watch buffer min.cobounded2 simp_thms)
qed


definition demo_config_env :: config_env where
  "demo_config_env =
     \<lparr>ce_args = [''ravnd''], ce_vars = [''RAVN_HOST'' \<mapsto> ''web'', ''RAVN_COMMAND_POLL_SECS'' \<mapsto> ''0''],
      ce_read = \<lambda>_. None, ce_toml = \<lambda>_. None, ce_uuid = \<lambda>_. None, ce_fresh = 7\<rparr>"

lemma demo_config_loads: "\<exists>c. config_load demo_config_env = Inr c"
proof -
  have "config_path_from_args (ce_args demo_config_env) = None" "env_var demo_config_env ''RAVN_AGENT_ID'' = None"
    by (simp_all add: demo_config_env_def strip_prefix_def env_var_def)
  then show ?thesis unfolding config_load_def by (simp only: option.case sum.case Let_def) blast
qed


section \<open>Enrolling\<close>

lemma write_files_ok:
  "\<forall>(p, _)\<in>set ws. ok p \<Longrightarrow> write_files ok ws fs = (Inr (), fs ++ map_of (rev ws))"
  by (induction ws arbitrary: fs) (auto simp: map_add_def fun_eq_iff split: option.splits)

text \<open>
  Enrolling is idempotent. Once it succeeded, the credentials are on disk, and starting again
  reuses them without an exchange and without touching a file.
\<close>

theorem enrolment_idempotent:
  assumes "ensure_enrolled N c fs = (Inr (Some i), fs')"
  shows "identity_complete fs' i \<and> ensure_enrolled N' c fs' = (Inr (Some i), fs')"
proof -
  have written: "fst (write_files ok ws g) = Inr () \<Longrightarrow> (\<forall>p\<in>fst ` set ws. snd (write_files ok ws g) p \<noteq> None)
      \<and> (\<forall>p. g p \<noteq> None \<longrightarrow> snd (write_files ok ws g) p \<noteq> None)" for ok ws g
    by (induction ws arbitrary: g) (fastforce split: if_splits)+
  have "i = identity_in_dir (cf_cred_dir c) \<and> identity_complete fs' i"
  proof (cases "identity_complete fs (identity_in_dir (cf_cred_dir c))")
    case True
    with assms show ?thesis by (simp add: ensure_enrolled_def)
  next
    case False
    with assms obtain key r where
      w: "write_files (en_write N) (credential_files c key r) fs = (Inr (), fs')" and i: "i = identity_in_dir (cf_cred_dir c)"
      by (auto simp: ensure_enrolled_def Let_def split: option.splits prod.splits sum.splits if_splits)
    with written [of "en_write N" "credential_files c key r" fs]
    have "\<forall>p\<in>fst ` set (credential_files c key r). fs' p \<noteq> None" by simp
    with i show ?thesis by (simp add: identity_complete_def credential_files_def Let_def)
  qed
  then show ?thesis by (auto simp: ensure_enrolled_def Let_def)
qed

text \<open>A demonstration enrolment, in which writing one file may fail.\<close>

definition demo_config :: config where
  "demo_config = (case config_load demo_config_env of Inr c \<Rightarrow>
     c\<lparr>cf_enroll_endpoint := Some ''http://ravn/'', cf_bootstrap_token := Some ''tok''\<rparr>)"

definition demo_enroll_response :: enroll_response where
  "demo_enroll_response = \<lparr>es_agent_id = AgentId 7, es_certificate_pem = ''cert'', es_ca_certificate_pem = ''ca'',
     es_command_signing_pubkey = ''pub'', es_command_keyring = [], es_not_after = 0\<rparr>"

definition demo_enroll_env :: "string \<Rightarrow> enroll_env" where
  "demo_enroll_env bad = \<lparr>en_csr = \<lambda>_. Some (''csr'', ''key''), en_client = True,
     en_post = \<lambda>_ _. Inr demo_enroll_response, en_mkdir = True, en_write = \<lambda>p. p \<noteq> bad\<rparr>"

lemma ensure_enrolled_posted:
  assumes "\<not> identity_complete fs (identity_in_dir (cf_cred_dir c))"
    and "cf_enroll_endpoint c = Some endpoint" "cf_bootstrap_token c = Some token"
    and "en_csr N (cf_agent_id c) = Some (csr, key)" "en_client N" "en_mkdir N"
    and "en_post N (trim_end_matches (CHR ''/'') endpoint @ ''/enroll'')
       \<lparr>er_bootstrap_token = token, er_agent_id = AgentId (cf_agent_id c), er_host = cf_host c, er_csr_pem = csr\<rparr> = Inr r"
  shows "ensure_enrolled N c fs =
    (case write_files (en_write N) (credential_files c key r) fs of
       (Inl e, fs') \<Rightarrow> (Inl e, fs') | (Inr _, fs') \<Rightarrow> (Inr (Some (identity_in_dir (cf_cred_dir c))), fs'))"
  using assms by (simp add: ensure_enrolled_def Let_def)

lemma demo_config_enrolment:
  "cf_enroll_endpoint demo_config = Some ''http://ravn/''" "cf_bootstrap_token demo_config = Some ''tok''"
  using demo_config_loads by (auto simp: demo_config_def)

lemma demo_config_enrols:
  "ensure_enrolled (demo_enroll_env bad) demo_config Map.empty =
    (case write_files (\<lambda>p. p \<noteq> bad) (credential_files demo_config ''key'' demo_enroll_response) Map.empty of
       (Inl e, fs') \<Rightarrow> (Inl e, fs') | (Inr _, fs') \<Rightarrow> (Inr (Some (identity_in_dir (cf_cred_dir demo_config))), fs'))"
proof -
  show ?thesis
    using ensure_enrolled_posted [OF _ demo_config_enrolment, of Map.empty "demo_enroll_env bad" "''csr''" "''key''" demo_enroll_response]
    by (simp add: demo_enroll_env_def identity_complete_def)
qed

lemma credential_files_no_ring:
  "es_command_keyring r = [] \<Longrightarrow> credential_files c key r =
    [(cf_cred_dir c @ ''/agent.key'', key), (cf_cred_dir c @ ''/agent.crt'', es_certificate_pem r),
     (cf_cred_dir c @ ''/ca.crt'', es_ca_certificate_pem r), (cf_cred_dir c @ ''/command_pubkey.b64'', es_command_signing_pubkey r)]"
  by (simp add: credential_files_def identity_in_dir_def)

theorem enrolment_idempotent_witness:
  "\<exists>i fs. ensure_enrolled (demo_enroll_env []) demo_config Map.empty = (Inr (Some i), fs)
     \<and> ensure_enrolled (demo_enroll_env []) demo_config fs = (Inr (Some i), fs)"
proof -
  have "\<forall>(p, _)\<in>set (credential_files demo_config ''key'' demo_enroll_response). p \<noteq> []"
    by (simp add: credential_files_no_ring demo_enroll_response_def)
  from write_files_ok [OF this] demo_config_enrols [of "[]"]
  obtain fs where e: "ensure_enrolled (demo_enroll_env []) demo_config Map.empty =
      (Inr (Some (identity_in_dir (cf_cred_dir demo_config))), fs)" by (simp only: prod.case sum.case)
  from e enrolment_idempotent [OF e, of "demo_enroll_env []"] show ?thesis by blast
qed

text \<open>
  An enrolment that stops between the certificates and the command key is never completed. When
  writing the pinned key fails, the attempt is an error; but from then on the credentials count as
  complete, every start reuses them, and the key that the command loop needs is never fetched again.
\<close>

theorem enrolment_loses_command_key:
  assumes "\<not> identity_complete fs (identity_in_dir (cf_cred_dir c))" and "fs (cf_cred_dir c @ ''/command_pubkey.b64'') = None"
    and "cf_enroll_endpoint c = Some endpoint" "cf_bootstrap_token c = Some token"
    and "en_csr N (cf_agent_id c) = Some (csr, key)" "en_client N" "en_mkdir N"
    and "en_post N (trim_end_matches (CHR ''/'') endpoint @ ''/enroll'')
       \<lparr>er_bootstrap_token = token, er_agent_id = AgentId (cf_agent_id c), er_host = cf_host c, er_csr_pem = csr\<rparr> = Inr r"
    and bad: "en_write N = (\<lambda>p. p \<noteq> cf_cred_dir c @ ''/command_pubkey.b64'')"
  shows "\<exists>fs'. ensure_enrolled N c fs = (Inl (Writing (cf_cred_dir c @ ''/command_pubkey.b64'')), fs')
    \<and> fs' (cf_cred_dir c @ ''/command_pubkey.b64'') = None
    \<and> (\<forall>N'. ensure_enrolled N' c fs' = (Inr (Some (identity_in_dir (cf_cred_dir c))), fs'))"
proof -
  let ?d = "cf_cred_dir c"
  let ?fs = "fs(?d @ ''/agent.key'' \<mapsto> key, ?d @ ''/agent.crt'' \<mapsto> es_certificate_pem r, ?d @ ''/ca.crt'' \<mapsto> es_ca_certificate_pem r)"
  have "write_files (en_write N) (credential_files c key r) fs = (Inl (Writing (?d @ ''/command_pubkey.b64'')), ?fs)"
    by (simp add: credential_files_def identity_in_dir_def Let_def bad)
  with ensure_enrolled_posted [OF assms(1,3-8)]
  have "ensure_enrolled N c fs = (Inl (Writing (?d @ ''/command_pubkey.b64'')), ?fs)" by simp
  moreover have "?fs (?d @ ''/command_pubkey.b64'') = None" using assms(2) by simp
  moreover have "identity_complete ?fs (identity_in_dir ?d)" by (simp add: identity_complete_def identity_in_dir_def)
  then have "\<forall>N'. ensure_enrolled N' c ?fs = (Inr (Some (identity_in_dir ?d)), ?fs)" by (simp add: ensure_enrolled_def Let_def)
  ultimately show ?thesis by (intro exI [of _ ?fs] conjI)
qed

theorem enrolment_loses_command_key_witness:
  "\<exists>fs'. ensure_enrolled (demo_enroll_env (cf_cred_dir demo_config @ ''/command_pubkey.b64'')) demo_config Map.empty
       = (Inl (Writing (cf_cred_dir demo_config @ ''/command_pubkey.b64'')), fs')
     \<and> ensure_enrolled (demo_enroll_env []) demo_config fs' = (Inr (Some (identity_in_dir (cf_cred_dir demo_config))), fs')
     \<and> fs' (cf_cred_dir demo_config @ ''/command_pubkey.b64'') = None"
proof -
  let ?bad = "cf_cred_dir demo_config @ ''/command_pubkey.b64''"
  have "\<exists>fs'. ensure_enrolled (demo_enroll_env ?bad) demo_config Map.empty = (Inl (Writing ?bad), fs') \<and> fs' ?bad = None
    \<and> (\<forall>N'. ensure_enrolled N' demo_config fs' = (Inr (Some (identity_in_dir (cf_cred_dir demo_config))), fs'))"
    by (rule enrolment_loses_command_key [OF _ _ demo_config_enrolment, of _ _ "''csr''" "''key''" demo_enroll_response])
       (simp_all add: demo_enroll_env_def identity_complete_def)
  then show ?thesis by blast
qed

end
