(* ===== verification/Agent_Loop.thy ===== *)
theory Agent_Loop
  imports Offline_Buffer Detection
begin

text \<open>
  The agent's own loop: \<^verbatim>\<open>crates/ravn-agent/src/inference.rs\<close> (prompts and the reading of the
  model's answers), the rest of \<^verbatim>\<open>main.rs\<close> (enriching, digests, heartbeats, the start-up event)
  and the retries of \<^verbatim>\<open>transport.rs\<close>. The JSON reader, the model's endpoint and the debug
  format of a string are parameters.
\<close>

section \<open>Prompts\<close>

fun severity_name :: "severity \<Rightarrow> string" where
  "severity_name Info = ''Info''"
| "severity_name Notice = ''Notice''"
| "severity_name Warning = ''Warning''"
| "severity_name Error = ''Error''"
| "severity_name Critical = ''Critical''"

fun source_name :: "source \<Rightarrow> string" where
  "source_name SrcJournald = ''Journald''"
| "source_name SrcFailedUnit = ''FailedUnit''"
| "source_name SrcConfigDrift = ''ConfigDrift''"
| "source_name SrcAuth = ''Auth''"
| "source_name SrcUpdate = ''Update''"
| "source_name SrcKubeWorkload = ''KubeWorkload''"
| "source_name SrcKubeNode = ''KubeNode''"
| "source_name SrcRavnInternal = ''RavnInternal''"

abbreviation nl :: string where "nl \<equiv> [CHR 0x0A]"

text \<open>\<open>il_debug\<close> prints a string in quotes with its escapes; \<open>il_json\<close> is serde's reader.\<close>

record infer_lib =
  il_debug :: "string \<Rightarrow> string"
  il_json :: "string \<Rightarrow> json option"

definition debug_option :: "infer_lib \<Rightarrow> string option \<Rightarrow> string" where
  "debug_option L x = (case x of None \<Rightarrow> ''None'' | Some s \<Rightarrow> ''Some('' @ il_debug L s @ '')'')"

text \<open>\<open>truncate\<close> counts bytes and slices: it panics inside a character.\<close>

definition truncate_bytes :: "string \<Rightarrow> nat \<Rightarrow> panic + string" where
  "truncate_bytes s n =
     (if length s \<le> n then Inr s
      else if is_char_boundary s n then Inr (take n s @ [CHR 0xE2, CHR 0x80, CHR 0xA6])
      else Inl Panic)"

definition opt_line :: "string \<Rightarrow> string option \<Rightarrow> string" where
  "opt_line label x = (case x of Some s \<Rightarrow> label @ s @ nl | None \<Rightarrow> [])"

definition indented :: "nat \<Rightarrow> string list \<Rightarrow> string" where
  "indented n ls = concat (map (\<lambda>l. ''  '' @ l @ nl) (take n ls))"

fun payload_prompt :: "infer_lib \<Rightarrow> payload \<Rightarrow> panic + string" where
  "payload_prompt L (Journald p) = Inr (opt_line ''Unit: '' (jd_unit p) @ ''Message: '' @ jd_message p @ nl)"
| "payload_prompt L (FailedUnit p) =
     Inr (''Failed unit: '' @ fu_unit p @ '' (result: '' @ fu_result p @ '')'' @ nl
       @ (if fu_recent_log p \<noteq> [] then ''Recent log:'' @ nl @ indented 10 (fu_recent_log p) else []))"
| "payload_prompt L (ConfigDrift p) =
     (let head = ''Changed file: '' @ cd_path p @ nl
      in case cd_diff p of
           None \<Rightarrow> Inr head
         | Some d \<Rightarrow>
             (case truncate_bytes d 1500 of
                Inl e \<Rightarrow> Inl e
              | Inr t \<Rightarrow> Inr (head @ ''Diff:'' @ nl @ t @ nl)))"
| "payload_prompt L (Auth p) =
     Inr (''Action: '' @ au_action p @ '' (succeeded: '' @ (if au_succeeded p then ''true'' else ''false'') @ '')'' @ nl
       @ opt_line ''User: '' (au_user p) @ opt_line ''Remote: '' (au_remote_addr p))"
| "payload_prompt L (Update p) =
     Inr (''Update via '' @ up_mechanism p @ '': '' @ debug_option L (up_from p) @ '' -> '' @ debug_option L (up_to p) @ nl
       @ (if up_changes p \<noteq> [] then ''Changes:'' @ nl @ indented 20 (up_changes p) else []))"
| "payload_prompt L (KubeWorkload p) =
     Inr (''K8s workload: '' @ kw_namespace p @ ''/'' @ (if kw_object_kind p = [] then [] else kw_object_kind p @ ''/'')
       @ kw_name p @ '' reason='' @ kw_reason p @ nl
       @ opt_line ''Container: '' (kw_container p)
       @ opt_line ''Count: '' (map_option (\<lambda>n. show_nat (unat n)) (kw_count p))
       @ opt_line ''Message: '' (kw_message p))"
| "payload_prompt L (KubeNode p) =
     Inr (''K8s node: '' @ kn_node p @ '' condition='' @ kn_condition p @ nl @ opt_line ''Message: '' (kn_message p))"
| "payload_prompt L (CircuitBreakerTrip p) =
     Inr (''Ravn circuit breaker tripped for template '' @ cb_template_id p @ '' on '' @ cb_host p @ nl)"

definition build_user_prompt :: "infer_lib \<Rightarrow> event \<Rightarrow> panic + string" where
  "build_user_prompt L e =
     (case payload_prompt L (ev_payload e) of
        Inl p \<Rightarrow> Inl p
      | Inr body \<Rightarrow>
          Inr (''Severity: '' @ severity_name (ev_severity e) @ nl @ ''Source: '' @ source_name (event_source e) @ nl
            @ ''Host: '' @ ev_host e @ nl @ ''Title: '' @ ev_title e @ nl @ body))"

definition build_digest_prompt :: "event list \<Rightarrow> string" where
  "build_digest_prompt es =
     show_nat (length es) @ '' events in this window:'' @ nl
     @ concat (map (\<lambda>e. ''- ['' @ severity_name (ev_severity e) @ ''] '' @ source_name (event_source e) @ '' ''
         @ ev_host e @ '': '' @ ev_title e @ nl) es)"

text \<open>The system prompts of an explanation and of a digest.\<close>

definition system_prompt :: string where
  "system_prompt =
     ''You are Ravn, a Linux operations assistant. Given a flagged system event, explain in 2-3''
     @ '' plain sentences what most likely happened and why it matters, then suggest ONE concrete''
     @ '' command or check an operator can run. Be factual and concise; do not invent details not''
     @ '' supported by the event. Respond ONLY as a JSON object: {'' @ [CHR 0x22] @ ''explanation''
     @ [CHR 0x22] @ '': string, '' @ [CHR 0x22] @ ''suggested_check'' @ [CHR 0x22] @ '': string}.''"

definition digest_system_prompt :: string where
  "digest_system_prompt =
     ''You are Ravn, a Linux operations assistant. You are given a batch of system events obser''
     @ ''ved over a time window. In 3-5 plain sentences, summarize what changed and what looks of''
     @ ''f, calling out the most important items; group similar events rather than listing each. ''
     @ ''Then suggest ONE concrete command or check. Be factual; do not invent details not in the''
     @ '' events. Respond ONLY as a JSON object: {'' @ [CHR 0x22] @ ''explanation'' @ [CHR 0x22]
     @ '': string, '' @ [CHR 0x22] @ ''suggested_check'' @ [CHR 0x22] @ '': string}.''"

section \<open>Answers\<close>

text \<open>\<open>Value::get\<close> with a name: only an object has members.\<close>

fun json_get :: "json \<Rightarrow> string \<Rightarrow> json option" where
  "json_get (JObj m) k = map_of m k"
| "json_get _ k = None"

fun json_str :: "json \<Rightarrow> string option" where
  "json_str (JStr s) = Some s"
| "json_str _ = None"

definition extract_explanation :: "json \<Rightarrow> (string \<times> string option) option" where
  "extract_explanation v =
     (case Option.bind (json_get v ''explanation'') json_str of
        None \<Rightarrow> None
      | Some t \<Rightarrow>
          Some (trim t,
            (case Option.bind (json_get v ''suggested_check'') json_str of
               None \<Rightarrow> None
             | Some c \<Rightarrow> if trim c \<noteq> [] then Some (trim c) else None)))"

definition rfind_char :: "char \<Rightarrow> string \<Rightarrow> nat option" where
  "rfind_char c s = map_option (\<lambda>i. length s - 1 - i) (str_find [c] (rev s))"

definition json_block :: "string \<Rightarrow> string option" where
  "json_block content =
     (case (str_find ''{'' content, rfind_char (CHR ''}'') content) of
        (Some start, Some stop) \<Rightarrow> if start < stop then Some (take (Suc stop - start) (drop start content)) else None
      | _ \<Rightarrow> None)"

definition parse_explanation :: "infer_lib \<Rightarrow> string \<Rightarrow> string \<times> string option" where
  "parse_explanation L content =
     (case Option.bind (il_json L content) extract_explanation of
        Some r \<Rightarrow> r
      | None \<Rightarrow>
          (case Option.bind (Option.bind (json_block content) (il_json L)) extract_explanation of
             Some r \<Rightarrow> r
           | None \<Rightarrow> (trim content, None)))"

text \<open>
  \<open>chat\<close>: the endpoint answers with a status and the content of the first choice, or not at all.
\<close>

record chat_client =
  cc_model :: string
  cc_answer :: "string \<Rightarrow> string \<Rightarrow> u32 \<Rightarrow> (bool \<times> string option) option"

definition chat :: "infer_lib \<Rightarrow> chat_client \<Rightarrow> datetime \<Rightarrow> string \<Rightarrow> string \<Rightarrow> u32 \<Rightarrow> explanation option" where
  "chat L C now system user max_tokens =
     (case cc_answer C system user max_tokens of
        None \<Rightarrow> None
      | Some (False, _) \<Rightarrow> None
      | Some (True, None) \<Rightarrow> None
      | Some (True, Some content) \<Rightarrow>
          (case parse_explanation L content of
             (t, check) \<Rightarrow>
               if trim t = [] then None
               else Some \<lparr>ex_text = t, ex_suggested_check = check, ex_model = cc_model C, ex_generated_at = now\<rparr>))"

definition explain :: "infer_lib \<Rightarrow> chat_client \<Rightarrow> datetime \<Rightarrow> event \<Rightarrow> panic + explanation option" where
  "explain L C now e =
     (case build_user_prompt L e of Inl p \<Rightarrow> Inl p | Inr u \<Rightarrow> Inr (chat L C now system_prompt u 320))"

definition digest :: "infer_lib \<Rightarrow> chat_client \<Rightarrow> datetime \<Rightarrow> event list \<Rightarrow> explanation option" where
  "digest L C now es =
     (if es = [] then None else chat L C now digest_system_prompt (build_digest_prompt es) 512)"

section \<open>The detection loop\<close>

record agent_loop =
  al_out :: outbound
  al_digest :: "event list option"
  al_last_detection :: "datetime option"

record loop_config =
  lc_inference :: "chat_client option"
  lc_digest_min :: severity
  lc_digest_max :: nat

text \<open>What the world does to one message: the publish, the enqueue if it fails, and the clock.\<close>

record message_io =
  mi_up :: bool
  mi_enqueue :: enqueue_io
  mi_now :: datetime

definition collect_digest :: "loop_config \<Rightarrow> event \<Rightarrow> event list \<Rightarrow> event list" where
  "collect_digest K e buf =
     (if lc_digest_min K \<le> ev_severity e \<and> length buf < lc_digest_max K then buf @ [e] else buf)"

definition enrich :: "infer_lib \<Rightarrow> loop_config \<Rightarrow> datetime \<Rightarrow> message \<Rightarrow> panic + message" where
  "enrich L K now m =
     (case lc_inference K of
        None \<Rightarrow> Inr m
      | Some C \<Rightarrow>
          if msg_explanation m = None then
            (case explain L C now (msg_event m) of Inl p \<Rightarrow> Inl p | Inr x \<Rightarrow> Inr (m\<lparr>msg_explanation := x\<rparr>))
          else Inr m)"

definition publish_step :: "message_codec \<Rightarrow> message_io \<Rightarrow> message \<Rightarrow> agent_loop \<Rightarrow> agent_loop" where
  "publish_step M io m s =
     (let s = s\<lparr>al_out := publish_or_buffer M (mi_up io) (mi_enqueue io) m (al_out s)\<rparr>
      in if mi_up io then s\<lparr>al_last_detection := Some (mi_now io)\<rparr> else s)"

definition handle_message ::
    "infer_lib \<Rightarrow> message_codec \<Rightarrow> loop_config \<Rightarrow> message_io \<Rightarrow> message \<Rightarrow> agent_loop \<Rightarrow> panic + agent_loop" where
  "handle_message L M K io m s =
     (case al_digest s of
        Some buf \<Rightarrow> Inr (publish_step M io m (s\<lparr>al_digest := Some (collect_digest K (msg_event m) buf)\<rparr>))
      | None \<Rightarrow>
          (case enrich L K (mi_now io) m of
             Inl p \<Rightarrow> Inl p
           | Inr m' \<Rightarrow> Inr (publish_step M io m' s)))"

fun run_messages ::
    "infer_lib \<Rightarrow> message_codec \<Rightarrow> loop_config \<Rightarrow> (message_io \<times> message) list \<Rightarrow> agent_loop \<Rightarrow> panic + agent_loop" where
  "run_messages L M K [] s = Inr s"
| "run_messages L M K ((io, m) # ms) s =
     (case handle_message L M K io m s of Inl p \<Rightarrow> Inl p | Inr s' \<Rightarrow> run_messages L M K ms s')"

section \<open>Digests\<close>

definition count_up :: "string \<Rightarrow> (string, nat) btree \<Rightarrow> (string, nat) btree" where
  "count_up k m = btree_alter (\<lambda>n. Suc (case n of None \<Rightarrow> 0 | Some n \<Rightarrow> n)) k m"

definition digest_counts :: "event list \<Rightarrow> (string, nat) btree" where
  "digest_counts es = fold (\<lambda>e. count_up (source_name (event_source e))) es []"

definition digest_summary :: "event list \<Rightarrow> string" where
  "digest_summary es = join '', '' (map (\<lambda>(k, v). k @ ''='' @ show_nat v) (digest_counts es))"

definition max_severity :: "event list \<Rightarrow> severity" where
  "max_severity es = (case es of [] \<Rightarrow> Notice | e # es \<Rightarrow> fold (\<lambda>x s. max s (ev_severity x)) es (ev_severity e))"

definition build_digest_message ::
    "uuid \<Rightarrow> datetime \<Rightarrow> uuid \<Rightarrow> string \<Rightarrow> event list \<Rightarrow> explanation option \<Rightarrow> message" where
  "build_digest_message i now agent host es x =
     (let summary = digest_summary es
      in \<lparr>msg_event =
            \<lparr>ev_id = i, ev_occurred_at = now, ev_observed_at = now, ev_agent_id = AgentId agent, ev_host = host,
             ev_severity = max_severity es,
             ev_title = ''Digest: '' @ show_nat (length es) @ '' events ('' @ summary @ '')'',
             ev_category_hints = [''digest''],
             ev_payload = Journald \<lparr>jd_unit = Some ''ravn-digest'', jd_priority = None,
               jd_message = ''Periodic digest of '' @ show_nat (length es) @ '' events '' @ [CHR 0xE2, CHR 0x80, CHR 0x94] @ '' '' @ summary,
               jd_extra = []\<rparr>\<rparr>,
          msg_explanation = x\<rparr>)"

text \<open>One tick of \<open>spawn_digest\<close>: the window is taken, explained and published as one message.\<close>

definition digest_tick ::
    "infer_lib \<Rightarrow> message_codec \<Rightarrow> chat_client \<Rightarrow> uuid \<Rightarrow> uuid \<Rightarrow> string \<Rightarrow> message_io \<Rightarrow> agent_loop \<Rightarrow> agent_loop" where
  "digest_tick L M C i agent host io s =
     (case al_digest s of
        None \<Rightarrow> s
      | Some batch \<Rightarrow>
          let s = s\<lparr>al_digest := Some []\<rparr>
          in if batch = [] then s
             else
               let m = build_digest_message i (mi_now io) agent host batch (digest L C (mi_now io) batch)
               in s\<lparr>al_out := publish_or_buffer M (mi_up io) (mi_enqueue io) m (al_out s)\<rparr>)"

section \<open>Start-up, heartbeats and reconnecting\<close>

definition startup_message :: "uuid \<Rightarrow> datetime \<Rightarrow> string \<Rightarrow> uuid \<Rightarrow> string \<Rightarrow> message" where
  "startup_message i now version agent host =
     message_new
       \<lparr>ev_id = i, ev_occurred_at = now, ev_observed_at = now, ev_agent_id = AgentId agent, ev_host = host, ev_severity = Info,
        ev_title = ''ravnd '' @ version @ '' started'', ev_category_hints = [],
        ev_payload = Journald \<lparr>jd_unit = Some ''ravnd.service'', jd_priority = Some 6,
          jd_message = ''ravnd '' @ version @ '' started on '' @ host, jd_extra = []\<rparr>\<rparr>"

definition publish_startup :: "message_codec \<Rightarrow> bool \<Rightarrow> enqueue_io \<Rightarrow> message \<Rightarrow> outbound \<Rightarrow> outbound" where
  "publish_startup M up io m s =
     (if up then s\<lparr>out_sent := out_sent s @ [m]\<rparr>
      else case out_buffer s of
             None \<Rightarrow> s
           | Some b \<Rightarrow> s\<lparr>out_buffer := Some (snd (buffer_enqueue M (eq_insert io) (eq_prune io) (eq_now io) m b))\<rparr>)"

text \<open>A heartbeat carries the counters of the loop; the counter is an atomic \<open>u64\<close>.\<close>

definition heartbeat_of :: "uuid \<Rightarrow> string \<Rightarrow> bool \<Rightarrow> datetime \<Rightarrow> u64 \<Rightarrow> agent_loop \<Rightarrow> heartbeat" where
  "heartbeat_of agent host infer now uptime s =
     \<lparr>hb_agent_id = AgentId agent, hb_host = host, hb_sent_at = now, hb_uptime_secs = uptime,
      hb_last_detection = al_last_detection s, hb_inference_enabled = infer,
      hb_events_published = word_of_nat (out_published (al_out s))\<rparr>"

datatype transport_kind = NatsUrl | WsUrl

definition transport_scheme :: "string \<Rightarrow> transport_kind option" where
  "transport_scheme url =
     (if prefix ''nats://'' url \<or> prefix ''tls://'' url then Some NatsUrl
      else if prefix ''ws://'' url \<or> prefix ''wss://'' url then Some WsUrl
      else None)"

text \<open>
  The attempts of \<open>connect_with_backoff\<close>: the outcome of each connection, the delay before the next
  in milliseconds, and the delays slept so far.
\<close>

fun connect_attempts :: "nat \<Rightarrow> nat \<Rightarrow> nat \<Rightarrow> (nat \<Rightarrow> bool) \<Rightarrow> nat list \<Rightarrow> bool \<times> nat list" where
  "connect_attempts 0 attempt delay ok slept = (False, slept)"
| "connect_attempts (Suc left) attempt delay ok slept =
     (if ok attempt then (True, slept)
      else if left = 0 then (False, slept)
      else connect_attempts left (Suc attempt) (min (delay * 2) 5000) ok (slept @ [delay]))"

definition connect_with_backoff :: "(nat \<Rightarrow> bool) \<Rightarrow> bool \<times> nat list" where
  "connect_with_backoff ok = connect_attempts 5 1 200 ok []"

text \<open>\<open>send_json\<close>: one send, and after a failure one reconnection and one more send.\<close>

definition send_json :: "bool \<Rightarrow> (nat \<Rightarrow> bool) \<Rightarrow> bool \<Rightarrow> bool" where
  "send_json first ok second \<longleftrightarrow> first \<or> fst (connect_with_backoff ok) \<and> second"

end
