(* ===== verification/Agent_Loop_Props.thy ===== *)
theory Agent_Loop_Props
  imports Agent_Loop
begin

text \<open>
  What the agent's loop does: when enriching a message takes the agent down, what a digest holds and
  says, how the answer of a model is read, and how long a reconnection may take.
\<close>

section \<open>Enriching\<close>

text \<open>
  The loop stops exactly when it is to explain a change of a file whose diff is longer than
  1500 bytes and has its byte 1500 inside a character. The panic is on the agent's main task: no
  further event of any kind is reported.
\<close>

theorem message_panics_exactly:
  "handle_message L M K io m s = Inl Panic \<longleftrightarrow>
     al_digest s = None \<and> lc_inference K \<noteq> None \<and> msg_explanation m = None
     \<and> (\<exists>p d. ev_payload (msg_event m) = ConfigDrift p \<and> cd_diff p = Some d
          \<and> 1500 < length d \<and> \<not> is_char_boundary d 1500)"
proof -
  have "payload_prompt L q = Inl Panic \<longleftrightarrow>
     (\<exists>p d. q = ConfigDrift p \<and> cd_diff p = Some d \<and> 1500 < length d \<and> \<not> is_char_boundary d 1500)" for q
    by (cases q) (auto simp: truncate_bytes_def Let_def split: option.splits sum.splits if_splits)
  moreover have "build_user_prompt L e = Inl Panic \<longleftrightarrow> payload_prompt L (ev_payload e) = Inl Panic" for e
    unfolding build_user_prompt_def by (simp split: sum.split)
  ultimately have prompt: "build_user_prompt L e = Inl Panic \<longleftrightarrow>
     (\<exists>p d. ev_payload e = ConfigDrift p \<and> cd_diff p = Some d \<and> 1500 < length d \<and> \<not> is_char_boundary d 1500)" for e
    by simp
  have "enrich L K now m = Inl Panic \<longleftrightarrow>
     lc_inference K \<noteq> None \<and> msg_explanation m = None \<and> build_user_prompt L (msg_event m) = Inl Panic" for now
    by (cases "build_user_prompt L (msg_event m)") (auto simp: enrich_def explain_def split: option.splits)
  then show ?thesis
    unfolding prompt [symmetric] by (auto simp: handle_message_def split: option.splits sum.splits)
qed

section \<open>Digests\<close>

lemma filter_take_snoc:
  "collect_digest K e buf @ take (n - length (collect_digest K e buf)) xs =
     buf @ take (n - length buf) ((if lc_digest_min K \<le> ev_severity e then [e] else []) @ xs)"
  if "n = lc_digest_max K"
proof (cases "length buf < n")
  case True
  then have "n - length buf = Suc (n - Suc (length buf))" by simp
  with that True show ?thesis by (simp add: collect_digest_def)
qed (simp add: collect_digest_def that)

text \<open>
  While digests are on, the window holds the first events, up to its cap, that are severe
  enough, in order; later ones are left out of the digest. Every message is published or buffered
  as it came, and the loop does not stop.
\<close>

theorem digest_collects:
  assumes "al_digest s = Some buf"
  shows "\<exists>s'. run_messages L M K ms s = Inr s'
    \<and> al_digest s' = Some (buf @ take (lc_digest_max K - length buf)
        (filter (\<lambda>e. lc_digest_min K \<le> ev_severity e) (map (msg_event \<circ> snd) ms)))
    \<and> al_out s' = fold (\<lambda>(io, m). publish_or_buffer M (mi_up io) (mi_enqueue io) m) ms (al_out s)"
  using assms
proof (induction ms arbitrary: s buf)
  case Nil
  then show ?case by simp
next
  case (Cons x ms)
  obtain io m where x: "x = (io, m)" by (cases x)
  define s1 where "s1 = publish_step M io m (s\<lparr>al_digest := Some (collect_digest K (msg_event m) buf)\<rparr>)"
  have step: "handle_message L M K io m s = Inr s1" using Cons.prems by (simp add: handle_message_def s1_def)
  have d: "al_digest s1 = Some (collect_digest K (msg_event m) buf)" by (simp add: s1_def publish_step_def Let_def)
  have out: "al_out s1 = publish_or_buffer M (mi_up io) (mi_enqueue io) m (al_out s)"
    by (simp add: s1_def publish_step_def Let_def)
  have "filter (\<lambda>e. lc_digest_min K \<le> ev_severity e) (map (msg_event \<circ> snd) (x # ms)) =
      (if lc_digest_min K \<le> ev_severity (msg_event m) then [msg_event m] else [])
      @ filter (\<lambda>e. lc_digest_min K \<le> ev_severity e) (map (msg_event \<circ> snd) ms)" by (simp add: x)
  with Cons.IH [OF d] show ?case
    unfolding filter_take_snoc [OF refl] by (simp only: x run_messages.simps step out sum.case fold_simps prod.case)
qed

definition demo_infer :: infer_lib where
  "demo_infer = \<lparr>il_debug = \<lambda>s. s, il_json = \<lambda>s. if s = ''{x}'' then Some (JObj [(''explanation'', JStr ''port in use'')]) else None\<rparr>"

definition demo_loop :: agent_loop where
  "demo_loop = \<lparr>al_out = \<lparr>out_sent = [], out_buffer = None, out_published = 0\<rparr>, al_digest = Some [], al_last_detection = None\<rparr>"

definition demo_loop_config :: loop_config where
  "demo_loop_config = \<lparr>lc_inference = None, lc_digest_min = Warning, lc_digest_max = 1\<rparr>"

definition demo_io :: message_io where
  "demo_io = \<lparr>mi_up = True, mi_enqueue = \<lparr>eq_insert = True, eq_prune = True, eq_now = 0\<rparr>, mi_now = 5\<rparr>"

theorem digest_collects_witness:
  "\<exists>s'. run_messages demo_infer demo_outbox_codec demo_loop_config
       [(demo_io, demo_message 1), (demo_io, demo_message 2)] demo_loop = Inr s'
    \<and> al_digest s' = Some [msg_event (demo_message 1)]
    \<and> out_sent (al_out s') = [demo_message 1, demo_message 2]"
proof -
  have "al_digest demo_loop = Some []" by (simp add: demo_loop_def)
  moreover have "ev_severity (msg_event (demo_message i)) = Error" for i by (simp add: demo_message_def message_new_def)
  moreover have "lc_digest_min demo_loop_config \<le> Error" by (simp add: demo_loop_config_def less_eq_severity_def)
  ultimately show ?thesis
    using digest_collects [of demo_loop "[]" demo_infer demo_outbox_codec demo_loop_config
      "[(demo_io, demo_message 1), (demo_io, demo_message 2)]"]
    by (auto simp: demo_loop_config_def demo_loop_def demo_io_def publish_or_buffer_def)
qed

lemma digest_counts_snoc: "digest_counts (es @ [e]) = count_up (source_name (event_source e)) (digest_counts es)"
  by (simp add: digest_counts_def)

lemma fold_count:
  "fold (\<lambda>x v. Some (Suc (case v of None \<Rightarrow> 0 | Some n \<Rightarrow> n))) xs (if n = 0 then None else Some n) =
     (if n + length xs = 0 then None else Some (n + length xs))"
proof (induction xs arbitrary: n)
  case (Cons x xs)
  then show ?case using Cons.IH [of "Suc n"] by auto
qed simp

lemma digest_counts_get:
  "btree_ok (digest_counts es) \<and> btree_get (digest_counts es) k =
     (let n = length (filter (\<lambda>e. source_name (event_source e) = k) es) in if n = 0 then None else Some n)"
  using btree_alter_fold [OF btree_ok_Nil, where f = "\<lambda>_ n. Suc (case n of None \<Rightarrow> 0 | Some n \<Rightarrow> n)"
      and key = "\<lambda>e. source_name (event_source e)" and xs = es and k = k]
    fold_count [of "filter (\<lambda>e. source_name (event_source e) = k) es" 0]
  by (simp add: digest_counts_def count_up_def [abs_def])

lemma sum_count_up: "btree_ok m \<Longrightarrow> sum_list (map snd (count_up k m)) = Suc (sum_list (map snd m))"
proof -
  assume ok: "btree_ok m"
  have "btree_ok m \<Longrightarrow> sum_list (map snd (btree_insert k v m)) + (case btree_get m k of None \<Rightarrow> 0 | Some n \<Rightarrow> n)
      = v + sum_list (map snd m)" for v
    by (induction k v m rule: btree_insert.induct) (auto simp: btree_ok_def split: option.splits dest!: map_of_SomeD)
  from this [OF ok, of "Suc (case btree_get m k of None \<Rightarrow> 0 | Some n \<Rightarrow> n)"] show ?thesis
    by (simp add: count_up_def btree_alter_def)
qed

lemma fold_max_severity: "fold (\<lambda>x s. max s (ev_severity x)) es a = Max (insert a (ev_severity ` set es))"
proof (induction es arbitrary: a)
  case (Cons e es)
  then show ?case by (cases "es = []") (simp_all add: max.assoc)
qed simp

text \<open>
  A digest accounts for its window: its severity is the highest in the window, the counts of its
  summary are the numbers of events per source, and they add up to the number of events.
\<close>

theorem digest_accounts:
  assumes "es \<noteq> []"
  shows "ev_severity (msg_event (build_digest_message i now agent host es x)) = Max (ev_severity ` set es)
    \<and> sum_list (map snd (digest_counts es)) = length es
    \<and> map_of (digest_counts es) (source_name src) =
        (let n = length (filter (\<lambda>e. event_source e = src) es) in if n = 0 then None else Some n)"
proof (intro conjI)
  show "ev_severity (msg_event (build_digest_message i now agent host es x)) = Max (ev_severity ` set es)"
    using assms by (cases es) (simp_all add: build_digest_message_def Let_def max_severity_def fold_max_severity)
  show "sum_list (map snd (digest_counts es)) = length es"
  proof (induction es rule: rev_induct)
    case Nil
    then show ?case by (simp add: digest_counts_def)
  next
    case (snoc e es)
    then show ?case using digest_counts_get [of es] by (simp add: digest_counts_snoc sum_count_up)
  qed
  have "source_name a = source_name b \<longleftrightarrow> a = b" for a b by (cases a; cases b) simp_all
  then show "map_of (digest_counts es) (source_name src) =
      (let n = length (filter (\<lambda>e. event_source e = src) es) in if n = 0 then None else Some n)"
    using digest_counts_get [of es "source_name src"] by simp
qed

theorem digest_accounts_witness:
  "ev_severity (msg_event (build_digest_message 9 0 1 ''web'' [msg_event (demo_message 1)] None)) = Error
    \<and> map_of (digest_counts [msg_event (demo_message 1)]) ''FailedUnit'' = Some 1"
  using digest_accounts [of "[msg_event (demo_message 1)]" 9 0 1 "''web''" None SrcFailedUnit]
  by (simp add: demo_message_def message_new_def event_source_def)

section \<open>Reading the model's answer\<close>

lemma str_find_char: "c \<notin> set a \<Longrightarrow> str_find [c] (a @ c # b) = Some (length a)"
  by (induction a) auto

lemma json_block_in_prose:
  assumes "CHR ''{'' \<notin> set pre" "CHR ''}'' \<notin> set post"
  shows "json_block (pre @ (''{'' @ mid @ ''}'') @ post) = Some (''{'' @ mid @ ''}'')"
proof -
  have "str_find ''{'' (pre @ (''{'' @ mid @ ''}'') @ post) = Some (length pre)"
    using str_find_char [OF assms(1), of "mid @ ''}'' @ post"] by simp
  moreover have "rfind_char (CHR ''}'') (pre @ (''{'' @ mid @ ''}'') @ post) = Some (length pre + Suc (length mid))"
    using str_find_char [of "CHR ''}''" "rev post" "rev mid @ ''{'' @ rev pre"] assms(2) by (simp add: rfind_char_def)
  ultimately show ?thesis by (simp add: json_block_def)
qed

text \<open>
  An answer that wraps its JSON object in prose is read like the object itself, as long as no
  brace stands outside it.
\<close>

theorem explanation_in_prose:
  assumes "CHR ''{'' \<notin> set pre" "CHR ''}'' \<notin> set post"
    and "il_json L (pre @ (''{'' @ mid @ ''}'') @ post) = None"
    and "il_json L (''{'' @ mid @ ''}'') = Some v" "extract_explanation v = Some r"
  shows "parse_explanation L (pre @ (''{'' @ mid @ ''}'') @ post) = r"
  using assms(3-5) json_block_in_prose [OF assms(1,2), of mid] by (simp add: parse_explanation_def)

theorem explanation_in_prose_witness:
  "parse_explanation demo_infer (''Sure! '' @ (''{'' @ ''x'' @ ''}'') @ '' Bye.'') = (''port in use'', None)"
proof (rule explanation_in_prose)
  have "trim ''port in use'' = ''port in use''" by (rule trim_plain) (simp add: plain_char_def less_eq_char_def)
  then show "extract_explanation (JObj [(''explanation'', JStr ''port in use'')]) = Some (''port in use'', None)"
    by (simp add: extract_explanation_def)
qed (simp_all add: demo_infer_def)

section \<open>Reconnecting\<close>

text \<open>
  A reconnection makes at most five attempts and sleeps at most three seconds in all; it
  succeeds exactly when one of them does.
\<close>

theorem backoff_bounded:
  "(fst (connect_with_backoff ok) \<longleftrightarrow> (\<exists>k. 1 \<le> k \<and> k \<le> 5 \<and> ok k))
    \<and> length (snd (connect_with_backoff ok)) \<le> 4 \<and> sum_list (snd (connect_with_backoff ok)) \<le> 3000"
proof -
  have "(\<exists>k. 1 \<le> k \<and> k \<le> 5 \<and> ok k) \<longleftrightarrow> ok 1 \<or> ok 2 \<or> ok 3 \<or> ok 4 \<or> ok 5"
    by (auto simp: numeral_eq_Suc le_Suc_eq)
  then show ?thesis
    by (simp add: connect_with_backoff_def numeral_eq_Suc)
qed

end
