(* ===== verification/Fleet.thy ===== *)
theory Fleet
  imports Orchestrator Agent_Loop
begin

text \<open>
  The fleet's tables and the way into them: the events, agents and labels part of
  \<^verbatim>\<open>crates/ravn-server/src/db.rs\<close>, and \<^verbatim>\<open>ingest.rs\<close> with the explanations of
  \<^verbatim>\<open>inference.rs\<close>. A table is the list of its rows in the order of insertion; each statement is
  a function on the tables, the database's clock an argument, and a statement that fails an input.
\<close>

section \<open>Rows\<close>

text \<open>\<open>timestamptz\<close> keeps microseconds, counted from the year 2000; binding a time truncates it.\<close>

definition pg_epoch :: int where "pg_epoch = 946684800 * nanos_per_sec"

definition pg_time :: "datetime \<Rightarrow> datetime" where
  "pg_time t = (t - pg_epoch) sdiv 1000 * 1000 + pg_epoch"

fun source_str :: "source \<Rightarrow> string" where
  "source_str SrcJournald = ''journald''"
| "source_str SrcFailedUnit = ''failed_unit''"
| "source_str SrcConfigDrift = ''config_drift''"
| "source_str SrcAuth = ''auth''"
| "source_str SrcUpdate = ''update''"
| "source_str SrcKubeWorkload = ''kube_workload''"
| "source_str SrcKubeNode = ''kube_node''"
| "source_str SrcRavnInternal = ''ravn_internal''"

text \<open>serde's JSON of a payload and of an explanation.\<close>

record json_lib =
  jl_payload :: "payload \<Rightarrow> json"
  jl_explanation :: "explanation \<Rightarrow> json"

record stored_event =
  se_id :: uuid
  se_occurred_at :: datetime
  se_observed_at :: datetime
  se_received_at :: datetime
  se_agent_id :: uuid
  se_host :: string
  se_severity :: string
  se_source :: string
  se_title :: string
  se_category_hints :: "string list"
  se_payload :: json
  se_explanation :: "json option"

definition message_to_stored :: "json_lib \<Rightarrow> datetime \<Rightarrow> message \<Rightarrow> stored_event" where
  "message_to_stored J now m =
     (let e = msg_event m
      in \<lparr>se_id = ev_id e, se_occurred_at = ev_occurred_at e, se_observed_at = ev_observed_at e, se_received_at = now,
          se_agent_id = agent_uuid (ev_agent_id e), se_host = ev_host e, se_severity = severity_str (ev_severity e),
          se_source = source_str (event_source e), se_title = ev_title e, se_category_hints = ev_category_hints e,
          se_payload = jl_payload J (ev_payload e), se_explanation = map_option (jl_explanation J) (msg_explanation m)\<rparr>)"

definition synthetic_event_to_stored :: "json_lib \<Rightarrow> datetime \<Rightarrow> event \<Rightarrow> stored_event" where
  "synthetic_event_to_stored J now e =
     \<lparr>se_id = ev_id e, se_occurred_at = ev_occurred_at e, se_observed_at = ev_observed_at e, se_received_at = now,
      se_agent_id = agent_uuid (ev_agent_id e), se_host = ev_host e, se_severity = severity_str (ev_severity e),
      se_source = source_str (event_source e), se_title = ev_title e, se_category_hints = ev_category_hints e,
      se_payload = jl_payload J (ev_payload e), se_explanation = None\<rparr>"

record agent_row =
  ar_agent_id :: uuid
  ar_host :: string
  ar_first_seen :: datetime
  ar_last_seen :: datetime
  ar_last_heartbeat :: "datetime option"
  ar_uptime_secs :: "int option"
  ar_inference_enabled :: "bool option"
  ar_events_published :: "int option"
  ar_enrolled_at :: "datetime option"
  ar_cert_not_after :: "datetime option"

record label_row =
  lr_agent_id :: uuid
  lr_key :: string
  lr_value :: string

record fleet =
  fl_events :: "stored_event list"
  fl_agents :: "agent_row list"
  fl_labels :: "label_row list"

section \<open>Events\<close>

definition event_key :: "stored_event \<Rightarrow> uuid \<times> datetime" where
  "event_key r = (se_id r, se_occurred_at r)"

text \<open>\<open>ON CONFLICT (id, occurred_at) DO NOTHING\<close>; \<open>received_at\<close> is the database's clock.\<close>

definition insert_message :: "json_lib \<Rightarrow> datetime \<Rightarrow> message \<Rightarrow> fleet \<Rightarrow> fleet" where
  "insert_message J now m f =
     (let r = message_to_stored J now m;
          r = r\<lparr>se_occurred_at := pg_time (se_occurred_at r), se_observed_at := pg_time (se_observed_at r)\<rparr>
      in if event_key r \<in> event_key ` set (fl_events f) then f else f\<lparr>fl_events := fl_events f @ [r]\<rparr>)"

definition update_explanation :: "json_lib \<Rightarrow> uuid \<Rightarrow> datetime \<Rightarrow> explanation \<Rightarrow> fleet \<Rightarrow> fleet" where
  "update_explanation J i occurred x f =
     f\<lparr>fl_events := map (\<lambda>r. if event_key r = (i, pg_time occurred) then r\<lparr>se_explanation := Some (jl_explanation J x)\<rparr> else r)
        (fl_events f)\<rparr>"

text \<open>\<open>ORDER BY occurred_at DESC LIMIT\<close>; rows of the same time in any order, here the table's.\<close>

definition recent_events :: "int \<Rightarrow> fleet \<Rightarrow> stored_event list" where
  "recent_events limit f = take (nat limit) (rev (sort_key se_occurred_at (rev (fl_events f))))"

definition list_events :: "int option \<Rightarrow> fleet \<Rightarrow> stored_event list" where
  "list_events limit f = recent_events (max 1 (min 500 (case limit of Some l \<Rightarrow> l | None \<Rightarrow> 50))) f"

section \<open>Agents\<close>

definition new_agent :: "uuid \<Rightarrow> string \<Rightarrow> datetime \<Rightarrow> agent_row" where
  "new_agent i host now =
     \<lparr>ar_agent_id = i, ar_host = host, ar_first_seen = now, ar_last_seen = now, ar_last_heartbeat = None,
      ar_uptime_secs = None, ar_inference_enabled = None, ar_events_published = None, ar_enrolled_at = None,
      ar_cert_not_after = None\<rparr>"

text \<open>\<open>INSERT ... ON CONFLICT (agent_id) DO UPDATE\<close>: the new row, or the update of the old one.\<close>

definition upsert_agent :: "agent_row \<Rightarrow> (agent_row \<Rightarrow> agent_row) \<Rightarrow> fleet \<Rightarrow> fleet" where
  "upsert_agent new upd f =
     (if ar_agent_id new \<in> ar_agent_id ` set (fl_agents f)
      then f\<lparr>fl_agents := map (\<lambda>r. if ar_agent_id r = ar_agent_id new then upd r else r) (fl_agents f)\<rparr>
      else f\<lparr>fl_agents := fl_agents f @ [new]\<rparr>)"

definition touch_agent :: "datetime \<Rightarrow> uuid \<Rightarrow> string \<Rightarrow> fleet \<Rightarrow> fleet" where
  "touch_agent now i host = upsert_agent (new_agent i host now) (\<lambda>r. r\<lparr>ar_host := host, ar_last_seen := now\<rparr>)"

definition record_enrollment :: "datetime \<Rightarrow> uuid \<Rightarrow> string \<Rightarrow> datetime \<Rightarrow> fleet \<Rightarrow> fleet" where
  "record_enrollment now i host not_after =
     upsert_agent ((new_agent i host now)\<lparr>ar_enrolled_at := Some now, ar_cert_not_after := Some (pg_time not_after)\<rparr>)
       (\<lambda>r. r\<lparr>ar_host := host, ar_enrolled_at := Some now, ar_cert_not_after := Some (pg_time not_after)\<rparr>)"

text \<open>The counters of a heartbeat are cast from \<open>u64\<close> to \<open>i64\<close>.\<close>

definition record_heartbeat :: "datetime \<Rightarrow> heartbeat \<Rightarrow> fleet \<Rightarrow> fleet" where
  "record_heartbeat now hb =
     (let health = (\<lambda>r. r\<lparr>ar_last_seen := now, ar_last_heartbeat := Some now, ar_uptime_secs := Some (sint (hb_uptime_secs hb)),
                         ar_inference_enabled := Some (hb_inference_enabled hb),
                         ar_events_published := Some (sint (hb_events_published hb))\<rparr>)
      in upsert_agent (health (new_agent (agent_uuid (hb_agent_id hb)) (hb_host hb) now))
           (\<lambda>r. health (r\<lparr>ar_host := hb_host hb\<rparr>)))"

definition known_agent :: "fleet \<Rightarrow> uuid \<Rightarrow> bool" where
  "known_agent f i \<longleftrightarrow> i \<in> ar_agent_id ` set (fl_agents f)"

text \<open>One transaction: it commits whole or not at all.\<close>

definition replace_labels :: "uuid \<Rightarrow> (string, string) btree \<Rightarrow> fleet \<Rightarrow> bool \<times> fleet" where
  "replace_labels i labels f =
     (if known_agent f i then
        (True, f\<lparr>fl_labels := filter (\<lambda>l. lr_agent_id l \<noteq> i) (fl_labels f)
                  @ map (\<lambda>(k, v). \<lparr>lr_agent_id = i, lr_key = k, lr_value = v\<rparr>) labels\<rparr>)
      else (False, f))"

text \<open>Deleting an agent cascades to its labels.\<close>

definition delete_agent :: "uuid \<Rightarrow> fleet \<Rightarrow> bool \<times> fleet" where
  "delete_agent i f =
     (known_agent f i,
      f\<lparr>fl_agents := filter (\<lambda>r. ar_agent_id r \<noteq> i) (fl_agents f),
        fl_labels := filter (\<lambda>l. lr_agent_id l \<noteq> i) (fl_labels f)\<rparr>)"

record agent =
  ag_agent_id :: uuid
  ag_host :: string
  ag_first_seen :: datetime
  ag_last_seen :: datetime
  ag_status :: string
  ag_labels :: "(string, string) btree"
  ag_last_heartbeat :: "datetime option"
  ag_uptime_secs :: "int option"
  ag_inference_enabled :: "bool option"
  ag_events_published :: "int option"

definition agent_status :: "datetime \<Rightarrow> datetime \<Rightarrow> string" where
  "agent_status last_seen now =
     (let age = now - last_seen
      in if age < 60 * nanos_per_sec then ''online''
         else if age < 300 * nanos_per_sec then ''stale''
         else ''offline'')"

definition labels_of :: "fleet \<Rightarrow> uuid \<Rightarrow> (string, string) btree" where
  "labels_of f i =
     fold (\<lambda>l. btree_insert (lr_key l) (lr_value l)) (filter (\<lambda>l. lr_agent_id l = i) (fl_labels f)) []"

definition agent_view :: "datetime \<Rightarrow> fleet \<Rightarrow> agent_row \<Rightarrow> agent" where
  "agent_view now f r =
     \<lparr>ag_agent_id = ar_agent_id r, ag_host = ar_host r, ag_first_seen = ar_first_seen r, ag_last_seen = ar_last_seen r,
      ag_status = agent_status (ar_last_seen r) now, ag_labels = labels_of f (ar_agent_id r),
      ag_last_heartbeat = ar_last_heartbeat r, ag_uptime_secs = ar_uptime_secs r,
      ag_inference_enabled = ar_inference_enabled r, ag_events_published = ar_events_published r\<rparr>"

text \<open>\<open>ORDER BY host\<close> follows the database's collation, a parameter.\<close>

definition list_agents :: "(string \<Rightarrow> nat) \<Rightarrow> datetime \<Rightarrow> fleet \<Rightarrow> agent list" where
  "list_agents coll now f = map (agent_view now f) (sort_key (\<lambda>r. coll (ar_host r)) (fl_agents f))"

definition get_agent :: "datetime \<Rightarrow> uuid \<Rightarrow> fleet \<Rightarrow> agent option" where
  "get_agent now i f = map_option (agent_view now f) (List.find (\<lambda>r. ar_agent_id r = i) (fl_agents f))"

section \<open>Categories and topology\<close>

record category_dimension =
  cat_key :: string
  cat_values :: "(string \<times> nat) list"

text \<open>\<open>GROUP BY key, value ORDER BY key, value\<close>, and the loop that nests the values under their keys.\<close>

definition label_groups :: "(string \<times> string) list \<Rightarrow> fleet \<Rightarrow> (string \<times> string \<times> nat) list" where
  "label_groups order f =
     map (\<lambda>(k, v). (k, v, length (filter (\<lambda>l. lr_key l = k \<and> lr_value l = v) (fl_labels f)))) order"

fun nest_categories :: "(string \<times> string \<times> nat) list \<Rightarrow> category_dimension list \<Rightarrow> category_dimension list" where
  "nest_categories [] dims = dims"
| "nest_categories ((k, v, n) # rows) dims =
     nest_categories rows
       (if dims \<noteq> [] \<and> cat_key (last dims) = k
        then butlast dims @ [(last dims)\<lparr>cat_values := cat_values (last dims) @ [(v, n)]\<rparr>]
        else dims @ [\<lparr>cat_key = k, cat_values = [(v, n)]\<rparr>])"

text \<open>\<open>order\<close> is the distinct pairs of the label table in the database's order.\<close>

definition list_categories :: "(string \<times> string) list \<Rightarrow> fleet \<Rightarrow> category_dimension list" where
  "list_categories order f = nest_categories (label_groups order f) []"

definition severity_rank_of :: "string \<Rightarrow> nat" where
  "severity_rank_of s =
     (if s = ''critical'' then 5 else if s = ''error'' then 4 else if s = ''warning'' then 3
      else if s = ''notice'' then 2 else 1)"

definition severity_from_rank :: "nat \<Rightarrow> string" where
  "severity_from_rank n =
     (if n = 5 then ''critical'' else if n = 4 then ''error'' else if n = 3 then ''warning''
      else if n = 2 then ''notice'' else ''info'')"

definition day_nanos :: int where "day_nanos = 24 * 3600 * nanos_per_sec"

definition worst_severity :: "datetime \<Rightarrow> fleet \<Rightarrow> uuid \<Rightarrow> string option" where
  "worst_severity now f i =
     (let rs = filter (\<lambda>r. se_agent_id r = i \<and> now - day_nanos < se_occurred_at r) (fl_events f)
      in if rs = [] then None else Some (severity_from_rank (fold max (map (severity_rank_of \<circ> se_severity) rs) 0)))"

record topology_node =
  tn_agent_id :: uuid
  tn_host :: string
  tn_status :: string
  tn_severity :: "string option"
  tn_labels :: "(string, string) btree"

record topology =
  tp_group_by :: "string option"
  tp_dimensions :: "string list"
  tp_groups :: "(string, topology_node list) btree"

definition group_key :: "string option \<Rightarrow> agent \<Rightarrow> string" where
  "group_key group_by a =
     (case group_by of
        Some k \<Rightarrow> (case btree_get (ag_labels a) k of Some v \<Rightarrow> v | None \<Rightarrow> ''ungrouped'')
      | None \<Rightarrow> ''all'')"

definition topology_node_of :: "datetime \<Rightarrow> fleet \<Rightarrow> agent \<Rightarrow> topology_node" where
  "topology_node_of now f a =
     \<lparr>tn_agent_id = ag_agent_id a, tn_host = ag_host a, tn_status = ag_status a,
      tn_severity = worst_severity now f (ag_agent_id a), tn_labels = ag_labels a\<rparr>"

definition add_to_group :: "string \<Rightarrow> topology_node \<Rightarrow> (string, topology_node list) btree \<Rightarrow> (string, topology_node list) btree" where
  "add_to_group k n g = btree_alter (\<lambda>ns. (case ns of Some ns \<Rightarrow> ns | None \<Rightarrow> []) @ [n]) k g"

text \<open>The set of keys is a B-tree set: a sorted list of distinct keys.\<close>

definition fleet_topology :: "(string \<Rightarrow> nat) \<Rightarrow> datetime \<Rightarrow> string option \<Rightarrow> fleet \<Rightarrow> topology" where
  "fleet_topology coll now group_by f =
     (let agents = list_agents coll now f
      in \<lparr>tp_group_by = group_by,
          tp_dimensions = map fst (fold (\<lambda>k. btree_insert k ()) (concat (map (\<lambda>a. btree_keys (ag_labels a)) agents)) []),
          tp_groups = fold (\<lambda>a. add_to_group (group_key group_by a) (topology_node_of now f a)) agents []\<rparr>)"

section \<open>Explanations by the control plane\<close>

definition server_prompt :: "event \<Rightarrow> string" where
  "server_prompt e =
     ''Event: '' @ ev_title e @ '' (severity: '' @ severity_name (ev_severity e) @ '').'' @ nl
     @ (case ev_payload e of
          KubeWorkload p \<Rightarrow>
            ''Kubernetes workload signal: '' @ (if kw_object_kind p = [] then ''object'' else kw_object_kind p) @ '' ''
            @ kw_namespace p @ ''/'' @ kw_name p
            @ (case kw_container p of Some c \<Rightarrow> '', container '' @ c | None \<Rightarrow> []) @ '' '' @ [CHR 0xE2, CHR 0x80, CHR 0x94]
            @ '' reason '' @ kw_reason p @ ''. '' @ (case kw_message p of Some m \<Rightarrow> m | None \<Rightarrow> [])
        | KubeNode p \<Rightarrow>
            ''Kubernetes node signal: node '' @ kn_node p @ '' condition '' @ kn_condition p @ ''. ''
            @ (case kn_message p of Some m \<Rightarrow> m | None \<Rightarrow> [])
        | _ \<Rightarrow> ev_title e)"

text \<open>
  Reading a string field of truncated JSON, character by character; the special characters are ASCII,
  so the bytes of the others pass through.
\<close>

fun field_value :: "bool \<Rightarrow> string \<Rightarrow> string \<Rightarrow> string option" where
  "field_value escaped out [] = (if out = [] then None else Some out)"
| "field_value escaped out (c # cs) =
     (if escaped then
        field_value False
          (out @ [if c = CHR ''n'' then CHR 0x0A else if c = CHR ''t'' then CHR 0x09
                  else if c = CHR ''r'' then CHR 0x0D else c]) cs
      else if c = CHR 0x5C then field_value True out cs
      else if c = CHR 0x22 then Some out
      else field_value False (out @ [c]) cs)"

definition extract_string_field :: "string \<Rightarrow> string \<Rightarrow> string option" where
  "extract_string_field content key =
     (let needle = [CHR 0x22] @ key @ [CHR 0x22]
      in case split_once needle content of
           None \<Rightarrow> None
         | Some (_, rest) \<Rightarrow>
             (case split_once '':'' rest of
                None \<Rightarrow> None
              | Some (_, after) \<Rightarrow>
                  (case trim_start after of
                     [] \<Rightarrow> None
                   | c # cs \<Rightarrow> if c = CHR 0x22 then field_value False [] cs else None)))"

definition server_parse_explanation :: "infer_lib \<Rightarrow> string \<Rightarrow> string \<times> string option" where
  "server_parse_explanation L content =
     (case Option.bind (il_json L content) extract_explanation of
        Some r \<Rightarrow> r
      | None \<Rightarrow>
          (case Option.bind (Option.bind (json_block content) (il_json L)) extract_explanation of
             Some r \<Rightarrow> r
           | None \<Rightarrow>
               (case extract_string_field content ''explanation'' of
                  Some t \<Rightarrow>
                    (trim t,
                     (case extract_string_field content ''suggested_check'' of
                        Some c \<Rightarrow> if c \<noteq> [] then Some c else None
                      | None \<Rightarrow> None))
                | None \<Rightarrow> (trim content, None))))"

text \<open>\<open>explain\<close>: the content of the first choice, or the text of the error.\<close>

definition server_explain ::
    "infer_lib \<Rightarrow> string \<Rightarrow> (string \<Rightarrow> string + string) \<Rightarrow> datetime \<Rightarrow> event \<Rightarrow> string + explanation" where
  "server_explain L model ask now e =
     (case ask (server_prompt e) of
        Inl err \<Rightarrow> Inl err
      | Inr content \<Rightarrow>
          (case server_parse_explanation L content of
             (t, check) \<Rightarrow> Inr \<lparr>ex_text = t, ex_suggested_check = check, ex_model = model, ex_generated_at = now\<rparr>))"

section \<open>Ingestion\<close>

datatype ingest_metric =
    IngestError | EventIngested string | HeartbeatSeen | ExplanationGenerated | ExplanationError | InferenceTimeout

record 'sk server =
  sv_app :: "'sk app_state"
  sv_fleet :: fleet
  sv_feed :: "stored_event list"
  sv_counts :: "ingest_metric list"

definition count_ingest :: "ingest_metric \<Rightarrow> 'sk server \<Rightarrow> 'sk server" where
  "count_ingest m s = s\<lparr>sv_counts := sv_counts s @ [m]\<rparr>"

text \<open>The outside of one message: two statements of the database, its clock, and the server's.\<close>

record ingest_io =
  ii_insert :: bool
  ii_touch :: bool
  ii_db_now :: datetime
  ii_now :: datetime

text \<open>
  \<open>persist_message\<close>. The task that prepares a remediation is spawned; here it runs at the end. The
  explanation is spawned too: \<open>maybe_explain\<close> says whether, \<open>explain_event\<close> is the task.
\<close>

definition persist_message ::
    "serde \<Rightarrow> ('sk, 'vk) crypto \<Rightarrow> rfc3339 \<Rightarrow> json_lib \<Rightarrow> ingest_io \<Rightarrow> inputs \<Rightarrow> message \<Rightarrow> 'sk server \<Rightarrow> 'sk server" where
  "persist_message S C F J io I m s =
     (if \<not> ii_insert io then count_ingest IngestError s
      else
        let e = msg_event m;
            f1 = insert_message J (ii_db_now io) m (sv_fleet s);
            f2 = (if ii_touch io then touch_agent (ii_db_now io) (agent_uuid (ev_agent_id e)) (ev_host e) f1 else f1);
            s1 = count_ingest (EventIngested (severity_str (ev_severity e))) (s\<lparr>sv_fleet := f2\<rparr>);
            s2 = s1\<lparr>sv_feed := sv_feed s1 @ [message_to_stored J (ii_now io) m]\<rparr>
        in s2\<lparr>sv_app := prepare_inner S C F I e (sv_app s2)\<rparr>)"

definition maybe_explain :: "bool \<Rightarrow> message \<Rightarrow> bool" where
  "maybe_explain inference m \<longleftrightarrow>
     inference \<and> msg_explanation m = None \<and> event_source (msg_event m) \<in> {SrcKubeWorkload, SrcKubeNode}"

definition timeout_text :: "string \<Rightarrow> bool" where
  "timeout_text t \<longleftrightarrow> contains t ''timed out'' \<or> contains t ''deadline'' \<or> contains t ''timeout''"

definition explain_event ::
    "json_lib \<Rightarrow> (string + explanation) \<Rightarrow> bool \<Rightarrow> datetime \<Rightarrow> event \<Rightarrow> 'sk server \<Rightarrow> 'sk server" where
  "explain_event J answer stored now e s =
     (case answer of
        Inr x \<Rightarrow>
          if stored then
            let s1 = count_ingest ExplanationGenerated
                       (s\<lparr>sv_fleet := update_explanation J (ev_id e) (ev_occurred_at e) x (sv_fleet s)\<rparr>)
            in s1\<lparr>sv_feed := sv_feed s1 @ [message_to_stored J now \<lparr>msg_event = e, msg_explanation = Some x\<rparr>]\<rparr>
          else s
      | Inl err \<Rightarrow>
          let s1 = count_ingest ExplanationError s
          in if timeout_text err then count_ingest InferenceTimeout s1 else s1)"

text \<open>The loops over the two subjects: a payload that does not parse is dropped.\<close>

definition ingest_payload ::
    "serde \<Rightarrow> ('sk, 'vk) crypto \<Rightarrow> rfc3339 \<Rightarrow> json_lib \<Rightarrow> ingest_io \<Rightarrow> inputs \<Rightarrow> message option \<Rightarrow> 'sk server \<Rightarrow> 'sk server" where
  "ingest_payload S C F J io I parsed s =
     (case parsed of Some m \<Rightarrow> persist_message S C F J io I m s | None \<Rightarrow> count_ingest IngestError s)"

definition heartbeat_payload :: "bool \<Rightarrow> datetime \<Rightarrow> heartbeat option \<Rightarrow> 'sk server \<Rightarrow> 'sk server" where
  "heartbeat_payload ok now parsed s =
     (case parsed of
        None \<Rightarrow> s
      | Some hb \<Rightarrow>
          let s1 = count_ingest HeartbeatSeen s
          in if ok then s1\<lparr>sv_fleet := record_heartbeat now hb (sv_fleet s1)\<rparr> else s1)"

end
