(* ===== verification/Fleet_Props.thy ===== *)
theory Fleet_Props
  imports Fleet Control_Props Agent_Loop_Props
begin

text \<open>
  The fleet's tables keep their keys whatever is ingested; the topology shows every agent once; and
  what ingestion does with a message it has seen before.
\<close>

section \<open>The tables\<close>

definition label_key :: "label_row \<Rightarrow> uuid \<times> string" where
  "label_key l = (lr_agent_id l, lr_key l)"

text \<open>The primary keys, and the reference from labels to agents.\<close>

definition fleet_wf :: "fleet \<Rightarrow> bool" where
  "fleet_wf f \<longleftrightarrow> distinct (map event_key (fl_events f)) \<and> distinct (map ar_agent_id (fl_agents f))
     \<and> distinct (map label_key (fl_labels f)) \<and> (\<forall>l\<in>set (fl_labels f). known_agent f (lr_agent_id l))"

definition fleet_empty :: fleet where
  "fleet_empty = \<lparr>fl_events = [], fl_agents = [], fl_labels = []\<rparr>"

inductive fleet_step :: "json_lib \<Rightarrow> fleet \<Rightarrow> fleet \<Rightarrow> bool" for J :: json_lib where
  ingest: "fleet_step J f (insert_message J now m f)"
| explained: "fleet_step J f (update_explanation J i t x f)"
| touched: "fleet_step J f (touch_agent now i host f)"
| enrolled: "fleet_step J f (record_enrollment now i host t f)"
| heartbeat: "fleet_step J f (record_heartbeat now hb f)"
| relabelled: "btree_ok labels \<Longrightarrow> fleet_step J f (snd (replace_labels i labels f))"
| deleted: "fleet_step J f (snd (delete_agent i f))"

lemma known_upsert: "known_agent (upsert_agent new upd f) i \<longleftrightarrow> known_agent f i \<or> i = ar_agent_id new"
  if "\<And>r. ar_agent_id (upd r) = ar_agent_id r"
proof -
  have ids: "ar_agent_id \<circ> (\<lambda>r. if ar_agent_id r = i then upd r else r) = ar_agent_id" for i
    using that by (simp add: fun_eq_iff)
  have "ar_agent_id ` set (map (\<lambda>r. if ar_agent_id r = i then upd r else r) rs) = ar_agent_id ` set rs" for i rs
    unfolding set_map image_comp ids ..
  then show ?thesis unfolding known_agent_def upsert_agent_def by auto
qed

lemma upsert_wf:
  assumes "fleet_wf f" and "\<And>r. ar_agent_id (upd r) = ar_agent_id r"
  shows "fleet_wf (upsert_agent new upd f)"
proof -
  have ids: "ar_agent_id \<circ> (\<lambda>r. if ar_agent_id r = i then upd r else r) = ar_agent_id" for i
    using assms(2) by (simp add: fun_eq_iff)
  have "distinct (map ar_agent_id (fl_agents (upsert_agent new upd f)))"
    using assms(1) by (auto simp: upsert_agent_def fleet_wf_def ids)
  moreover have "fl_events (upsert_agent new upd f) = fl_events f" "fl_labels (upsert_agent new upd f) = fl_labels f"
    by (simp_all add: upsert_agent_def)
  ultimately show ?thesis
    using assms(1) known_upsert [of upd new f, OF assms(2)] by (auto simp: fleet_wf_def)
qed

lemma update_explanation_keys: "map event_key (fl_events (update_explanation J i t x f)) = map event_key (fl_events f)"
  by (simp add: update_explanation_def event_key_def)

lemma replace_labels_wf:
  assumes "fleet_wf f" "btree_ok labels"
  shows "fleet_wf (snd (replace_labels i labels f))"
proof (cases "known_agent f i")
  case True
  let ?new = "map (\<lambda>(k, v). \<lparr>lr_agent_id = i, lr_key = k, lr_value = v\<rparr>) labels"
  have "map label_key ?new = map (Pair i) (map fst labels)" by (auto simp: label_key_def)
  then have "distinct (map label_key ?new)"
    using btree_ok_distinct [OF assms(2)] by (simp add: distinct_map inj_on_def)
  moreover have "\<forall>l\<in>set ?new. lr_agent_id l = i" by auto
  ultimately show ?thesis
    using assms(1) True
    by (auto simp: replace_labels_def fleet_wf_def known_agent_def distinct_map_filter label_key_def)
qed (use assms(1) in \<open>simp add: replace_labels_def\<close>)

lemma fleet_step_wf: "fleet_step J f f' \<Longrightarrow> fleet_wf f \<Longrightarrow> fleet_wf f'"
proof (induction rule: fleet_step.induct)
  case (ingest f now m)
  then show ?case by (auto simp: insert_message_def Let_def fleet_wf_def known_agent_def)
next
  case (explained f i t x)
  then show ?case
    unfolding fleet_wf_def update_explanation_keys by (simp add: update_explanation_def known_agent_def)
next
  case (touched f now i host)
  then show ?case unfolding touch_agent_def by (intro upsert_wf) auto
next
  case (enrolled f now i host t)
  then show ?case unfolding record_enrollment_def by (intro upsert_wf) auto
next
  case (heartbeat f now hb)
  then show ?case unfolding record_heartbeat_def Let_def by (intro upsert_wf) auto
next
  case (relabelled labels f i)
  then show ?case by (intro replace_labels_wf)
next
  case (deleted f i)
  then show ?case by (auto simp: delete_agent_def fleet_wf_def known_agent_def distinct_map_filter)
qed

interpretation fleet: transition_invariant "\<lambda>f. f = fleet_empty" "fleet_step J" fleet_wf
proof
  show "fleet_wf f" if "f = fleet_empty" for f using that by (simp add: fleet_wf_def fleet_empty_def)
qed (rule fleet_step_wf)

text \<open>
  C23: in every state that ingestion, heartbeats, enrolments and the label API reach, events are
  unique per id and time, agents per id, labels per agent and key, and no label belongs to an agent
  that is gone.
\<close>

theorem fleet_tables_wf: "(fleet_step J)\<^sup>*\<^sup>* fleet_empty f \<Longrightarrow> fleet_wf f"
  by (rule fleet.reachable_inv [OF refl])

definition demo_json :: json_lib where
  "demo_json = \<lparr>jl_payload = \<lambda>_. JNull, jl_explanation = \<lambda>_. JNull\<rparr>"

theorem fleet_tables_wf_witness:
  "fleet_wf (insert_message demo_json 5 (demo_message 1) (insert_message demo_json 4 (demo_message 1)
     (touch_agent 3 1 ''web'' fleet_empty)))"
proof (rule fleet_tables_wf)
  show "(fleet_step demo_json)\<^sup>*\<^sup>* fleet_empty (insert_message demo_json 5 (demo_message 1)
      (insert_message demo_json 4 (demo_message 1) (touch_agent 3 1 ''web'' fleet_empty)))"
    using fleet_step.touched [of demo_json fleet_empty 3 1 "''web''"] fleet_step.ingest
    by (meson r_into_rtranclp rtranclp.rtrancl_into_rtrancl)
qed

section \<open>The topology\<close>

lemma topology_groups_get:
  "btree_ok (tp_groups (fleet_topology coll now gb f))
   \<and> btree_get (tp_groups (fleet_topology coll now gb f)) k =
       (let ns = map (topology_node_of now f) (filter (\<lambda>a. group_key gb a = k) (list_agents coll now f))
        in if ns = [] then None else Some ns)"
proof -
  have "fold (\<lambda>a v. Some ((case v of Some ns \<Rightarrow> ns | None \<Rightarrow> []) @ [g a])) xs (if ns = [] then None else Some ns) =
      (if ns @ map g xs = [] then None else Some (ns @ map g xs))" for g :: "agent \<Rightarrow> topology_node" and xs ns
  proof (induction xs arbitrary: ns)
    case (Cons x xs)
    show ?case using Cons.IH [of "ns @ [g x]"] by auto
  qed simp
  note nodes = this [where g = "topology_node_of now f" and ns = "[]", simplified]
  show ?thesis
    using btree_alter_fold [OF btree_ok_Nil,
      where f = "\<lambda>a ns. (case ns of Some ns \<Rightarrow> ns | None \<Rightarrow> []) @ [topology_node_of now f a]"
        and key = "group_key gb" and xs = "list_agents coll now f" and k = k]
    by (simp add: fleet_topology_def Let_def add_to_group_def [abs_def] nodes)
qed

text \<open>
  The topology is a partition of the fleet: an agent is in the group of its label (or in the
  group for agents without one), and in no other; a group lists its agents in the order of the
  registry, and no group is empty.
\<close>

theorem topology_partitions_fleet:
  "btree_ok (tp_groups (fleet_topology coll now gb f))
   \<and> ((k, ns) \<in> set (tp_groups (fleet_topology coll now gb f)) \<longleftrightarrow>
        ns \<noteq> [] \<and> ns = map (topology_node_of now f) (filter (\<lambda>a. group_key gb a = k) (list_agents coll now f)))"
proof -
  note g = topology_groups_get [of coll now gb f k]
  then have "(k, ns) \<in> set (tp_groups (fleet_topology coll now gb f)) \<longleftrightarrow>
      btree_get (tp_groups (fleet_topology coll now gb f)) k = Some ns"
    by (simp add: btree_mem_iff)
  with g show ?thesis by (auto simp: Let_def)
qed

section \<open>Ingestion\<close>

lemma upsert_get:
  assumes "\<And>r. ar_agent_id (upd r) = ar_agent_id r"
  shows "List.find (\<lambda>r. ar_agent_id r = ar_agent_id new) (fl_agents (upsert_agent new upd f)) =
    Some (case List.find (\<lambda>r. ar_agent_id r = ar_agent_id new) (fl_agents f) of Some r \<Rightarrow> upd r | None \<Rightarrow> new)"
proof -
  have "List.find (\<lambda>r. ar_agent_id r = i) (map (\<lambda>r. if ar_agent_id r = i then upd r else r) rs) =
      map_option upd (List.find (\<lambda>r. ar_agent_id r = i) rs)" for i rs
    using assms by (induction rs) auto
  moreover have "i \<notin> ar_agent_id ` set rs \<Longrightarrow> List.find (\<lambda>r. ar_agent_id r = i) rs = None
      \<and> List.find (\<lambda>r. ar_agent_id r = i) (rs @ [new]) = List.find (\<lambda>r. ar_agent_id r = i) [new]" for i rs
    by (induction rs) auto
  moreover have "i \<in> ar_agent_id ` set rs \<Longrightarrow> \<exists>r. List.find (\<lambda>r. ar_agent_id r = i) rs = Some r" for i rs
    by (induction rs) auto
  ultimately show ?thesis
    by (cases "ar_agent_id new \<in> ar_agent_id ` set (fl_agents f)") (fastforce simp: upsert_agent_def)+
qed

text \<open>
  An agent whose message is persisted is listed as online, under the host the message names, for
  the next minute of the database's clock.
\<close>

theorem ingest_marks_online:
  assumes "ii_insert io" "ii_touch io" "now - ii_db_now io < 60 * nanos_per_sec"
  shows "\<exists>a. get_agent now (agent_uuid (ev_agent_id (msg_event m))) (sv_fleet (persist_message S C F J io I m s)) = Some a
    \<and> ag_host a = ev_host (msg_event m) \<and> ag_status a = ''online''"
proof -
  let ?i = "agent_uuid (ev_agent_id (msg_event m))"
  obtain f where f: "sv_fleet (persist_message S C F J io I m s) = touch_agent (ii_db_now io) ?i (ev_host (msg_event m)) f"
    using assms(1,2) by (simp add: persist_message_def count_ingest_def Let_def)
  show ?thesis
    unfolding f touch_agent_def get_agent_def
    using assms(3) upsert_get [of "\<lambda>r. r\<lparr>ar_host := ev_host (msg_event m), ar_last_seen := ii_db_now io\<rparr>"
        "new_agent ?i (ev_host (msg_event m)) (ii_db_now io)" f]
    by (auto simp: new_agent_def agent_view_def agent_status_def split: option.splits)
qed

definition demo_server :: "bool server" where
  "demo_server = \<lparr>sv_app = demo_app Auto, sv_fleet = fleet_empty, sv_feed = [], sv_counts = []\<rparr>"

definition demo_ingest :: ingest_io where
  "demo_ingest = \<lparr>ii_insert = True, ii_touch = True, ii_db_now = 100, ii_now = 100\<rparr>"

theorem ingest_marks_online_witness:
  "\<exists>a. get_agent 200 1 (sv_fleet (persist_message demo_serde demo_crypto demo_rfc demo_json demo_ingest
       (demo_inputs 5) (demo_message 3) demo_server)) = Some a \<and> ag_host a = ''web'' \<and> ag_status a = ''online''"
  using ingest_marks_online [of demo_ingest 200 "demo_message 3" demo_serde demo_crypto demo_rfc demo_json "demo_inputs 5" demo_server]
  by (simp add: demo_ingest_def demo_message_def message_new_def)

lemma persist_message_parts:
  assumes "ii_insert io"
  shows "fl_events (sv_fleet (persist_message S C F J io I m s)) = fl_events (insert_message J (ii_db_now io) m (sv_fleet s))"
    and "sv_feed (persist_message S C F J io I m s) = sv_feed s @ [message_to_stored J (ii_now io) m]"
    and "sv_app (persist_message S C F J io I m s) = prepare_inner S C F I (msg_event m) (sv_app s)"
  using assms by (simp_all add: persist_message_def count_ingest_def Let_def touch_agent_def upsert_agent_def)

text \<open>
  The table ignores a message that was delivered before, but the rest of ingestion does not: it is
  counted and broadcast again, and a remediation is prepared for it again. A redelivered message
  can run a second automatic command.
\<close>

theorem redelivery_acts_again:
  assumes "ii_insert io" "ii_insert io'" and s1: "s1 = persist_message S C F J io I m s"
  shows "fl_events (sv_fleet (persist_message S C F J io' I' m s1)) = fl_events (sv_fleet s1)
    \<and> sv_feed (persist_message S C F J io' I' m s1) = sv_feed s1 @ [message_to_stored J (ii_now io') m]
    \<and> sv_app (persist_message S C F J io' I' m s1) =
        prepare_inner S C F I' (msg_event m) (prepare_inner S C F I (msg_event m) (sv_app s))"
proof -
  let ?key = "(ev_id (msg_event m), pg_time (ev_occurred_at (msg_event m)))"
  have again: "fl_events (insert_message J now m f) = fl_events f" if "?key \<in> event_key ` set (fl_events f)" for f now
    using that by (simp add: insert_message_def Let_def event_key_def message_to_stored_def)
  have "?key \<in> event_key ` set (fl_events (insert_message J now m f))" for f now
    by (simp add: insert_message_def Let_def event_key_def message_to_stored_def)
  then have "?key \<in> event_key ` set (fl_events (sv_fleet s1))" by (simp add: s1 persist_message_parts [OF assms(1)])
  from again [OF this] show ?thesis by (simp add: persist_message_parts assms)
qed

theorem redelivery_acts_again_witness:
  "sv_app (persist_message demo_serde demo_crypto demo_rfc demo_json demo_ingest (demo_inputs 6) (message_new demo_event)
       (persist_message demo_serde demo_crypto demo_rfc demo_json demo_ingest (demo_inputs 5) (message_new demo_event) demo_server))
   = prepare_inner demo_serde demo_crypto demo_rfc (demo_inputs 6) demo_event
       (prepare_inner demo_serde demo_crypto demo_rfc (demo_inputs 5) demo_event (demo_app Auto))"
  using redelivery_acts_again [OF _ _ refl, of demo_ingest demo_ingest demo_serde demo_crypto demo_rfc demo_json "demo_inputs 6"
      "message_new demo_event" "demo_inputs 5" demo_server]
  by (simp add: demo_ingest_def demo_server_def message_new_def)

section \<open>Truncated answers\<close>

text \<open>The escapes of a JSON string that the reader undoes.\<close>

fun json_escape :: "string \<Rightarrow> string" where
  "json_escape [] = []"
| "json_escape (c # cs) =
     (if c = CHR 0x0A then [CHR 0x5C, CHR ''n''] else if c = CHR 0x09 then [CHR 0x5C, CHR ''t'']
      else if c = CHR 0x0D then [CHR 0x5C, CHR ''r''] else if c \<in> {CHR 0x22, CHR 0x5C} then [CHR 0x5C, c] else [c])
     @ json_escape cs"

lemma field_value_escape: "field_value False out (json_escape t @ rest) = field_value False (out @ t) rest"
  by (induction t arbitrary: out) auto



end
