(* ===== verification/Http_Api.thy ===== *)
theory Http_Api
  imports Fleet
begin

text \<open>
  The control plane's door: \<^verbatim>\<open>crates/ravn-server/src/auth.rs\<close> (tokens and roles), the routes,
  the middleware and the remaining handlers of \<^verbatim>\<open>api.rs\<close>, and the certificate authority of
  \<^verbatim>\<open>ca.rs\<close>. The JWT, certificate and HTTP libraries are parameters. The rate limiter counts in
  floating point and is not modelled: its verdict is an input.
\<close>

section \<open>Tokens\<close>

text \<open>
  The JWT library: the header's key id (\<open>None\<close>: the header does not decode), the key of a JWK, and
  decoding with RS256 for an issuer and, when given, an audience.
\<close>

record jwt_lib =
  jw_kid :: "string \<Rightarrow> string option option"
  jw_key :: "string \<Rightarrow> string option"
  jw_decode :: "string \<Rightarrow> string \<Rightarrow> string option \<Rightarrow> string \<Rightarrow> json option"

type_synonym jwk_set = "(string \<times> string) list"

datatype auth_error =
  BadHeader | NoKid | UnknownKid | BadKey | BadToken | NoSub | NoKeys | BadJwks | ReviewCall | ReviewStatus | ReviewParse
| NotAuthenticated

definition verify_token :: "jwt_lib \<Rightarrow> jwk_set \<Rightarrow> string \<Rightarrow> string option \<Rightarrow> string \<Rightarrow> auth_error + json" where
  "verify_token L jwks issuer audience token =
     (case jw_kid L token of
        None \<Rightarrow> Inl BadHeader
      | Some None \<Rightarrow> Inl NoKid
      | Some (Some kid) \<Rightarrow>
          (case map_of jwks kid of
             None \<Rightarrow> Inl UnknownKid
           | Some jwk \<Rightarrow>
               (case jw_key L jwk of
                  None \<Rightarrow> Inl BadKey
                | Some key \<Rightarrow> (case jw_decode L key issuer audience token of None \<Rightarrow> Inl BadToken | Some v \<Rightarrow> Inr v))))"

record ingest_auth =
  ia_issuer :: string
  ia_audience :: string
  ia_jwks :: jwk_set

definition ingest_auth_new :: "(string \<Rightarrow> jwk_set option) \<Rightarrow> string \<Rightarrow> string \<Rightarrow> string \<Rightarrow> auth_error + ingest_auth" where
  "ingest_auth_new parse issuer audience doc =
     (case parse doc of
        None \<Rightarrow> Inl BadJwks
      | Some jwks \<Rightarrow>
          if jwks = [] then Inl NoKeys else Inr \<lparr>ia_issuer = issuer, ia_audience = audience, ia_jwks = jwks\<rparr>)"

text \<open>\<open>IngestAuth::validate\<close>: the subject of a valid token.\<close>

definition ingest_validate :: "jwt_lib \<Rightarrow> ingest_auth \<Rightarrow> string \<Rightarrow> auth_error + string" where
  "ingest_validate L A token =
     (case verify_token L (ia_jwks A) (ia_issuer A) (Some (ia_audience A)) token of
        Inl e \<Rightarrow> Inl e
      | Inr claims \<Rightarrow>
          (case Option.bind (json_get claims ''sub'') json_str of None \<Rightarrow> Inl NoSub | Some sub \<Rightarrow> Inr sub))"

record review_status =
  rs_authenticated :: bool
  rs_username :: string

text \<open>
  \<open>TokenReviewValidator\<close>: the cluster's answer to a token and an audience; no answer, or a status
  and a body that may not parse.
\<close>

record token_review =
  tr_audience :: string
  tr_call :: "string \<Rightarrow> string \<Rightarrow> (bool \<times> review_status option) option"

definition review_validate :: "token_review \<Rightarrow> string \<Rightarrow> auth_error + string" where
  "review_validate T token =
     (case tr_call T token (tr_audience T) of
        None \<Rightarrow> Inl ReviewCall
      | Some (False, _) \<Rightarrow> Inl ReviewStatus
      | Some (True, None) \<Rightarrow> Inl ReviewParse
      | Some (True, Some st) \<Rightarrow> if rs_authenticated st then Inr (rs_username st) else Inl NotAuthenticated)"

record user_auth =
  ua_issuer :: string
  ua_audience :: "string option"
  ua_jwks :: jwk_set
  ua_groups_claim :: string
  ua_admin_group :: "string option"
  ua_viewer_group :: "string option"

definition user_auth_new ::
    "(string \<Rightarrow> jwk_set option) \<Rightarrow> string \<Rightarrow> string option \<Rightarrow> string \<Rightarrow> string \<Rightarrow> string option \<Rightarrow> string option
      \<Rightarrow> auth_error + user_auth" where
  "user_auth_new parse issuer audience doc claim admin viewer =
     (case parse doc of
        None \<Rightarrow> Inl BadJwks
      | Some jwks \<Rightarrow>
          if jwks = [] then Inl NoKeys
          else Inr \<lparr>ua_issuer = issuer, ua_audience = audience, ua_jwks = jwks, ua_groups_claim = claim,
                    ua_admin_group = admin, ua_viewer_group = viewer\<rparr>)"

definition extract_groups :: "json \<Rightarrow> string \<Rightarrow> string list" where
  "extract_groups claims claim =
     (case json_get claims claim of
        Some (JArr items) \<Rightarrow> List.map_filter json_str items
      | Some (JStr s) \<Rightarrow> filter (\<lambda>t. t \<noteq> []) (concat (map (split_on (CHR '' '')) (split_on (CHR '','') s)))
      | _ \<Rightarrow> [])"

definition user_authorize :: "jwt_lib \<Rightarrow> user_auth \<Rightarrow> string \<Rightarrow> auth_error + role option" where
  "user_authorize L U token =
     (case verify_token L (ua_jwks U) (ua_issuer U) (ua_audience U) token of
        Inl e \<Rightarrow> Inl e
      | Inr claims \<Rightarrow>
          let groups = extract_groups claims (ua_groups_claim U)
          in if (case ua_admin_group U of Some g \<Rightarrow> g \<in> set groups | None \<Rightarrow> False) then Inr (Some Admin)
             else if (case ua_viewer_group U of Some g \<Rightarrow> g \<in> set groups | None \<Rightarrow> True) then Inr (Some Viewer)
             else Inr None)"

section \<open>Certificates\<close>

text \<open>What a certificate says; the request's own key is \<open>ct_key\<close>.\<close>

record cert_params =
  ct_key :: string
  ct_common_name :: string
  ct_sans :: "string list"
  ct_is_ca :: bool
  ct_key_usages :: "string list"
  ct_ext_usages :: "string list"
  ct_not_before :: datetime
  ct_not_after :: datetime

text \<open>rcgen: reading a request, whether a name is a DNS name, and signing with the CA's key.\<close>

record ca =
  ca_cert_pem :: string
  ca_ttl_days :: int
  ca_read_csr :: "string \<Rightarrow> cert_params option"
  ca_dns_ok :: "string \<Rightarrow> bool"
  ca_signed :: "cert_params \<Rightarrow> string option"

definition days :: "int \<Rightarrow> int" where "days n = n * 86400 * nanos_per_sec"

definition ca_sign :: "(uuid \<Rightarrow> string) \<Rightarrow> ca \<Rightarrow> datetime \<Rightarrow> string \<Rightarrow> uuid \<Rightarrow> (string \<times> datetime) option" where
  "ca_sign U A now csr_pem agent_id =
     (case ca_read_csr A csr_pem of
        None \<Rightarrow> None
      | Some csr \<Rightarrow>
          let dns = U agent_id @ ''.agents.ravn''; not_after = now + days (ca_ttl_days A)
          in if \<not> ca_dns_ok A dns then None
             else
               map_option (\<lambda>pem. (pem, not_after))
                 (ca_signed A (csr\<lparr>ct_common_name := U agent_id, ct_sans := [dns], ct_is_ca := False,
                    ct_key_usages := [''DigitalSignature''], ct_ext_usages := [''ClientAuth''],
                    ct_not_before := now - 300 * nanos_per_sec, ct_not_after := not_after\<rparr>)))"

section \<open>Requests and responses\<close>

datatype http_method = GET | HEAD | OPTIONS | TRACE | POST | PUT | DELETE | PATCH

definition is_safe :: "http_method \<Rightarrow> bool" where
  "is_safe m \<longleftrightarrow> m \<in> {GET, HEAD, OPTIONS, TRACE}"

record knowledge_settings =
  ks_local_runbooks_dir :: string
  ks_github_wiki_dir :: string
  ks_backstage_enabled :: bool
  ks_backstage_url :: string
  ks_backstage_token :: string
  ks_confluence_enabled :: bool
  ks_confluence_url :: string
  ks_confluence_user :: string
  ks_confluence_token :: string
  ks_notion_enabled :: bool
  ks_notion_api_key :: string

record system_settings =
  ss_auto_remediation :: bool
  ss_risk_tier :: string
  ss_inference_enabled :: bool
  ss_inference_endpoint :: string
  ss_inference_model :: string
  ss_knowledge :: "knowledge_settings option"

text \<open>The routes of the stateful router, each with what its extractors give the handler.\<close>

datatype endpoint =
    EReady bool
  | EListEvents "int option"
  | EListAgents
  | EGetAgent uuid
  | EDeleteAgent uuid
  | EPutLabels uuid "(string, string) btree"
  | ECategories
  | ETopology "string option"
  | EWsEvents
  | EMetrics
  | EEnroll enroll_request
  | EIngest message
  | EGetCommands uuid
  | EPostResult uuid uuid action_result
  | ECommandKeys
  | EListRemediations
  | EApprove uuid
  | EReject uuid
  | EAuthConfig
  | EMe
  | EGetSettings
  | EPutSettings system_settings
  | ESystemHealth

fun endpoint_path :: "(uuid \<Rightarrow> string) \<Rightarrow> endpoint \<Rightarrow> string" where
  "endpoint_path U (EReady _) = ''/ready''"
| "endpoint_path U (EListEvents _) = ''/api/events''"
| "endpoint_path U EListAgents = ''/api/agents''"
| "endpoint_path U (EGetAgent i) = ''/api/agents/'' @ U i"
| "endpoint_path U (EDeleteAgent i) = ''/api/agents/'' @ U i"
| "endpoint_path U (EPutLabels i _) = ''/api/agents/'' @ U i @ ''/labels''"
| "endpoint_path U ECategories = ''/api/categories''"
| "endpoint_path U (ETopology _) = ''/api/topology''"
| "endpoint_path U EWsEvents = ''/ws/events''"
| "endpoint_path U EMetrics = ''/metrics''"
| "endpoint_path U (EEnroll _) = ''/enroll''"
| "endpoint_path U (EIngest _) = ''/ingest''"
| "endpoint_path U (EGetCommands i) = ''/agents/'' @ U i @ ''/commands''"
| "endpoint_path U (EPostResult i c _) = ''/agents/'' @ U i @ ''/commands/'' @ U c @ ''/result''"
| "endpoint_path U ECommandKeys = ''/command-keys''"
| "endpoint_path U EListRemediations = ''/api/remediations''"
| "endpoint_path U (EApprove i) = ''/api/remediations/'' @ U i @ ''/approve''"
| "endpoint_path U (EReject i) = ''/api/remediations/'' @ U i @ ''/reject''"
| "endpoint_path U EAuthConfig = ''/auth/config''"
| "endpoint_path U EMe = ''/api/me''"
| "endpoint_path U EGetSettings = ''/api/settings''"
| "endpoint_path U (EPutSettings _) = ''/api/settings''"
| "endpoint_path U ESystemHealth = ''/api/system/health''"

text \<open>The method of each route; a \<open>get\<close> route also answers \<open>HEAD\<close>, without the body.\<close>

fun endpoint_method :: "endpoint \<Rightarrow> http_method" where
  "endpoint_method (EDeleteAgent _) = DELETE"
| "endpoint_method (EPutLabels _ _) = PUT"
| "endpoint_method (EEnroll _) = POST"
| "endpoint_method (EIngest _) = POST"
| "endpoint_method (EPostResult _ _ _) = POST"
| "endpoint_method (EApprove _) = POST"
| "endpoint_method (EReject _) = POST"
| "endpoint_method (EPutSettings _) = PUT"
| "endpoint_method _ = GET"

record request =
  rq_method :: http_method
  rq_endpoint :: endpoint
  rq_authorization :: "string option"
  rq_query :: "string option"

record oidc_public =
  op_issuer :: string
  op_client_id :: string
  op_scopes :: string

record system_health =
  sh_kill_switch_active :: bool
  sh_inference_configured :: bool
  sh_breaker_trips :: nat
  sh_outcomes :: "(string, nat) btree"
  sh_inference_timeouts :: nat
  sh_channel_errors :: nat

datatype body =
    NoBody
  | TextBody string
  | LiveBody string string
  | DocumentBody string
  | ReadyBody bool "(string, bool) btree"
  | EventsBody "stored_event list"
  | AgentsBody "agent list"
  | AgentBody agent
  | CategoriesBody "category_dimension list"
  | TopologyBody topology
  | FeedBody
  | MetricsBody nat nat nat
  | EnrollBody enroll_response
  | CommandsBody "envelope list"
  | KeysBody string
  | RecordsBody "remediation_record list"
  | ApprovedBody uuid
  | RejectedBody
  | AuthConfigBody "oidc_public option"
  | RoleBody string
  | SettingsBody system_settings
  | HealthBody system_health

type_synonym response = "nat \<times> body"

section \<open>Configuration and the middleware\<close>

record http_config =
  hc_admin_token :: "string option"
  hc_viewer_token :: "string option"
  hc_user_auth :: "user_auth option"
  hc_ingest_auth :: "ingest_auth option"
  hc_token_review :: "token_review option"
  hc_ca :: "ca option"
  hc_enroll_token :: "string option"
  hc_oidc_public :: "oidc_public option"
  hc_inference :: bool

record 'sk http_state =
  hs_server :: "'sk server"
  hs_settings :: "string option"

text \<open>The bytes of a string; \<open>fold\<close> with a bitwise or of the differences.\<close>

definition str_bytes :: "string \<Rightarrow> u8 list" where
  "str_bytes s = map (\<lambda>c. of_char c) s"

definition constant_time_eq :: "u8 list \<Rightarrow> u8 list \<Rightarrow> bool" where
  "constant_time_eq a b \<longleftrightarrow>
     length a = length b \<and> foldl (\<lambda>acc (x, y). or acc (xor x y)) 0 (zip a b) = 0"

definition is_public :: "string \<Rightarrow> bool" where
  "is_public path \<longleftrightarrow>
     path \<in> {''/ready'', ''/metrics'', ''/enroll'', ''/ingest'', ''/auth/config'', ''/api/system/health''}"

fun find_param :: "string \<Rightarrow> string list \<Rightarrow> string option" where
  "find_param key [] = None"
| "find_param key (p # ps) =
     (case split_once ''='' p of
        Some (k, v) \<Rightarrow> if k = key then Some v else find_param key ps
      | None \<Rightarrow> find_param key ps)"

definition query_param :: "string option \<Rightarrow> string \<Rightarrow> string option" where
  "query_param query key = Option.bind query (\<lambda>q. find_param key (split_on (CHR ''&'') q))"

definition bearer :: "string option \<Rightarrow> string option" where
  "bearer header = Option.bind header (strip_prefix ''Bearer '')"

definition role_for :: "string \<Rightarrow> string option \<Rightarrow> string option \<Rightarrow> role option" where
  "role_for token admin viewer =
     (if admin = Some token then Some Admin else if viewer = Some token then Some Viewer else None)"

definition authorized :: "http_method \<Rightarrow> role \<Rightarrow> bool" where
  "authorized m r \<longleftrightarrow> is_safe m \<or> r = Admin"

datatype verdict = Pass "role option" | Deny nat string

definition auth_enabled :: "http_config \<Rightarrow> bool" where
  "auth_enabled K \<longleftrightarrow> hc_admin_token K \<noteq> None \<or> hc_viewer_token K \<noteq> None \<or> hc_user_auth K \<noteq> None"

definition request_token :: "request \<Rightarrow> string option" where
  "request_token q =
     (case bearer (rq_authorization q) of Some t \<Rightarrow> Some t | None \<Rightarrow> query_param (rq_query q) ''access_token'')"

definition auth_mw :: "jwt_lib \<Rightarrow> (uuid \<Rightarrow> string) \<Rightarrow> http_config \<Rightarrow> request \<Rightarrow> verdict" where
  "auth_mw L U K q =
     (if \<not> auth_enabled K then Pass None
      else if is_public (endpoint_path U (rq_endpoint q)) then Pass None
      else case request_token q of
             None \<Rightarrow> Deny 401 ''missing bearer token''
           | Some token \<Rightarrow>
               let decide = (\<lambda>r. case r of
                               None \<Rightarrow> Deny 401 ''missing or invalid bearer token''
                             | Some r \<Rightarrow> if authorized (rq_method q) r then Pass (Some r)
                                         else Deny 403 ''admin role required'')
               in case role_for token (hc_admin_token K) (hc_viewer_token K) of
                    Some r \<Rightarrow> decide (Some r)
                  | None \<Rightarrow>
                      (case hc_user_auth K of
                         None \<Rightarrow> decide None
                       | Some u \<Rightarrow>
                           (case user_authorize L u token of
                              Inr (Some r) \<Rightarrow> decide (Some r)
                            | Inr None \<Rightarrow> Deny 403 ''authenticated but not in an allowed group''
                            | Inl _ \<Rightarrow> decide None)))"

section \<open>Handlers\<close>

text \<open>
  What a handler takes from the outside: the parameters of the model's other parts, the clocks,
  whether the database answers, and the verdict of the rate limiter.
\<close>

record ('sk, 'vk) api_env =
  ae_serde :: serde
  ae_crypto :: "('sk, 'vk) crypto"
  ae_rfc :: rfc3339
  ae_json :: json_lib
  ae_jwt :: jwt_lib
  ae_uuid :: "uuid \<Rightarrow> string"
  ae_settings_text :: "system_settings \<Rightarrow> string"
  ae_settings_parse :: "string \<Rightarrow> system_settings option"

record api_io =
  ai_inputs :: inputs
  ai_ingest :: ingest_io
  ai_db :: bool
  ai_db_now :: datetime
  ai_now :: datetime
  ai_allowed :: bool
  ai_write :: bool
  ai_collation :: "string \<Rightarrow> nat"
  ai_label_order :: "(string \<times> string) list"

definition internal_error :: response where
  "internal_error = (500, TextBody ''internal error'')"

definition on_server :: "('sk server \<Rightarrow> 'sk server) \<Rightarrow> 'sk http_state \<Rightarrow> 'sk http_state" where
  "on_server g s = s\<lparr>hs_server := g (hs_server s)\<rparr>"

definition on_fleet :: "(fleet \<Rightarrow> fleet) \<Rightarrow> 'sk http_state \<Rightarrow> 'sk http_state" where
  "on_fleet g = on_server (\<lambda>v. v\<lparr>sv_fleet := g (sv_fleet v)\<rparr>)"

definition on_app :: "('sk app_state \<Rightarrow> 'sk app_state) \<Rightarrow> 'sk http_state \<Rightarrow> 'sk http_state" where
  "on_app g = on_server (\<lambda>v. v\<lparr>sv_app := g (sv_app v)\<rparr>)"

abbreviation hs_fleet :: "'sk http_state \<Rightarrow> fleet" where "hs_fleet s \<equiv> sv_fleet (hs_server s)"

abbreviation hs_app :: "'sk http_state \<Rightarrow> 'sk app_state" where "hs_app s \<equiv> sv_app (hs_server s)"

text \<open>\<open>from_timestamp\<close> of the expiry's seconds.\<close>

definition whole_seconds :: "datetime \<Rightarrow> datetime" where
  "whole_seconds t = t div nanos_per_sec * nanos_per_sec"

definition api_enroll ::
    "('sk, 'vk) api_env \<Rightarrow> http_config \<Rightarrow> api_io \<Rightarrow> enroll_request \<Rightarrow> 'sk http_state \<Rightarrow> response \<times> 'sk http_state" where
  "api_enroll E K io r s =
     (case (hc_ca K, hc_enroll_token K) of
        (Some ca, Some expected) \<Rightarrow>
          if \<not> constant_time_eq (str_bytes (er_bootstrap_token r)) (str_bytes expected)
          then ((401, TextBody ''invalid bootstrap token''), s)
          else
            (case ca_sign (ae_uuid E) ca (ai_now io) (er_csr_pem r) (agent_uuid (er_agent_id r)) of
               None \<Rightarrow> ((400, TextBody ''could not sign CSR''), s)
             | Some (pem, not_after) \<Rightarrow>
                 if \<not> ai_db io then ((500, TextBody ''could not record enrollment''), s)
                 else
                   ((200, EnrollBody
                       \<lparr>es_agent_id = er_agent_id r, es_certificate_pem = pem, es_ca_certificate_pem = ca_cert_pem ca,
                        es_command_signing_pubkey = cs_pubkey_b64 (app_signer (hs_app s)),
                        es_command_keyring = cs_keyring_json (app_signer (hs_app s)), es_not_after = whole_seconds not_after\<rparr>),
                    on_fleet (record_enrollment (ai_db_now io) (agent_uuid (er_agent_id r)) (er_host r) (whole_seconds not_after)) s))
      | _ \<Rightarrow> ((404, TextBody ''enrollment is not enabled''), s))"

definition ingest_identity :: "jwt_lib \<Rightarrow> http_config \<Rightarrow> string \<Rightarrow> string option" where
  "ingest_identity L K token =
     (case Option.bind (hc_ingest_auth K) (\<lambda>a. case ingest_validate L a token of Inr sub \<Rightarrow> Some sub | Inl _ \<Rightarrow> None) of
        Some sub \<Rightarrow> Some sub
      | None \<Rightarrow>
          Option.bind (hc_token_review K) (\<lambda>t. case review_validate t token of Inr sub \<Rightarrow> Some sub | Inl _ \<Rightarrow> None))"

definition api_ingest ::
    "('sk, 'vk) api_env \<Rightarrow> http_config \<Rightarrow> api_io \<Rightarrow> string option \<Rightarrow> message \<Rightarrow> 'sk http_state \<Rightarrow> response \<times> 'sk http_state" where
  "api_ingest E K io header m s =
     (if \<not> ai_allowed io then ((429, TextBody ''too many requests''), s)
      else if hc_ingest_auth K = None \<and> hc_token_review K = None then ((404, TextBody ''authenticated ingest is not enabled''), s)
      else case bearer header of
             None \<Rightarrow> ((401, TextBody ''missing bearer token''), s)
           | Some token \<Rightarrow>
               (case ingest_identity (ae_jwt E) K token of
                  Some _ \<Rightarrow>
                    ((202, TextBody ''accepted''),
                     on_server (persist_message (ae_serde E) (ae_crypto E) (ae_rfc E) (ae_json E) (ai_ingest io) (ai_inputs io) m) s)
                | None \<Rightarrow> ((401, TextBody ''invalid token''), s)))"

definition default_settings :: system_settings where
  "default_settings =
     \<lparr>ss_auto_remediation = False, ss_risk_tier = ''safe'', ss_inference_enabled = True,
      ss_inference_endpoint = ''http://127.0.0.1:15000'', ss_inference_model = ''default'',
      ss_knowledge = Some
        \<lparr>ks_local_runbooks_dir = ''/home/olafkfreund/Source/GitHub/ravn-agents/runbooks'',
         ks_github_wiki_dir = ''/home/olafkfreund/Source/GitHub/ravn-agents/wiki'',
         ks_backstage_enabled = False, ks_backstage_url = [], ks_backstage_token = [],
         ks_confluence_enabled = False, ks_confluence_url = [], ks_confluence_user = [], ks_confluence_token = [],
         ks_notion_enabled = False, ks_notion_api_key = []\<rparr>\<rparr>"

definition get_settings :: "(string \<Rightarrow> system_settings option) \<Rightarrow> string option \<Rightarrow> response" where
  "get_settings parse stored =
     (case stored of
        None \<Rightarrow> (200, SettingsBody default_settings)
      | Some text \<Rightarrow>
          (case parse text of Some x \<Rightarrow> (200, SettingsBody x) | None \<Rightarrow> (500, TextBody ''failed to parse settings'')))"

definition agent_counts :: "agent list \<Rightarrow> nat \<times> nat \<times> nat" where
  "agent_counts as =
     (length (filter (\<lambda>a. ag_status a = ''online'') as), length (filter (\<lambda>a. ag_status a = ''stale'') as),
      length (filter (\<lambda>a. ag_status a \<noteq> ''online'' \<and> ag_status a \<noteq> ''stale'') as))"

fun remediation_response :: "string \<Rightarrow> api_response \<Rightarrow> response" where
  "remediation_response missing NotFound = (404, TextBody missing)"
| "remediation_response missing Conflict = (409, TextBody ''template for this proposal is no longer loaded'')"
| "remediation_response missing (ServerError _) = internal_error"
| "remediation_response missing (ApprovedCommand c) = (200, ApprovedBody c)"
| "remediation_response missing RejectedOk = (200, RejectedBody)"
| "remediation_response missing Accepted = (202, NoBody)"

text \<open>
  The handlers over the registry. They answer \<open>internal error\<close> when the database fails, and
  \<open>not_found\<close> is their common miss.
\<close>

definition agent_response :: "agent option \<Rightarrow> response" where
  "agent_response a = (case a of Some a \<Rightarrow> (200, AgentBody a) | None \<Rightarrow> (404, TextBody ''agent not found''))"

definition api_get_agent :: "api_io \<Rightarrow> uuid \<Rightarrow> fleet \<Rightarrow> response" where
  "api_get_agent io i f = (if ai_db io then agent_response (get_agent (ai_now io) i f) else internal_error)"

definition api_put_labels :: "api_io \<Rightarrow> uuid \<Rightarrow> (string, string) btree \<Rightarrow> 'sk http_state \<Rightarrow> response \<times> 'sk http_state" where
  "api_put_labels io i labels s =
     (if \<not> ai_db io then (internal_error, s)
      else if \<not> fst (replace_labels i labels (hs_fleet s)) then ((404, TextBody ''agent not found''), s)
      else
        let s' = on_fleet (snd \<circ> replace_labels i labels) s
        in (agent_response (get_agent (ai_now io) i (hs_fleet s')), s'))"

definition api_delete_agent :: "api_io \<Rightarrow> uuid \<Rightarrow> 'sk http_state \<Rightarrow> response \<times> 'sk http_state" where
  "api_delete_agent io i s =
     (if ai_db io
      then (if fst (delete_agent i (hs_fleet s)) then (204, NoBody) else (404, TextBody ''agent not found''),
            on_fleet (snd \<circ> delete_agent i) s)
      else (internal_error, s))"

definition api_metrics :: "api_io \<Rightarrow> fleet \<Rightarrow> response" where
  "api_metrics io f =
     (200, case agent_counts (if ai_db io then list_agents (ai_collation io) (ai_now io) f else []) of
             (on, st, off) \<Rightarrow> MetricsBody on st off)"

text \<open>
  The health snapshot, from the counters. The gauge of the kill switch is set once at start-up, from
  the switch the policy engine is built with.
\<close>

definition outcome_counts :: "metric list \<Rightarrow> (string, nat) btree" where
  "outcome_counts ms =
     fold (\<lambda>m acc. case m of
                      OutcomeReported st \<Rightarrow> btree_alter (\<lambda>c. case c of Some n \<Rightarrow> Suc n | None \<Rightarrow> 1) st acc
                    | _ \<Rightarrow> acc) ms []"

definition system_health_of :: "http_config \<Rightarrow> 'sk server \<Rightarrow> system_health" where
  "system_health_of K v =
     (let ms = app_metrics (sv_app v)
      in \<lparr>sh_kill_switch_active = (\<not> pe_auto_enabled (app_policy (sv_app v))),
          sh_inference_configured = hc_inference K,
          sh_breaker_trips = count_list ms BreakerTrip, sh_outcomes = outcome_counts ms,
          sh_inference_timeouts = count_list (sv_counts v) InferenceTimeout,
          sh_channel_errors = count_list ms ChannelError\<rparr>)"

definition api_put_settings ::
    "(system_settings \<Rightarrow> string) \<Rightarrow> bool \<Rightarrow> system_settings \<Rightarrow> 'sk http_state \<Rightarrow> response \<times> 'sk http_state" where
  "api_put_settings to_text written x s =
     (if written then ((200, NoBody), s\<lparr>hs_settings := Some (to_text x)\<rparr>)
      else ((500, TextBody ''failed to write settings file''), s))"

text \<open>The handlers that only read.\<close>

definition api_ready :: "bool \<Rightarrow> bool \<Rightarrow> response" where
  "api_ready database nats = (200, ReadyBody (database \<and> nats) [(''database'', database), (''nats'', nats)])"

definition api_list_events :: "api_io \<Rightarrow> int option \<Rightarrow> fleet \<Rightarrow> response" where
  "api_list_events io l f = (if ai_db io then (200, EventsBody (list_events l f)) else internal_error)"

definition api_list_agents :: "api_io \<Rightarrow> fleet \<Rightarrow> response" where
  "api_list_agents io f = (if ai_db io then (200, AgentsBody (list_agents (ai_collation io) (ai_now io) f)) else internal_error)"

definition api_list_categories :: "api_io \<Rightarrow> fleet \<Rightarrow> response" where
  "api_list_categories io f = (if ai_db io then (200, CategoriesBody (list_categories (ai_label_order io) f)) else internal_error)"

definition api_topology :: "api_io \<Rightarrow> string option \<Rightarrow> fleet \<Rightarrow> response" where
  "api_topology io g f =
     (if ai_db io then (200, TopologyBody (fleet_topology (ai_collation io) (ai_now io) g f)) else internal_error)"

definition api_auth_config :: "http_config \<Rightarrow> response" where
  "api_auth_config K = (200, AuthConfigBody (hc_oidc_public K))"

text \<open>Without a role the middleware is off, which counts as the admin.\<close>

definition api_me :: "role option \<Rightarrow> response" where
  "api_me r = (200, RoleBody (case (case r of Some r \<Rightarrow> r | None \<Rightarrow> Admin) of Admin \<Rightarrow> ''admin'' | Viewer \<Rightarrow> ''viewer''))"

text \<open>The router: the handler of each route.\<close>

fun api_handle ::
    "('sk, 'vk) api_env \<Rightarrow> http_config \<Rightarrow> api_io \<Rightarrow> string option \<Rightarrow> role option \<Rightarrow> endpoint \<Rightarrow> 'sk http_state
      \<Rightarrow> response \<times> 'sk http_state" where
  "api_handle E K io header r (EReady nats) s = (api_ready (ai_db io) nats, s)"
| "api_handle E K io header r (EListEvents l) s = (api_list_events io l (hs_fleet s), s)"
| "api_handle E K io header r EListAgents s = (api_list_agents io (hs_fleet s), s)"
| "api_handle E K io header r (EGetAgent i) s = (api_get_agent io i (hs_fleet s), s)"
| "api_handle E K io header r (EDeleteAgent i) s = api_delete_agent io i s"
| "api_handle E K io header r (EPutLabels i labels) s = api_put_labels io i labels s"
| "api_handle E K io header r ECategories s = (api_list_categories io (hs_fleet s), s)"
| "api_handle E K io header r (ETopology g) s = (api_topology io g (hs_fleet s), s)"
| "api_handle E K io header r EWsEvents s = ((101, FeedBody), s)"
| "api_handle E K io header r EMetrics s = (api_metrics io (hs_fleet s), s)"
| "api_handle E K io header r (EEnroll q) s = api_enroll E K io q s"
| "api_handle E K io header r (EIngest m) s = api_ingest E K io header m s"
| "api_handle E K io header r (EGetCommands i) s =
     ((200, CommandsBody (fst (get_commands i (hs_app s)))), on_app (snd \<circ> get_commands i) s)"
| "api_handle E K io header r (EPostResult i c res) s =
     ((202, NoBody), on_app (snd \<circ> post_command_result (ae_rfc E) (ai_inputs io) res) s)"
| "api_handle E K io header r ECommandKeys s = ((200, KeysBody (cs_keyring_json (app_signer (hs_app s)))), s)"
| "api_handle E K io header r EListRemediations s = ((200, RecordsBody (store_list (ai_db io) (app_store (hs_app s)))), s)"
| "api_handle E K io header r (EApprove i) s =
     (remediation_response ''no pending remediation with that id'' (fst (api_approve (ae_serde E) (ae_crypto E) (ai_inputs io) i r (hs_app s))),
      on_app (snd \<circ> api_approve (ae_serde E) (ae_crypto E) (ai_inputs io) i r) s)"
| "api_handle E K io header r (EReject i) s =
     (remediation_response ''no remediation with that id'' (fst (api_reject (ae_serde E) (ai_inputs io) i r (hs_app s))),
      on_app (snd \<circ> api_reject (ae_serde E) (ai_inputs io) i r) s)"
| "api_handle E K io header r EAuthConfig s = (api_auth_config K, s)"
| "api_handle E K io header r EMe s = (api_me r, s)"
| "api_handle E K io header r EGetSettings s = (get_settings (ae_settings_parse E) (hs_settings s), s)"
| "api_handle E K io header r (EPutSettings x) s = api_put_settings (ae_settings_text E) (ai_write io) x s"
| "api_handle E K io header r ESystemHealth s = ((200, HealthBody (system_health_of K (hs_server s))), s)"

text \<open>A request: the middleware, the method of the route, the handler, and no body for \<open>HEAD\<close>.\<close>

definition http_request ::
    "('sk, 'vk) api_env \<Rightarrow> http_config \<Rightarrow> api_io \<Rightarrow> request \<Rightarrow> 'sk http_state \<Rightarrow> response \<times> 'sk http_state" where
  "http_request E K io q s =
     (case auth_mw (ae_jwt E) (ae_uuid E) K q of
        Deny st msg \<Rightarrow> ((st, TextBody msg), s)
      | Pass r \<Rightarrow>
          if rq_method q = endpoint_method (rq_endpoint q)
          then api_handle E K io (rq_authorization q) r (rq_endpoint q) s
          else if rq_method q = HEAD \<and> endpoint_method (rq_endpoint q) = GET
          then (case api_handle E K io (rq_authorization q) r (rq_endpoint q) s of ((st, _), s') \<Rightarrow> ((st, NoBody), s'))
          else ((405, NoBody), s))"

text \<open>The whole application: the routes of the system, which nothing guards, beside the others.\<close>

datatype system_route = RHealth | ROpenApi

fun system_handle :: "string \<Rightarrow> string \<Rightarrow> system_route \<Rightarrow> response" where
  "system_handle version doc RHealth = (200, LiveBody ''ok'' version)"
| "system_handle version doc ROpenApi = (200, DocumentBody doc)"

definition app_request ::
    "string \<Rightarrow> string \<Rightarrow> ('sk, 'vk) api_env \<Rightarrow> http_config \<Rightarrow> api_io \<Rightarrow> system_route + request \<Rightarrow> 'sk http_state
      \<Rightarrow> response \<times> 'sk http_state" where
  "app_request version doc E K io q s =
     (case q of Inl r \<Rightarrow> (system_handle version doc r, s) | Inr rq \<Rightarrow> http_request E K io rq s)"

end
