(* ===== verification/Http_Props.thy ===== *)
theory Http_Props
  imports Http_Api Fleet_Props
begin

text \<open>
  Who may do what through the API: what a request needs to change the control plane's state, what a
  viewer can still change, and what the endpoints that check tokens themselves demand.
\<close>

section \<open>Comparing tokens\<close>

lemma xor_eq_zero: "xor (x :: u8) y = 0 \<longleftrightarrow> x = y"
  by (metis xor.right_neutral xor_self_eq xor.left_commute)

lemma foldl_or_zero: "foldl (\<lambda>acc (x, y). or acc (xor x y)) a ps = (0 :: u8) \<longleftrightarrow> a = 0 \<and> (\<forall>(x, y)\<in>set ps. x = y)"
  by (induction ps arbitrary: a) (auto simp: xor_eq_zero or_eq_0_iff)

text \<open>
  The constant-time comparison decides equality: it accumulates differences without leaving
  early, and the accumulator is zero exactly for equal byte strings.
\<close>

lemma constant_time_eq_iff: "constant_time_eq a b \<longleftrightarrow> a = b"
proof -
  have "length a = length b \<Longrightarrow> (\<forall>(x, y)\<in>set (zip a b). x = y) \<longleftrightarrow> a = b"
    by (induction a b rule: list_induct2) auto
  then show ?thesis unfolding constant_time_eq_def foldl_or_zero by auto
qed

lemma str_bytes_inj: "str_bytes a = str_bytes b \<longleftrightarrow> a = b"
proof -
  have "(of_char c :: u8) = of_char d \<longleftrightarrow> c = d" for c d
  proof -
    have "unat (of_char c :: u8) = of_char c" for c
    proof -
      have "(of_char c :: nat) < 2 ^ LENGTH(8)" by simp
      then have "take_bit LENGTH(8) (of_char c :: nat) = of_char c" by (rule take_bit_nat_eq_self)
      then have "unat (word_of_nat (of_char c) :: u8) = of_char c" by (simp only: unsigned_of_nat of_nat_id)
      then show ?thesis by (simp only: of_nat_of_char)
    qed
    then show ?thesis by (metis of_char_eq_iff)
  qed
  then show ?thesis unfolding str_bytes_def by (simp add: inj_map_eq_map inj_def)
qed

section \<open>Roles\<close>

text \<open>The role that a token stands for.\<close>

definition token_role :: "jwt_lib \<Rightarrow> http_config \<Rightarrow> string \<Rightarrow> role option" where
  "token_role L K t =
     (case role_for t (hc_admin_token K) (hc_viewer_token K) of
        Some r \<Rightarrow> Some r
      | None \<Rightarrow>
          (case hc_user_auth K of
             None \<Rightarrow> None
           | Some u \<Rightarrow> (case user_authorize L u t of Inr r \<Rightarrow> r | Inl _ \<Rightarrow> None)))"

lemma auth_mw_Pass:
  assumes "auth_mw L U K q = Pass r" "auth_enabled K" "\<not> is_public (endpoint_path U (rq_endpoint q))"
  shows "\<exists>t r'. r = Some r' \<and> request_token q = Some t \<and> token_role L K t = Some r' \<and> authorized (rq_method q) r'"
proof (cases "request_token q")
  case None
  with assms show ?thesis by (simp add: auth_mw_def)
next
  case (Some t)
  show ?thesis
  proof (cases "role_for t (hc_admin_token K) (hc_viewer_token K)")
    case None
    with Some assms obtain u where u: "hc_user_auth K = Some u" by (cases "hc_user_auth K") (auto simp: auth_mw_def)
    with Some None assms show ?thesis
      by (cases "user_authorize L u t") (auto simp: auth_mw_def token_role_def split: option.splits if_splits)
  next
    case (Some r')
    with \<open>request_token q = Some t\<close> assms show ?thesis by (auto simp: auth_mw_def token_role_def split: if_splits)
  qed
qed

lemma safe_handlers_pure:
  assumes "endpoint_method e = GET" "\<And>a. e \<noteq> EGetCommands a"
  shows "snd (api_handle E K io header r e s) = s"
  using assms(1) assms(2) [of "case e of EGetCommands a \<Rightarrow> a"] by (cases e) simp_all

lemma http_request_denied: "auth_mw (ae_jwt E) (ae_uuid E) K q = Deny st msg \<Longrightarrow> snd (http_request E K io q s) = s"
  by (simp add: http_request_def)

lemma http_request_state:
  assumes "snd (http_request E K io q s) \<noteq> s"
  shows "\<exists>r. auth_mw (ae_jwt E) (ae_uuid E) K q = Pass r
    \<and> snd (http_request E K io q s) = snd (api_handle E K io (rq_authorization q) r (rq_endpoint q) s)
    \<and> (rq_method q = endpoint_method (rq_endpoint q) \<or> endpoint_method (rq_endpoint q) = GET)"
  using assms by (auto simp: http_request_def split: verdict.splits if_splits prod.splits)

text \<open>
  C12: once a token or a user login is configured, a request outside the public endpoints changes the
  control plane's state only with a token of an administrator. There is one exception: pulling the
  commands of an agent, which any viewer may do.
\<close>

theorem changes_need_admin:
  assumes "auth_enabled K" "\<not> is_public (endpoint_path (ae_uuid E) (rq_endpoint q))"
    and changed: "snd (http_request E K io q s) \<noteq> s"
  shows "\<exists>t r. request_token q = Some t \<and> token_role (ae_jwt E) K t = Some r
    \<and> (r = Admin \<or> (\<exists>a. rq_endpoint q = EGetCommands a))"
proof -
  from http_request_state [OF changed] obtain r where r: "auth_mw (ae_jwt E) (ae_uuid E) K q = Pass r"
    "snd (api_handle E K io (rq_authorization q) r (rq_endpoint q) s) \<noteq> s"
    "rq_method q = endpoint_method (rq_endpoint q) \<or> endpoint_method (rq_endpoint q) = GET"
    using changed by auto
  from auth_mw_Pass [OF r(1) assms(1,2)] obtain t r' where
    t: "request_token q = Some t" "token_role (ae_jwt E) K t = Some r'" "authorized (rq_method q) r'" by blast
  have "r' = Admin \<or> endpoint_method (rq_endpoint q) = GET"
    using r(3) t(3) by (cases "rq_endpoint q") (auto simp: authorized_def is_safe_def)
  with r(2) safe_handlers_pure t(1,2) show ?thesis by blast
qed

text \<open>A demonstration: static tokens, and one command waiting for agent 1.\<close>

definition demo_api :: "(bool, bool) api_env" where
  "demo_api = \<lparr>ae_serde = demo_serde, ae_crypto = demo_crypto, ae_rfc = demo_rfc, ae_json = demo_json,
     ae_jwt = \<lparr>jw_kid = \<lambda>t. Some (Some ''k''), jw_key = Some,
       jw_decode = \<lambda>k i a t. if t = ''jwt'' then Some (JObj [(''sub'', JStr ''system:node'')]) else None\<rparr>,
     ae_uuid = \<lambda>i. ''u'', ae_settings_text = \<lambda>_. [], ae_settings_parse = \<lambda>_. None\<rparr>"

definition demo_http :: http_config where
  "demo_http = \<lparr>hc_admin_token = Some ''root'', hc_viewer_token = Some ''view'', hc_user_auth = None,
     hc_ingest_auth = Some \<lparr>ia_issuer = ''iss'', ia_audience = ''ravn'', ia_jwks = [(''k'', ''key'')]\<rparr>, hc_token_review = None,
     hc_ca = Some \<lparr>ca_cert_pem = ''ca'', ca_ttl_days = 30,
       ca_read_csr = \<lambda>_. Some \<lparr>ct_key = ''pk'', ct_common_name = ''evil'', ct_sans = [], ct_is_ca = True, ct_key_usages = [],
          ct_ext_usages = [], ct_not_before = 0, ct_not_after = 0\<rparr>,
       ca_dns_ok = \<lambda>_. True, ca_signed = \<lambda>p. Some (ct_common_name p)\<rparr>,
     hc_enroll_token = Some ''tok'', hc_oidc_public = None, hc_inference = False\<rparr>"

definition demo_api_io :: api_io where
  "demo_api_io = \<lparr>ai_inputs = demo_inputs 5, ai_ingest = demo_ingest, ai_db = True, ai_db_now = 0, ai_now = 0,
     ai_allowed = True, ai_write = True, ai_collation = length, ai_label_order = []\<rparr>"

definition demo_http_state :: "bool http_state" where
  "demo_http_state = \<lparr>hs_server = demo_server\<lparr>sv_app := (demo_app Auto)\<lparr>app_queue := enqueue demo_envelope queue_default\<rparr>\<rparr>,
     hs_settings = None\<rparr>"

definition demo_pull :: "http_method \<Rightarrow> string \<Rightarrow> uuid \<Rightarrow> request" where
  "demo_pull m t a = \<lparr>rq_method = m, rq_endpoint = EGetCommands a, rq_authorization = Some (''Bearer '' @ t), rq_query = None\<rparr>"

lemma request_token_bearer: "rq_authorization q = Some (''Bearer '' @ t) \<Longrightarrow> request_token q = Some t"
  by (simp add: request_token_def bearer_def strip_prefix_def)

lemma auth_mw_static:
  assumes "auth_enabled K" "\<not> is_public (endpoint_path U (rq_endpoint q))" "request_token q = Some t"
    and "role_for t (hc_admin_token K) (hc_viewer_token K) = Some r" "authorized (rq_method q) r"
  shows "auth_mw L U K q = Pass (Some r)"
  using assms by (simp add: auth_mw_def)

lemma commands_path_private: "\<not> is_public (endpoint_path U (EGetCommands a))"
  by (simp add: is_public_def)

section \<open>What a viewer can change\<close>

lemma take_for_empties: "queued_for (snd (take_for a q)) a = []"
  by (auto simp: take_for_def queued_for_def split: option.splits)

text \<open>
  A viewer can make an agent's commands disappear. A \<open>HEAD\<close> request for them runs the handler
  of the \<open>GET\<close> route, which empties the queue, and the answer carries no body: the commands are
  gone, and the agent they were signed for never receives them.
\<close>

theorem viewer_discards_commands:
  assumes "hc_viewer_token K = Some t" "hc_admin_token K \<noteq> Some t"
    and q: "q = \<lparr>rq_method = HEAD, rq_endpoint = EGetCommands a, rq_authorization = Some (''Bearer '' @ t), rq_query = x\<rparr>"
  shows "\<exists>s'. http_request E K io q s = ((200, NoBody), s') \<and> queued_for (app_queue (hs_app s')) a = []"
proof -
  have "auth_mw (ae_jwt E) (ae_uuid E) K q = Pass (Some Viewer)"
  proof (rule auth_mw_static)
    show "request_token q = Some t" by (rule request_token_bearer) (simp add: q)
    show "\<not> is_public (endpoint_path (ae_uuid E) (rq_endpoint q))"
      using commands_path_private [of "ae_uuid E" a] by (simp add: q del: endpoint_path.simps)
  qed (use assms(1,2) in \<open>simp_all add: auth_enabled_def role_for_def authorized_def is_safe_def q\<close>)
  then have "http_request E K io q s = ((200, NoBody), on_app (snd \<circ> get_commands a) s)"
    by (simp add: http_request_def q)
  moreover have "queued_for (app_queue (hs_app (on_app (snd \<circ> get_commands a) s))) a = []"
    by (simp add: on_app_def on_server_def get_commands_def take_for_empties split: prod.splits)
       (metis snd_conv take_for_empties)
  ultimately show ?thesis by blast
qed

theorem viewer_discards_commands_witness:
  "\<exists>s'. http_request demo_api demo_http demo_api_io (demo_pull HEAD ''view'' 1) demo_http_state = ((200, NoBody), s')
     \<and> queued_for (app_queue (hs_app s')) 1 = []"
  using viewer_discards_commands [of demo_http "''view''" "demo_pull HEAD ''view'' 1" 1 None demo_api demo_api_io demo_http_state]
  by (simp add: demo_http_def demo_pull_def)

theorem changes_need_admin_witness:
  "snd (http_request demo_api demo_http demo_api_io (demo_pull GET ''view'' (agent_uuid (env_agent_id demo_envelope))) demo_http_state) \<noteq> demo_http_state
   \<and> (\<exists>t r. request_token (demo_pull GET ''view'' (agent_uuid (env_agent_id demo_envelope))) = Some t \<and> token_role (ae_jwt demo_api) demo_http t = Some r
        \<and> (r = Admin \<or> (\<exists>a. rq_endpoint (demo_pull GET ''view'' (agent_uuid (env_agent_id demo_envelope))) = EGetCommands a)))"
proof -
  let ?q = "demo_pull GET ''view'' (agent_uuid (env_agent_id demo_envelope))"
  have enabled: "auth_enabled demo_http" by (simp add: auth_enabled_def demo_http_def)
  have priv: "\<not> is_public (endpoint_path (ae_uuid demo_api) (rq_endpoint ?q))"
    by (simp add: demo_pull_def commands_path_private del: endpoint_path.simps)
  have "auth_mw (ae_jwt demo_api) (ae_uuid demo_api) demo_http ?q = Pass (Some Viewer)"
  proof (rule auth_mw_static [OF enabled priv])
    show "request_token ?q = Some ''view''" by (rule request_token_bearer) (simp add: demo_pull_def)
  qed (simp_all add: demo_pull_def role_for_def authorized_def is_safe_def demo_http_def)
  then have "snd (http_request demo_api demo_http demo_api_io ?q demo_http_state) = on_app (snd \<circ> get_commands (agent_uuid (env_agent_id demo_envelope))) demo_http_state"
    by (simp add: http_request_def demo_pull_def)
  moreover have "queued_for (app_queue (hs_app demo_http_state)) (agent_uuid (env_agent_id demo_envelope)) \<noteq> []"
    by (simp add: demo_http_state_def enqueue_def queue_default_def queued_for_def)
  moreover have "queued_for (app_queue (hs_app (on_app (snd \<circ> get_commands (agent_uuid (env_agent_id demo_envelope))) demo_http_state))) (agent_uuid (env_agent_id demo_envelope)) = []"
    by (simp add: on_app_def on_server_def get_commands_def take_for_empties split: prod.splits) (metis snd_conv take_for_empties)
  ultimately have changed: "snd (http_request demo_api demo_http demo_api_io ?q demo_http_state) \<noteq> demo_http_state" by metis
  from changes_need_admin [OF enabled priv changed] changed show ?thesis by blast
qed

section \<open>Endpoints that check tokens themselves\<close>

lemma ingest_identity_Some:
  assumes "ingest_identity L K t = Some sub"
  shows "(\<exists>A. hc_ingest_auth K = Some A \<and> ingest_validate L A t = Inr sub)
    \<or> (\<exists>T. hc_token_review K = Some T \<and> review_validate T t = Inr sub)"
proof (cases "\<exists>A. hc_ingest_auth K = Some A \<and> (\<exists>x. ingest_validate L A t = Inr x)")
  case True
  with assms show ?thesis by (auto simp: ingest_identity_def)
next
  case False
  then have "Option.bind (hc_ingest_auth K) (\<lambda>a. case ingest_validate L a t of Inr sub \<Rightarrow> Some sub | Inl _ \<Rightarrow> None) = None"
    by (cases "hc_ingest_auth K") (auto split: sum.split)
  with assms have "Option.bind (hc_token_review K) (\<lambda>x. case review_validate x t of Inr sub \<Rightarrow> Some sub | Inl _ \<Rightarrow> None) = Some sub"
    by (simp add: ingest_identity_def)
  then obtain T where "hc_token_review K = Some T"
    "(case review_validate T t of Inr sub \<Rightarrow> Some sub | Inl _ \<Rightarrow> None) = Some sub" by (cases "hc_token_review K") auto
  then show ?thesis by (cases "review_validate T t") auto
qed

text \<open>
  C24: a message enters through the HTTP endpoint only with a bearer token that the configured keys or
  the cluster accept, and only within the rate limit; anything else leaves the state as it is.
\<close>

theorem ingest_needs_token:
  assumes "rq_endpoint q = EIngest m" "snd (http_request E K io q s) \<noteq> s"
  shows "\<exists>t sub. bearer (rq_authorization q) = Some t \<and> ai_allowed io
    \<and> ((\<exists>A. hc_ingest_auth K = Some A \<and> ingest_validate (ae_jwt E) A t = Inr sub)
        \<or> (\<exists>T. hc_token_review K = Some T \<and> review_validate T t = Inr sub))"
proof -
  from http_request_state [OF assms(2)] assms have "snd (api_ingest E K io (rq_authorization q) m s) \<noteq> s" by auto
  then obtain t sub where "bearer (rq_authorization q) = Some t" "ai_allowed io" "ingest_identity (ae_jwt E) K t = Some sub"
    by (auto simp: api_ingest_def split: if_splits option.splits)
  with ingest_identity_Some show ?thesis by blast
qed


text \<open>
  The bootstrap token is the fleet's, not an agent's: whoever holds it obtains a certificate for
  any agent id, also one that is enrolled already.
\<close>

theorem enrolment_any_identity:
  assumes "hc_ca K = Some A" "hc_enroll_token K = Some (er_bootstrap_token r)" "ai_db io"
    and "ca_read_csr A (er_csr_pem r) \<noteq> None" "\<And>n. ca_dns_ok A n" "\<And>p. ca_signed A p \<noteq> None"
  shows "\<exists>resp s'. api_enroll E K io (r\<lparr>er_agent_id := AgentId i\<rparr>) s = ((200, EnrollBody resp), s')
    \<and> es_agent_id resp = AgentId i \<and> known_agent (hs_fleet s') i"
proof -
  from assms(4) obtain csr where csr: "ca_read_csr A (er_csr_pem r) = Some csr" by blast
  then obtain pem na where sign: "ca_sign (ae_uuid E) A (ai_now io) (er_csr_pem r) i = Some (pem, na)"
    using assms(5,6) by (auto simp: ca_sign_def Let_def)
  have "known_agent (record_enrollment now i h t f) i" for now h t f
    unfolding record_enrollment_def by (subst known_upsert) (auto simp: new_agent_def)
  with sign assms(1-3) show ?thesis
    by (simp add: api_enroll_def constant_time_eq_iff on_fleet_def on_server_def)
qed

definition demo_enroll_request :: enroll_request where
  "demo_enroll_request = \<lparr>er_bootstrap_token = ''tok'', er_agent_id = AgentId 1, er_host = ''web'', er_csr_pem = ''csr''\<rparr>"

theorem enrolment_any_identity_witness:
  "\<exists>resp s'. api_enroll demo_api demo_http demo_api_io (demo_enroll_request\<lparr>er_agent_id := AgentId 9\<rparr>) demo_http_state
       = ((200, EnrollBody resp), s') \<and> es_agent_id resp = AgentId 9"
proof -
  obtain A where A: "hc_ca demo_http = Some A" "ca_read_csr A (er_csr_pem demo_enroll_request) \<noteq> None"
    "\<And>n. ca_dns_ok A n" "\<And>p. ca_signed A p \<noteq> None" by (simp add: demo_http_def)
  have "hc_enroll_token demo_http = Some (er_bootstrap_token demo_enroll_request)" "ai_db demo_api_io"
    by (simp_all add: demo_http_def demo_enroll_request_def demo_api_io_def)
  from enrolment_any_identity [OF A(1) this A(2-4), of demo_api 9 demo_http_state] show ?thesis by blast
qed


theorem ingest_needs_token_witness:
  "\<exists>t sub A. bearer (Some (''Bearer '' @ ''jwt'')) = Some t \<and> hc_ingest_auth demo_http = Some A
     \<and> ingest_validate (ae_jwt demo_api) A t = Inr sub"
proof -
  let ?q = "\<lparr>rq_method = POST, rq_endpoint = EIngest (demo_message 3), rq_authorization = Some (''Bearer '' @ ''jwt''), rq_query = None\<rparr>"
  have mw: "auth_mw (ae_jwt demo_api) (ae_uuid demo_api) demo_http ?q = Pass None"
    by (simp add: auth_mw_def auth_enabled_def demo_http_def is_public_def)
  have "ingest_identity (ae_jwt demo_api) demo_http ''jwt'' = Some ''system:node''"
    by (simp add: ingest_identity_def demo_http_def ingest_validate_def verify_token_def demo_api_def)
  then have "snd (http_request demo_api demo_http demo_api_io ?q demo_http_state) =
      on_server (persist_message demo_serde demo_crypto demo_rfc demo_json demo_ingest (demo_inputs 5) (demo_message 3)) demo_http_state"
    using mw by (simp add: http_request_def api_ingest_def bearer_def strip_prefix_def demo_api_io_def demo_http_def demo_api_def)
  moreover have "sv_feed (hs_server (on_server (persist_message demo_serde demo_crypto demo_rfc demo_json demo_ingest
      (demo_inputs 5) (demo_message 3)) demo_http_state)) \<noteq> sv_feed (hs_server demo_http_state)"
    by (simp add: on_server_def persist_message_parts demo_ingest_def)
  ultimately have "snd (http_request demo_api demo_http demo_api_io ?q demo_http_state) \<noteq> demo_http_state" by metis
  with ingest_needs_token [of ?q "demo_message 3" demo_api demo_http demo_api_io demo_http_state]
  show ?thesis by (auto simp: demo_http_def)
qed

end
