(* ===== verification/Kube_Watch.thy ===== *)
theory Kube_Watch
  imports Detection_Props
begin

text \<open>
  The Kubernetes watchers of \<^verbatim>\<open>crates/ravn-k8s/src\<close>: cluster events (\<^verbatim>\<open>mapping.rs\<close>,
  \<^verbatim>\<open>watcher.rs\<close>), node conditions (\<^verbatim>\<open>node.rs\<close>), pod logs (\<^verbatim>\<open>logs.rs\<close>) and the
  configuration and publishing they share. Objects carry the fields the code reads; the clock, fresh
  ids and the client answer by inputs. The LRU cache is a library: its operations are parameters, and
  \<open>lru_ok\<close> states its documented behaviour.
\<close>

section \<open>Cluster events\<close>

record kube_event =
  ke_uid :: "string option"
  ke_reason :: "string option"
  ke_type :: "string option"
  ke_namespace :: "string option"
  ke_kind :: "string option"
  ke_name :: "string option"
  ke_field_path :: "string option"
  ke_count :: "int option"
  ke_message :: "string option"
  ke_last_timestamp :: "datetime option"
  ke_first_timestamp :: "datetime option"

definition or_default :: "string option \<Rightarrow> string" where
  "or_default x = (case x of Some s \<Rightarrow> s | None \<Rightarrow> [])"

definition container_from_field_path :: "string \<Rightarrow> string option" where
  "container_from_field_path p =
     (case split_once ''{'' p of
        None \<Rightarrow> None
      | Some (_, rest) \<Rightarrow>
          (case str_find ''}'' rest of
             None \<Rightarrow> None
           | Some i \<Rightarrow> if take i rest \<noteq> [] then Some (take i rest) else None))"

text \<open>\<open>count\<close> is an \<open>i32\<close>; \<open>max(0) as u32\<close> keeps its value.\<close>

definition event_to_message :: "event_env \<Rightarrow> kube_event \<Rightarrow> agent_id \<Rightarrow> string \<Rightarrow> message option" where
  "event_to_message E ev agent host =
     (case ke_reason ev of
        None \<Rightarrow> None
      | Some reason \<Rightarrow>
          let severity = kube_severity_for_reason reason
          in if ke_type ev \<noteq> Some ''Warning'' \<and> severity < Error then None
             else
               let namespace = or_default (ke_namespace ev); kind = or_default (ke_kind ev); name = or_default (ke_name ev)
               in Some (message_new
                    \<lparr>ev_id = ee_id E,
                     ev_occurred_at = (case ke_last_timestamp ev of
                         Some t \<Rightarrow> t
                       | None \<Rightarrow> (case ke_first_timestamp ev of Some t \<Rightarrow> t | None \<Rightarrow> ee_fallback E)),
                     ev_observed_at = ee_now E, ev_agent_id = agent, ev_host = host, ev_severity = severity,
                     ev_title = (if kind = [] then reason @ '' in '' @ namespace
                                 else reason @ '': '' @ kind @ '' '' @ namespace @ ''/'' @ name),
                     ev_category_hints = [namespace, ''kubernetes''],
                     ev_payload = KubeWorkload
                       \<lparr>kw_namespace = namespace, kw_object_kind = kind, kw_name = name, kw_reason = reason,
                        kw_message = ke_message ev, kw_count = map_option (\<lambda>c. word_of_int (max c 0)) (ke_count ev),
                        kw_container = Option.bind (ke_field_path ev) container_from_field_path, kw_extra = []\<rparr>\<rparr>))"

type_synonym seen_counts = "string \<rightharpoonup> int"

definition event_count :: "kube_event \<Rightarrow> int" where
  "event_count ev = (case ke_count ev of Some c \<Rightarrow> c | None \<Rightarrow> 0)"

definition remember :: "kube_event \<Rightarrow> seen_counts \<Rightarrow> seen_counts" where
  "remember ev seen = (case ke_uid ev of Some k \<Rightarrow> seen(k \<mapsto> event_count ev) | None \<Rightarrow> seen)"

definition is_new_or_changed :: "kube_event \<Rightarrow> seen_counts \<Rightarrow> bool \<times> seen_counts" where
  "is_new_or_changed ev seen =
     (case ke_uid ev of
        None \<Rightarrow> (True, seen)
      | Some k \<Rightarrow>
          ((case seen k of Some prev \<Rightarrow> prev \<noteq> event_count ev | None \<Rightarrow> True), seen(k \<mapsto> event_count ev)))"

datatype 'o kube_watch_event = InitApply 'o | Apply 'o | Delete 'o | OtherEvent

text \<open>One step of the watch: the message to publish, if any. Whether publishing works changes nothing.\<close>

fun event_watch ::
    "event_env \<Rightarrow> agent_id \<Rightarrow> string \<Rightarrow> kube_event kube_watch_event \<Rightarrow> seen_counts \<Rightarrow> message option \<times> seen_counts" where
  "event_watch E agent host (InitApply ev) seen = (None, remember ev seen)"
| "event_watch E agent host (Apply ev) seen =
     (case is_new_or_changed ev seen of
        (False, seen') \<Rightarrow> (None, seen')
      | (True, seen') \<Rightarrow> (event_to_message E ev agent host, seen'))"
| "event_watch E agent host _ seen = (None, seen)"

section \<open>Node conditions\<close>

record node_condition =
  nc_type :: string
  nc_status :: string
  nc_message :: "string option"
  nc_last_transition :: "datetime option"

record kube_node =
  nd_name :: "string option"
  nd_conditions :: "node_condition list option"

definition pressure_conditions :: "string list" where
  "pressure_conditions = [''MemoryPressure'', ''DiskPressure'', ''PIDPressure'']"

definition active_condition :: "node_condition \<Rightarrow> string option" where
  "active_condition c =
     (if nc_type c = ''Ready'' then if nc_status c \<noteq> ''True'' then Some ''NodeNotReady'' else None
      else if nc_type c \<in> set pressure_conditions then if nc_status c = ''True'' then Some (nc_type c) else None
      else None)"

definition node_name_of :: "kube_node \<Rightarrow> string \<Rightarrow> string" where
  "node_name_of node host = (case nd_name node of Some n \<Rightarrow> n | None \<Rightarrow> host)"

definition node_message :: "event_env \<Rightarrow> agent_id \<Rightarrow> string \<Rightarrow> string \<Rightarrow> node_condition \<Rightarrow> string \<Rightarrow> message" where
  "node_message E agent host node_name c condition =
     message_new
       \<lparr>ev_id = ee_id E, ev_occurred_at = (case nc_last_transition c of Some t \<Rightarrow> t | None \<Rightarrow> ee_fallback E),
        ev_observed_at = ee_now E, ev_agent_id = agent, ev_host = host, ev_severity = kube_severity_for_reason condition,
        ev_title = condition @ '' on node '' @ node_name, ev_category_hints = [node_name, ''kubernetes'', ''node''],
        ev_payload = KubeNode \<lparr>kn_node = node_name, kn_condition = condition, kn_message = nc_message c, kn_extra = []\<rparr>\<rparr>"

text \<open>The environment of each message may differ; it is indexed by the condition's position.\<close>

fun condition_messages :: "(nat \<Rightarrow> event_env) \<Rightarrow> agent_id \<Rightarrow> string \<Rightarrow> string \<Rightarrow> nat \<Rightarrow> node_condition list \<Rightarrow> message list" where
  "condition_messages E agent host node_name k [] = []"
| "condition_messages E agent host node_name k (c # cs) =
     (case active_condition c of
        None \<Rightarrow> condition_messages E agent host node_name (Suc k) cs
      | Some condition \<Rightarrow>
          node_message (E k) agent host node_name c condition # condition_messages E agent host node_name (Suc k) cs)"

definition node_to_messages :: "(nat \<Rightarrow> event_env) \<Rightarrow> kube_node \<Rightarrow> agent_id \<Rightarrow> string \<Rightarrow> message list" where
  "node_to_messages E node agent host =
     (case nd_conditions node of None \<Rightarrow> [] | Some cs \<Rightarrow> condition_messages E agent host (node_name_of node host) 0 cs)"

definition condition_of :: "message \<Rightarrow> string" where
  "condition_of m = (case ev_payload (msg_event m) of KubeNode p \<Rightarrow> kn_condition p | _ \<Rightarrow> [])"

definition condition_key :: "string \<Rightarrow> string \<Rightarrow> string" where
  "condition_key node condition = node @ ''/'' @ condition"

fun arm_conditions :: "string \<Rightarrow> bool \<Rightarrow> message list \<Rightarrow> string set \<Rightarrow> message list \<times> string set" where
  "arm_conditions node emit [] active = ([], active)"
| "arm_conditions node emit (m # ms) active =
     (let k = condition_key node (condition_of m);
          (fresh, active') = arm_conditions node emit ms (insert k active)
      in (if k \<notin> active \<and> emit then m # fresh else fresh, active'))"

definition reconcile ::
    "(nat \<Rightarrow> event_env) \<Rightarrow> kube_node \<Rightarrow> agent_id \<Rightarrow> string \<Rightarrow> bool \<Rightarrow> string set \<Rightarrow> message list \<times> string set" where
  "reconcile E node agent host emit active =
     (let name = node_name_of node host;
          messages = node_to_messages E node agent host;
          current = (condition_key name \<circ> condition_of) ` set messages
      in arm_conditions name emit messages {k \<in> active. \<not> prefix (name @ ''/'') k \<or> k \<in> current})"

fun node_watch ::
    "(nat \<Rightarrow> event_env) \<Rightarrow> agent_id \<Rightarrow> string \<Rightarrow> kube_node kube_watch_event \<Rightarrow> string set \<Rightarrow> message list \<times> string set" where
  "node_watch E agent host (InitApply node) active = ([], snd (reconcile E node agent host False active))"
| "node_watch E agent host (Apply node) active = reconcile E node agent host True active"
| "node_watch E agent host _ active = ([], active)"

section \<open>Pod logs\<close>

record log_config =
  lg_per_pod_cap :: nat
  lg_ttl :: nat
  lg_namespace :: "string option"
  lg_min_severity :: severity

definition log_config_default :: log_config where
  "log_config_default = \<lparr>lg_per_pod_cap = 1024, lg_ttl = 600 * 10 ^ 9, lg_namespace = None, lg_min_severity = Warning\<rparr>"

text \<open>
  The cache of the \<open>lru\<close> crate: a new one of a capacity, looking up a key (which makes it the most
  recent), storing, and the number of entries. \<open>lo_view\<close> is its contents, most recent first.
\<close>

record 'c lru_ops =
  lo_new :: "nat \<Rightarrow> 'c"
  lo_get :: "u64 \<Rightarrow> 'c \<Rightarrow> nat option \<times> 'c"
  lo_put :: "u64 \<Rightarrow> nat \<Rightarrow> 'c \<Rightarrow> 'c"
  lo_len :: "'c \<Rightarrow> nat"
  lo_view :: "'c \<Rightarrow> (u64 \<times> nat) list"
  lo_cap :: "'c \<Rightarrow> nat"

definition front :: "u64 \<Rightarrow> nat \<Rightarrow> (u64 \<times> nat) list \<Rightarrow> (u64 \<times> nat) list" where
  "front k v xs = (k, v) # filter (\<lambda>x. fst x \<noteq> k) xs"

definition lru_ok :: "'c lru_ops \<Rightarrow> bool" where
  "lru_ok R \<longleftrightarrow>
     (\<forall>n. lo_view R (lo_new R n) = [] \<and> lo_cap R (lo_new R n) = n)
     \<and> (\<forall>k c. fst (lo_get R k c) = map_of (lo_view R c) k \<and> lo_cap R (snd (lo_get R k c)) = lo_cap R c
          \<and> lo_view R (snd (lo_get R k c)) = (case map_of (lo_view R c) k of None \<Rightarrow> lo_view R c | Some v \<Rightarrow> front k v (lo_view R c)))
     \<and> (\<forall>k v c. lo_view R (lo_put R k v c) = take (lo_cap R c) (front k v (lo_view R c)) \<and> lo_cap R (lo_put R k v c) = lo_cap R c)
     \<and> (\<forall>c. lo_len R c = length (lo_view R c))"

record 'c log_deduper =
  ld_per_pod_cap :: nat
  ld_ttl :: nat
  ld_pods :: "(string, 'c) btree"

text \<open>\<open>new\<close> panics for a capacity of zero.\<close>

definition deduper_new :: "nat \<Rightarrow> nat \<Rightarrow> panic + 'c log_deduper" where
  "deduper_new cap ttl = (if cap = 0 then Inl Panic else Inr \<lparr>ld_per_pod_cap = cap, ld_ttl = ttl, ld_pods = []\<rparr>)"

text \<open>
  \<open>is_new\<close>, for the hash of the line and the current instant. The hash map of pods is a B-tree here;
  its order is not observable.
\<close>

definition cache_is_new :: "'c lru_ops \<Rightarrow> nat \<Rightarrow> nat \<Rightarrow> u64 \<Rightarrow> 'c \<Rightarrow> bool \<times> 'c" where
  "cache_is_new R ttl now h c =
     (case lo_get R h c of
        (Some seen_at, c') \<Rightarrow> if now - seen_at < ttl then (False, c') else (True, lo_put R h now c')
      | (None, c') \<Rightarrow> (True, lo_put R h now c'))"

definition is_new :: "'c lru_ops \<Rightarrow> nat \<Rightarrow> string \<Rightarrow> u64 \<Rightarrow> 'c log_deduper \<Rightarrow> bool \<times> 'c log_deduper" where
  "is_new R now pod h d =
     (let c = (case btree_get (ld_pods d) pod of Some c \<Rightarrow> c | None \<Rightarrow> lo_new R (ld_per_pod_cap d));
          (new, c') = cache_is_new R (ld_ttl d) now h c
      in (new, d\<lparr>ld_pods := btree_insert pod c' (ld_pods d)\<rparr>))"

definition remove_pod :: "string \<Rightarrow> 'c log_deduper \<Rightarrow> 'c log_deduper" where
  "remove_pod pod d = d\<lparr>ld_pods := filter (\<lambda>x. fst x \<noteq> pod) (ld_pods d)\<rparr>"

definition total_entries :: "'c lru_ops \<Rightarrow> 'c log_deduper \<Rightarrow> nat" where
  "total_entries R d = sum_list (map (lo_len R \<circ> snd) (ld_pods d))"

definition pod_count :: "'c log_deduper \<Rightarrow> nat" where
  "pod_count d = length (ld_pods d)"

definition classify_line :: "string \<Rightarrow> severity" where
  "classify_line line =
     (let l = map to_ascii_lowercase line
      in if contains l ''panic'' \<or> contains l ''fatal'' \<or> contains l ''oom'' then Critical
         else if contains l ''error'' \<or> contains l ''exception'' \<or> contains l ''crash'' then Error
         else if contains l ''warn'' then Warning
         else Info)"

definition line_to_message :: "event_env \<Rightarrow> string \<Rightarrow> string \<Rightarrow> string \<Rightarrow> agent_id \<Rightarrow> string \<Rightarrow> message" where
  "line_to_message E line namespace pod agent host =
     (let severity = classify_line line;
          reason = (if Critical \<le> severity then ''LogFatal'' else if Error \<le> severity then ''LogError'' else ''LogWarning'')
      in message_new
           \<lparr>ev_id = ee_id E, ev_occurred_at = ee_now E, ev_observed_at = ee_now E, ev_agent_id = agent, ev_host = host,
            ev_severity = severity, ev_title = reason @ '': Pod '' @ namespace @ ''/'' @ pod,
            ev_category_hints = [namespace, ''kubernetes'', ''logs''],
            ev_payload = KubeWorkload
              \<lparr>kw_namespace = namespace, kw_object_kind = ''Pod'', kw_name = pod, kw_reason = reason,
               kw_message = Some (concat (take 512 (chars line))), kw_count = None, kw_container = None, kw_extra = []\<rparr>\<rparr>)"

record kube_pod =
  kp_namespace :: "string option"
  kp_name :: "string option"

text \<open>
  The lines of one fetch, each with the instant it is looked at; \<open>hash\<close> is the standard library's
  hasher.
\<close>

fun scan_lines ::
    "'c lru_ops \<Rightarrow> (string \<Rightarrow> u64) \<Rightarrow> log_config \<Rightarrow> agent_id \<Rightarrow> string \<Rightarrow> string \<Rightarrow> string \<Rightarrow> (string \<times> nat \<times> event_env) list
      \<Rightarrow> 'c log_deduper \<Rightarrow> message list \<times> 'c log_deduper" where
  "scan_lines R hash K agent host ns name [] d = ([], d)"
| "scan_lines R hash K agent host ns name ((line, now, E) # ls) d =
     (if classify_line line < lg_min_severity K then scan_lines R hash K agent host ns name ls d
      else case is_new R now (ns @ ''/'' @ name) (hash line) d of
             (False, d') \<Rightarrow> scan_lines R hash K agent host ns name ls d'
           | (True, d') \<Rightarrow>
               (case scan_lines R hash K agent host ns name ls d' of
                  (ms, d'') \<Rightarrow> (line_to_message E line ns name agent host # ms, d'')))"

definition pod_namespace :: "kube_pod \<Rightarrow> string" where
  "pod_namespace pod = (case kp_namespace pod of Some n \<Rightarrow> n | None \<Rightarrow> ''default'')"

text \<open>One event of the pod watch; \<open>logs\<close> is the fetched tail with the clock per line, if it could be read.\<close>

fun log_watch ::
    "'c lru_ops \<Rightarrow> (string \<Rightarrow> u64) \<Rightarrow> log_config \<Rightarrow> agent_id \<Rightarrow> string \<Rightarrow> (string \<times> nat \<times> event_env) list option
      \<Rightarrow> kube_pod kube_watch_event \<Rightarrow> 'c log_deduper \<Rightarrow> message list \<times> 'c log_deduper" where
  "log_watch R hash K agent host logs (Apply pod) d =
     (case (kp_name pod, logs) of
        (Some name, Some ls) \<Rightarrow> scan_lines R hash K agent host (pod_namespace pod) name ls d
      | _ \<Rightarrow> ([], d))"
| "log_watch R hash K agent host logs (Delete pod) d =
     ([], case kp_name pod of Some name \<Rightarrow> remove_pod (pod_namespace pod @ ''/'' @ name) d | None \<Rightarrow> d)"
| "log_watch R hash K agent host logs _ d = ([], d)"

section \<open>Configuration and publishing\<close>

record kube_config =
  kc_nats_url :: string
  kc_agent_id :: agent_id
  kc_host :: string
  kc_namespace :: "string option"
  kc_node_name :: "string option"
  kc_ingest_url :: "string option"
  kc_sa_token_file :: string

definition kube_env :: "(string \<Rightarrow> string option) \<Rightarrow> string \<Rightarrow> string option" where
  "kube_env vars k = (case vars k of Some v \<Rightarrow> if v \<noteq> [] then Some v else None | None \<Rightarrow> None)"

definition kube_config_from_env ::
    "(string \<Rightarrow> string option) \<Rightarrow> (string \<Rightarrow> uuid option) \<Rightarrow> uuid \<Rightarrow> kube_config option" where
  "kube_config_from_env vars parse fresh =
     (case (case kube_env vars ''RAVN_CONTROLLER_ID'' of Some s \<Rightarrow> parse s | None \<Rightarrow> Some fresh) of
        None \<Rightarrow> None
      | Some i \<Rightarrow>
          Some \<lparr>kc_nats_url = (case vars ''NATS_URL'' of Some u \<Rightarrow> u | None \<Rightarrow> ''nats://127.0.0.1:4222''),
                kc_agent_id = AgentId i,
                kc_host = (case kube_env vars ''RAVN_CLUSTER'' of
                    Some h \<Rightarrow> h
                  | None \<Rightarrow> (case kube_env vars ''HOSTNAME'' of Some h \<Rightarrow> h | None \<Rightarrow> ''kubernetes'')),
                kc_namespace = kube_env vars ''RAVN_K8S_NAMESPACE'', kc_node_name = kube_env vars ''NODE_NAME'',
                kc_ingest_url = kube_env vars ''RAVN_INGEST_URL'',
                kc_sa_token_file = (case kube_env vars ''RAVN_SA_TOKEN_FILE'' of Some f \<Rightarrow> f | None \<Rightarrow> ''/var/run/secrets/ravn/token'')\<rparr>)"

datatype publish_dest = ToNats string | ToIngest string string

text \<open>Where a message goes: the ingest endpoint with the trimmed token, or the agent's subject.\<close>

definition publish_target ::
    "(uuid \<Rightarrow> string) \<Rightarrow> (string \<Rightarrow> string option) \<Rightarrow> kube_config \<Rightarrow> publish_dest option" where
  "publish_target U read K =
     (case kc_ingest_url K of
        Some url \<Rightarrow> map_option (\<lambda>t. ToIngest url (trim t)) (read (kc_sa_token_file K))
      | None \<Rightarrow> Some (ToNats (''ravn.messages.'' @ U (agent_uuid (kc_agent_id K)))))"

end
