(* ===== verification/Kube_Watch_Props.thy ===== *)
theory Kube_Watch_Props
  imports Kube_Watch
begin

text \<open>
  What the Kubernetes watchers report: a cluster event when its count changed, a node condition when
  it becomes active, a log line unless it was reported within its window; and how much the
  deduplicator of log lines remembers.
\<close>

section \<open>Cluster events\<close>

fun watched :: "'o kube_watch_event \<Rightarrow> 'o option" where
  "watched (InitApply x) = Some x"
| "watched (Apply x) = Some x"
| "watched _ = None"

text \<open>The count that the history last showed for an event.\<close>

definition last_count :: "kube_event kube_watch_event list \<Rightarrow> string \<Rightarrow> int option" where
  "last_count h k =
     (case filter (\<lambda>ev. ke_uid ev = Some k) (List.map_filter watched h) of
        [] \<Rightarrow> None | evs \<Rightarrow> Some (event_count (last evs)))"

definition seen_after :: "(event_env \<times> kube_event kube_watch_event) list \<Rightarrow> agent_id \<Rightarrow> string \<Rightarrow> seen_counts" where
  "seen_after h agent host = fold (\<lambda>(E, w) seen. snd (event_watch E agent host w seen)) h Map.empty"

lemma event_watch_seen:
  "snd (event_watch E agent host w seen) =
     (case watched w of Some ev \<Rightarrow> remember ev seen | None \<Rightarrow> seen)"
  by (cases w) (auto simp: remember_def is_new_or_changed_def split: option.splits bool.splits prod.splits)

lemma seen_after_last: "seen_after h agent host k = last_count (map snd h) k"
proof (induction h rule: rev_induct)
  case Nil
  then show ?case by (simp add: seen_after_def last_count_def List.map_filter_def)
next
  case (snoc x h)
  obtain E w where x: "x = (E, w)" by (cases x)
  have step: "seen_after (h @ [x]) agent host =
      (case watched w of Some ev \<Rightarrow> remember ev (seen_after h agent host) | None \<Rightarrow> seen_after h agent host)"
    unfolding x seen_after_def by (simp, rule event_watch_seen)
  show ?case
    using snoc
    by (cases "watched w")
      (auto simp: step [unfolded x] x last_count_def remember_def List.map_filter_def split: option.splits list.splits)
qed

text \<open>
  An event of the cluster is published exactly when it is worth surfacing and its count differs
  from the one last seen for it, whether that came from the initial list or from the watch.
\<close>

theorem kube_event_published:
  assumes "ke_uid ev = Some k"
  shows "fst (event_watch E agent host (Apply ev) (seen_after h agent host)) =
    (if last_count (map snd h) k = Some (event_count ev)
        \<or> ke_reason ev = None
        \<or> (ke_type ev \<noteq> Some ''Warning'' \<and> kube_severity_for_reason (the (ke_reason ev)) < Error)
     then None else event_to_message E ev agent host)"
proof -
  have "event_to_message E ev agent host = None" if "ke_reason ev = None
        \<or> (ke_type ev \<noteq> Some ''Warning'' \<and> kube_severity_for_reason (the (ke_reason ev)) < Error)"
    using that by (cases "ke_reason ev") (simp_all add: event_to_message_def Let_def)
  then show ?thesis
    using assms by (auto simp: is_new_or_changed_def seen_after_last split: option.splits bool.splits)
qed

section \<open>Node conditions\<close>

lemma arm_conditions_exact:
  "arm_conditions node emit ms active = (fresh, active') \<Longrightarrow>
     active' = active \<union> (condition_key node \<circ> condition_of) ` set ms
     \<and> (condition_key node \<circ> condition_of) ` set fresh = (if emit then (condition_key node \<circ> condition_of) ` set ms - active else {})
     \<and> distinct (map (condition_key node \<circ> condition_of) fresh)"
proof (induction ms arbitrary: active fresh active')
  case (Cons m ms)
  let ?key = "condition_key node \<circ> condition_of"
  obtain f a where fa: "arm_conditions node emit ms (insert (?key m) active) = (f, a)" by fastforce
  from Cons.prems fa have new: "active' = a" "fresh = (if ?key m \<notin> active \<and> emit then m # f else f)"
    by (auto simp: Let_def)
  have "a = insert (?key m) active \<union> ?key ` set ms
      \<and> ?key ` set f = (if emit then ?key ` set ms - insert (?key m) active else {}) \<and> distinct (map ?key f)"
    by (rule Cons.IH) (use fa in simp)
  then show ?case
    unfolding new by (simp only: list.set image_insert list.map distinct.simps set_map split: if_split) blast
qed simp

text \<open>
  A node's condition is reported on the edge: when an update shows it active and the last update
  of that node did not, once. Afterwards the conditions remembered for the node are the active ones,
  and those of other nodes are as before.
\<close>

theorem node_condition_edges:
  assumes rec: "reconcile E node agent host True active = (fresh, active')"
    and name: "name = node_name_of node host"
    and cur: "current = (condition_key name \<circ> condition_of) ` set (node_to_messages E node agent host)"
  shows "(condition_key name \<circ> condition_of) ` set fresh = current - active
    \<and> distinct (map (condition_key name \<circ> condition_of) fresh)
    \<and> {k \<in> active'. prefix (name @ ''/'') k} = current
    \<and> {k \<in> active'. \<not> prefix (name @ ''/'') k} = {k \<in> active. \<not> prefix (name @ ''/'') k}"
proof -
  have pre: "prefix (name @ ''/'') k" if "k \<in> current" for k
    using that by (auto simp: cur condition_key_def prefix_def)
  from arm_conditions_exact [OF rec [unfolded reconcile_def Let_def]]
  have a: "active' = {k \<in> active. \<not> prefix (name @ ''/'') k \<or> k \<in> current} \<union> current"
    "(condition_key name \<circ> condition_of) ` set fresh = current - {k \<in> active. \<not> prefix (name @ ''/'') k \<or> k \<in> current}"
    "distinct (map (condition_key name \<circ> condition_of) fresh)"
    by (simp_all add: name cur)
  then show ?thesis using pre by auto
qed

section \<open>Log lines\<close>

lemma map_of_front: "map_of (front k v xs) = (map_of xs)(k \<mapsto> v)"
proof
  fix x
  show "map_of (front k v xs) x = ((map_of xs)(k \<mapsto> v)) x"
    by (cases "x = k") (simp_all add: front_def map_of_filter_in dom_def, induction xs, auto)
qed

lemma fst_front: "fst ` set (front k v xs) = insert k (fst ` set xs)"
  by (auto simp: front_def)

lemma distinct_front: "distinct (map fst xs) \<Longrightarrow> distinct (map fst (front k v xs))"
  by (auto simp: front_def distinct_map_filter)

text \<open>The reference: every line reported within its window is suppressed, with unbounded memory.\<close>

fun dedup_ref :: "nat \<Rightarrow> (string \<times> nat \<times> u64) list \<Rightarrow> (string \<times> u64 \<rightharpoonup> nat) \<Rightarrow> bool list" where
  "dedup_ref ttl [] m = []"
| "dedup_ref ttl ((pod, now, h) # xs) m =
     (if (case m (pod, h) of Some t \<Rightarrow> now - t < ttl | None \<Rightarrow> False)
      then False # dedup_ref ttl xs m
      else True # dedup_ref ttl xs (m((pod, h) \<mapsto> now)))"

fun dedup_run :: "'c lru_ops \<Rightarrow> (string \<times> nat \<times> u64) list \<Rightarrow> 'c log_deduper \<Rightarrow> bool list" where
  "dedup_run R [] d = []"
| "dedup_run R ((pod, now, h) # xs) d = (case is_new R now pod h d of (b, d') \<Rightarrow> b # dedup_run R xs d')"

definition pod_cache :: "'c lru_ops \<Rightarrow> 'c log_deduper \<Rightarrow> string \<Rightarrow> 'c" where
  "pod_cache R d pod = (case btree_get (ld_pods d) pod of Some c \<Rightarrow> c | None \<Rightarrow> lo_new R (ld_per_pod_cap d))"

definition hashes_of :: "string \<Rightarrow> (string \<times> nat \<times> u64) list \<Rightarrow> u64 set" where
  "hashes_of pod xs = (\<lambda>(_, _, h). h) ` {x \<in> set xs. fst x = pod}"

definition cache_ok :: "'c lru_ops \<Rightarrow> nat \<Rightarrow> u64 set \<Rightarrow> 'c \<Rightarrow> bool" where
  "cache_ok R cap H c \<longleftrightarrow> distinct (map fst (lo_view R c)) \<and> fst ` set (lo_view R c) \<subseteq> H \<and> lo_cap R c = cap"

lemma take_front:
  assumes "cache_ok R cap H c" "h \<in> H" "finite H" "card H \<le> cap"
  shows "take cap (front h v (lo_view R c)) = front h v (lo_view R c)"
proof -
  let ?xs = "front h v (lo_view R c)"
  have "length ?xs = card (fst ` set ?xs)"
    using distinct_front assms(1) unfolding cache_ok_def by (metis distinct_card length_map set_map)
  also have "\<dots> \<le> card H" using assms by (intro card_mono) (auto simp: fst_front cache_ok_def)
  finally show ?thesis using assms(4) by simp
qed

lemma cache_is_new_exact:
  assumes R: "lru_ok R" and c: "cache_ok R cap H c" and H: "h \<in> H" "finite H" "card H \<le> cap"
    and new: "cache_is_new R ttl now h c = (b, c')"
  shows "b = (case map_of (lo_view R c) h of Some t \<Rightarrow> \<not> now - t < ttl | None \<Rightarrow> True)
    \<and> cache_ok R cap H c'
    \<and> map_of (lo_view R c') = (if b then (map_of (lo_view R c))(h \<mapsto> now) else map_of (lo_view R c))"
proof -
  obtain r c1 where get: "lo_get R h c = (r, c1)" by fastforce
  with R have r: "r = map_of (lo_view R c) h" and c1: "lo_cap R c1 = lo_cap R c"
    "lo_view R c1 = (case r of None \<Rightarrow> lo_view R c | Some v \<Rightarrow> front h v (lo_view R c))"
    unfolding lru_ok_def by (metis fst_conv, metis snd_conv, metis fst_conv snd_conv)
  have ok1: "cache_ok R cap H c1"
    using c H(1) c1 distinct_front by (auto simp: cache_ok_def fst_front split: option.splits)
  have same: "map_of (lo_view R c1) = map_of (lo_view R c)"
    using c1(2) r by (auto simp: map_of_front split: option.splits)
  have put: "lo_view R (lo_put R h now c1) = front h now (lo_view R c1)" "lo_cap R (lo_put R h now c1) = cap"
    using R take_front [OF ok1 H] ok1 unfolding lru_ok_def cache_ok_def by metis+
  then have ok2: "cache_ok R cap H (lo_put R h now c1)"
    using ok1 H(1) distinct_front by (auto simp: cache_ok_def fst_front)
  show ?thesis
    using new get r ok1 ok2 same put(1)
    by (auto simp: cache_is_new_def map_of_front split: option.splits if_splits)
qed

text \<open>
  C31: as long as no pod shows more distinct lines than its cache holds, the bounded deduplicator
  decides exactly like the unbounded reference: a line is reported unless it was reported for that
  pod within the window, and looking at it does not extend the window.
\<close>

theorem dedup_matches_reference:
  assumes R: "lru_ok R" and cap: "\<And>pod. card (hashes_of pod xs) \<le> cap" and d: "deduper_new cap ttl = Inr d"
  shows "dedup_run R xs d = dedup_ref ttl xs Map.empty"
proof -
  have main: "dedup_run R ys d = dedup_ref ttl ys m"
    if "set ys \<subseteq> set xs" "ld_per_pod_cap d = cap" "ld_ttl d = ttl" "btree_ok (ld_pods d)"
      "\<And>pod. cache_ok R cap (hashes_of pod xs) (pod_cache R d pod)"
      "\<And>pod h. m (pod, h) = map_of (lo_view R (pod_cache R d pod)) h" for ys d m
    using that
  proof (induction ys arbitrary: d m)
    case (Cons y ys)
    obtain pod now h where y: "y = (pod, now, h)" by (cases y)
    have H: "h \<in> hashes_of pod xs" "finite (hashes_of pod xs)"
      using Cons.prems(1) y by (force simp: hashes_of_def, simp add: hashes_of_def)
    obtain b c' where new: "cache_is_new R ttl now h (pod_cache R d pod) = (b, c')" by fastforce
    note e = cache_is_new_exact [OF R Cons.prems(5) H cap new]
    let ?d = "d\<lparr>ld_pods := btree_insert pod c' (ld_pods d)\<rparr>"
    have is_new: "is_new R now pod h d = (b, ?d)"
      using new Cons.prems(3) by (simp add: is_new_def pod_cache_def Let_def)
    have cache: "pod_cache R ?d p = (if p = pod then c' else pod_cache R d p)" for p
      using Cons.prems(4) by (simp add: pod_cache_def btree_get_insert split: option.split)
    let ?m = "if b then m((pod, h) \<mapsto> now) else m"
    have "dedup_run R ys ?d = dedup_ref ttl ys ?m"
      by (rule Cons.IH) (use Cons.prems e in \<open>auto simp: cache btree_ok_insert\<close>)
    moreover have "b = (\<not> (case m (pod, h) of Some t \<Rightarrow> now - t < ttl | None \<Rightarrow> False))"
      using e Cons.prems(6) by (auto split: option.splits)
    ultimately show ?case by (auto simp: y is_new)
  qed simp
  have "ld_per_pod_cap d = cap" "ld_ttl d = ttl" "ld_pods d = []"
    using d by (auto simp: deduper_new_def split: if_splits)
  with R show ?thesis
    by (intro main) (auto simp: pod_cache_def cache_ok_def lru_ok_def)
qed

section \<open>Memory of the deduplicator\<close>

definition dedup_wf :: "'c lru_ops \<Rightarrow> nat \<Rightarrow> 'c log_deduper \<Rightarrow> bool" where
  "dedup_wf R cap d \<longleftrightarrow> ld_per_pod_cap d = cap \<and> btree_ok (ld_pods d)
     \<and> (\<forall>c \<in> snd ` set (ld_pods d). lo_cap R c = cap \<and> length (lo_view R c) \<le> cap)"

inductive dedup_step :: "'c lru_ops \<Rightarrow> (string \<Rightarrow> u64) \<Rightarrow> log_config \<Rightarrow> 'c log_deduper \<Rightarrow> 'c log_deduper \<Rightarrow> bool"
  for R hash K where
  watched: "dedup_step R hash K d (snd (log_watch R hash K agent host logs w d))"

lemma front_length: "k \<in> fst ` set xs \<Longrightarrow> length (front k v xs) \<le> length xs"
proof (induction xs)
  case (Cons x xs)
  then show ?case using length_filter_le [of "\<lambda>x. fst x \<noteq> k" xs] by (cases "fst x = k") (auto simp: front_def)
qed simp

lemma cache_is_new_bounded:
  assumes R: "lru_ok R" and c: "lo_cap R c = cap" "length (lo_view R c) \<le> cap"
  shows "lo_cap R (snd (cache_is_new R ttl now h c)) = cap
    \<and> length (lo_view R (snd (cache_is_new R ttl now h c))) \<le> cap"
proof -
  obtain r c1 where get: "lo_get R h c = (r, c1)" by fastforce
  with R have r: "r = map_of (lo_view R c) h" and c1: "lo_cap R c1 = lo_cap R c"
    "lo_view R c1 = (case r of None \<Rightarrow> lo_view R c | Some v \<Rightarrow> front h v (lo_view R c))"
    unfolding lru_ok_def by (metis fst_conv, metis snd_conv, metis fst_conv snd_conv)
  have len: "length (lo_view R c1) \<le> cap"
  proof (cases r)
    case (Some v)
    with r have "h \<in> fst ` set (lo_view R c)" by (force dest: map_of_SomeD)
    from front_length [OF this, of v] c(2) c1(2) Some show ?thesis by simp
  qed (use c1(2) c(2) in simp)
  have "lo_cap R (lo_put R h now c1) = cap" "length (lo_view R (lo_put R h now c1)) \<le> cap"
    using R c1(1) c(1) unfolding lru_ok_def by simp_all
  with len c1(1) c(1) get show ?thesis by (auto simp: cache_is_new_def split: option.splits)
qed

lemma btree_insert_values: "snd ` set (btree_insert k v m) \<subseteq> insert v (snd ` set m)"
proof (induction m)
  case (Cons x m)
  then show ?case by (cases x) (simp split: if_split, blast)
qed simp

lemma btree_ok_filter: "btree_ok m \<Longrightarrow> btree_ok (filter P m)"
  unfolding btree_ok_def by (metis sorted_wrt_filter sorted_wrt_map)

lemma dedup_wf_insert:
  assumes "dedup_wf R cap d" "lo_cap R c = cap" "length (lo_view R c) \<le> cap"
  shows "dedup_wf R cap (d\<lparr>ld_pods := btree_insert pod c (ld_pods d)\<rparr>)"
proof -
  have "lo_cap R x = cap \<and> length (lo_view R x) \<le> cap" if "x \<in> snd ` set (btree_insert pod c (ld_pods d))" for x
    using subsetD [OF btree_insert_values that] assms unfolding dedup_wf_def by blast
  then show ?thesis using assms(1) unfolding dedup_wf_def by (simp add: btree_ok_insert)
qed

lemma is_new_wf:
  assumes R: "lru_ok R" and d: "dedup_wf R cap d"
  shows "dedup_wf R cap (snd (is_new R now pod h d))"
proof -
  have c: "lo_cap R (pod_cache R d pod) = cap" "length (lo_view R (pod_cache R d pod)) \<le> cap"
    using d R by (auto simp: pod_cache_def dedup_wf_def lru_ok_def btree_mem_iff [symmetric] split: option.split)
  have "snd (is_new R now pod h d) =
      d\<lparr>ld_pods := btree_insert pod (snd (cache_is_new R (ld_ttl d) now h (pod_cache R d pod))) (ld_pods d)\<rparr>"
    by (simp add: is_new_def pod_cache_def Let_def split: prod.split)
  then show ?thesis
    using dedup_wf_insert [OF d] cache_is_new_bounded [OF R c] by metis
qed

lemma scan_lines_wf:
  assumes "lru_ok R"
  shows "dedup_wf R cap d \<Longrightarrow> dedup_wf R cap (snd (scan_lines R hash K agent host ns name ls d))"
proof (induction ls arbitrary: d)
  case (Cons l ls)
  obtain line now E where l: "l = (line, now, E)" by (cases l)
  have "dedup_wf R cap (snd (is_new R now (ns @ ''/'' @ name) (hash line) d))"
    using is_new_wf assms Cons.prems by blast
  with Cons show ?case by (auto simp: l split: prod.splits bool.splits) (metis snd_conv)+
qed simp

lemma remove_pod_wf: "dedup_wf R cap d \<Longrightarrow> dedup_wf R cap (remove_pod pod d)"
  by (auto simp: dedup_wf_def remove_pod_def btree_ok_filter)

lemma dedup_step_wf: "dedup_step R hash K d d' \<Longrightarrow> lru_ok R \<Longrightarrow> dedup_wf R cap d \<Longrightarrow> dedup_wf R cap d'"
proof (induction rule: dedup_step.induct)
  case (watched d agent host logs w)
  then show ?case
    by (cases w) (auto intro: remove_pod_wf scan_lines_wf split: option.split)
qed

lemma dedup_wf_total: "lru_ok R \<Longrightarrow> dedup_wf R cap d \<Longrightarrow> total_entries R d \<le> pod_count d * cap"
proof -
  assume R: "lru_ok R" and d: "dedup_wf R cap d"
  have "sum_list (map (lo_len R \<circ> snd) ps) \<le> length ps * cap" if "\<forall>c \<in> snd ` set ps. length (lo_view R c) \<le> cap" for ps
    using that R by (induction ps) (auto simp: lru_ok_def)
  then show ?thesis using d unfolding total_entries_def pod_count_def dedup_wf_def by blast
qed

interpretation log_dedup: transition_invariant
    "\<lambda>d. \<exists>ttl. deduper_new cap ttl = Inr d" "\<lambda>d d'. lru_ok R \<and> dedup_step R hash K d d'" "dedup_wf R cap"
proof
  show "dedup_wf R cap d" if "\<exists>ttl. deduper_new cap ttl = Inr d" for d
    using that by (auto simp: deduper_new_def dedup_wf_def split: if_splits)
qed (blast intro: dedup_step_wf)

text \<open>
  Whatever the watch of pods delivers and however long the log tails are, the deduplicator
  remembers at most its capacity for every pod it tracks.
\<close>

theorem dedup_memory_bounded:
  assumes R: "lru_ok R" and new: "deduper_new cap ttl = Inr d" and run: "(dedup_step R hash K)\<^sup>*\<^sup>* d d'"
  shows "total_entries R d' \<le> pod_count d' * cap"
proof -
  have "dedup_wf R cap d'"
    by (rule log_dedup.reachable_inv [where R = R and hash = hash and K = K]) (use new run R in auto)
  then show ?thesis using dedup_wf_total R by blast
qed

section \<open>Witnesses\<close>

definition demo_lru :: "(nat \<times> (u64 \<times> nat) list) lru_ops" where
  "demo_lru =
     \<lparr>lo_new = (\<lambda>n. (n, [])),
      lo_get = (\<lambda>k (n, xs). case map_of xs k of None \<Rightarrow> (None, n, xs) | Some v \<Rightarrow> (Some v, n, front k v xs)),
      lo_put = (\<lambda>k v (n, xs). (n, take n (front k v xs))), lo_len = (\<lambda>c. length (snd c)), lo_view = snd, lo_cap = fst\<rparr>"

lemma demo_lru_ok: "lru_ok demo_lru"
  by (auto simp: lru_ok_def demo_lru_def split: option.splits)

definition demo_kube_event :: kube_event where
  "demo_kube_event =
     \<lparr>ke_uid = Some ''u1'', ke_reason = Some ''BackOff'', ke_type = Some ''Warning'', ke_namespace = Some ''shop'',
      ke_kind = Some ''Pod'', ke_name = Some ''web'', ke_field_path = None, ke_count = Some 3, ke_message = None,
      ke_last_timestamp = None, ke_first_timestamp = None\<rparr>"

definition demo_seen :: "(event_env \<times> kube_event kube_watch_event) list" where
  "demo_seen = [(demo_env, InitApply (demo_kube_event\<lparr>ke_count := Some 2\<rparr>))]"

theorem kube_event_published_witness:
  "fst (event_watch demo_env (AgentId 1) ''c1'' (Apply demo_kube_event) (seen_after demo_seen (AgentId 1) ''c1'')) =
     event_to_message demo_env demo_kube_event (AgentId 1) ''c1''"
proof -
  have uid: "ke_uid demo_kube_event = Some ''u1''" by (simp add: demo_kube_event_def)
  have "last_count (map snd demo_seen) ''u1'' = Some 2"
    by (simp add: demo_seen_def demo_kube_event_def last_count_def List.map_filter_def event_count_def)
  then show ?thesis
    using kube_event_published [OF uid, of demo_env "AgentId 1" "''c1''" demo_seen]
    by (simp add: demo_kube_event_def event_count_def)
qed

definition demo_node :: kube_node where
  "demo_node =
     \<lparr>nd_name = Some ''n1'',
      nd_conditions = Some [\<lparr>nc_type = ''DiskPressure'', nc_status = ''True'', nc_message = None, nc_last_transition = None\<rparr>]\<rparr>"

theorem node_condition_edges_witness:
  "(condition_key ''n1'' \<circ> condition_of) ` set (fst (reconcile (\<lambda>_. demo_env) demo_node (AgentId 1) ''h'' True {''n1/Ready'', ''n2/Ready''}))
     = {''n1/DiskPressure''}"
proof -
  let ?current = "(condition_key ''n1'' \<circ> condition_of) ` set (node_to_messages (\<lambda>_. demo_env) demo_node (AgentId 1) ''h'')"
  have cur: "?current = {''n1/DiskPressure''}"
    by (simp add: demo_node_def node_to_messages_def active_condition_def pressure_conditions_def node_message_def
        message_new_def condition_of_def condition_key_def node_name_of_def)
  obtain fresh active' where r:
    "reconcile (\<lambda>_. demo_env) demo_node (AgentId 1) ''h'' True {''n1/Ready'', ''n2/Ready''} = (fresh, active')" by fastforce
  have n: "''n1'' = node_name_of demo_node ''h''" by (simp add: demo_node_def node_name_of_def)
  from node_condition_edges [OF r n refl] cur r show ?thesis by simp
qed

definition demo_lines :: "(string \<times> nat \<times> u64) list" where
  "demo_lines = [(''p'', 0, 7), (''p'', 5, 7), (''p'', 5, 8), (''q'', 6, 7), (''p'', 10, 7)]"

theorem dedup_matches_reference_witness:
  "dedup_run demo_lru demo_lines \<lparr>ld_per_pod_cap = 2, ld_ttl = 10, ld_pods = []\<rparr> = [True, False, True, True, True]"
proof -
  have "card (hashes_of pod demo_lines) \<le> 2" for pod
  proof -
    have "hashes_of pod demo_lines \<subseteq> {7, 8}" by (auto simp: hashes_of_def demo_lines_def)
    then have "card (hashes_of pod demo_lines) \<le> card {7, 8 :: u64}" by (rule card_mono [OF finite.insertI [OF finite.insertI [OF finite.emptyI]]])
    then show ?thesis by simp
  qed
  moreover have "deduper_new 2 10 = Inr \<lparr>ld_per_pod_cap = 2, ld_ttl = 10, ld_pods = []\<rparr>"
    by (simp add: deduper_new_def)
  ultimately have "dedup_run demo_lru demo_lines \<lparr>ld_per_pod_cap = 2, ld_ttl = 10, ld_pods = []\<rparr> =
      dedup_ref 10 demo_lines Map.empty"
    by (rule dedup_matches_reference [OF demo_lru_ok])
  moreover have "dedup_ref 10 demo_lines Map.empty = [True, False, True, True, True]"
    by (simp add: demo_lines_def)
  ultimately show ?thesis by (simp only:)
qed

theorem dedup_memory_bounded_witness:
  "total_entries demo_lru
     (snd (log_watch demo_lru (\<lambda>l. word_of_nat (length l)) log_config_default (AgentId 1) ''c''
       (Some [(''error 1'', 0, demo_env), (''error 10'', 1, demo_env)]) (Apply \<lparr>kp_namespace = None, kp_name = Some ''web''\<rparr>)
       \<lparr>ld_per_pod_cap = 1, ld_ttl = 10, ld_pods = []\<rparr>)) \<le>
   pod_count
     (snd (log_watch demo_lru (\<lambda>l. word_of_nat (length l)) log_config_default (AgentId 1) ''c''
       (Some [(''error 1'', 0, demo_env), (''error 10'', 1, demo_env)]) (Apply \<lparr>kp_namespace = None, kp_name = Some ''web''\<rparr>)
       \<lparr>ld_per_pod_cap = 1, ld_ttl = 10, ld_pods = []\<rparr>)) * 1"
proof (rule dedup_memory_bounded [OF demo_lru_ok])
  show "deduper_new 1 10 = Inr \<lparr>ld_per_pod_cap = 1, ld_ttl = 10, ld_pods = []\<rparr>" by (simp add: deduper_new_def)
  show "(dedup_step demo_lru (\<lambda>l. word_of_nat (length l)) log_config_default)\<^sup>*\<^sup>* \<lparr>ld_per_pod_cap = 1, ld_ttl = 10, ld_pods = []\<rparr>
     (snd (log_watch demo_lru (\<lambda>l. word_of_nat (length l)) log_config_default (AgentId 1) ''c''
       (Some [(''error 1'', 0, demo_env), (''error 10'', 1, demo_env)]) (Apply \<lparr>kp_namespace = None, kp_name = Some ''web''\<rparr>)
       \<lparr>ld_per_pod_cap = 1, ld_ttl = 10, ld_pods = []\<rparr>))"
    by (rule r_into_rtranclp, rule dedup_step.watched)
qed

end
