(* ===== verification/Mcp.thy ===== *)
theory Mcp
  imports Agent_Loop
begin

text \<open>
  The tool server of \<^verbatim>\<open>crates/ravn-mcp/src\<close>: the HTTP client of the control plane
  (\<^verbatim>\<open>client.rs\<close>), the tools and their dispatch (\<^verbatim>\<open>tools.rs\<close>), the JSON-RPC handler and
  the loop over standard input (\<^verbatim>\<open>protocol.rs\<close>, \<^verbatim>\<open>server.rs\<close>), and the command line
  (\<^verbatim>\<open>config.rs\<close>); building the HTTP client succeeds. The network is a function on a world of its own, so that it can be a log of
  the calls or the modelled control plane. The codecs that \<open>serde\<close> generates are parameters.
\<close>

section \<open>The client\<close>

record http_call =
  hq_post :: bool
  hq_url :: string
  hq_bearer :: "string option"

text \<open>No answer with the error's text, or a status and a body, which may be unreadable.\<close>

datatype http_answer = Unanswered string | Answered nat "string + string"

type_synonym 'w net = "http_call \<Rightarrow> 'w \<Rightarrow> http_answer \<times> 'w"

record rpc_request =
  jr_id :: "json option"
  jr_method :: string
  jr_params :: json

record mcp_lib =
  ml_parse :: "string \<Rightarrow> string + json"
  ml_pretty :: "json \<Rightarrow> string"
  ml_line :: "json \<Rightarrow> string"
  ml_status :: "nat \<Rightarrow> string"
  ml_request :: "string \<Rightarrow> string + rpc_request"
  ml_params :: "json \<Rightarrow> string + (string \<times> json)"
  ml_records :: "json \<Rightarrow> remediation_record list option"
  ml_records_json :: "remediation_record list \<Rightarrow> string + json"

record mcp_client =
  cl_base_url :: string
  cl_token :: "string option"

definition client_new :: "string \<Rightarrow> string option \<Rightarrow> mcp_client" where
  "client_new base token = \<lparr>cl_base_url = trim_end_matches (CHR ''/'') base, cl_token = token\<rparr>"

definition unreserved :: "char \<Rightarrow> bool" where
  "unreserved c \<longleftrightarrow> is_upper c \<or> is_lower c \<or> is_digit c \<or> c \<in> {CHR ''-'', CHR ''_'', CHR ''.'', CHR ''~''}"

definition hex_digit :: "nat \<Rightarrow> char" where
  "hex_digit n = (if n < 10 then char_of (48 + n) else char_of (55 + n))"

definition percent :: "char \<Rightarrow> string" where
  "percent c = [CHR ''%'', hex_digit (of_char c div 16), hex_digit (of_char c mod 16)]"

definition urlencode :: "string \<Rightarrow> string" where
  "urlencode s = concat (map (\<lambda>c. if unreserved c then [c] else percent c) s)"

text \<open>The dash of the hints is three bytes. \<open>truncate\<close> is the one of the agent's prompts.\<close>

definition status_hint :: "nat \<Rightarrow> string" where
  "status_hint st =
     (if st = 401 then
        '' (missing or invalid token '' @ [CHR 0xE2, CHR 0x80, CHR 0x94]
          @ '' set RAVN_MCP_TOKEN to a control-plane bearer token)''
      else if st = 403 then
        '' (token lacks the required role '' @ [CHR 0xE2, CHR 0x80, CHR 0x94]
          @ '' mutations need an admin-scoped token)''
      else [])"

definition json_or_error :: "mcp_lib \<Rightarrow> string \<Rightarrow> nat \<Rightarrow> string + string \<Rightarrow> panic + (string + json)" where
  "json_or_error L url st body =
     (if 200 \<le> st \<and> st < 300 then
        case body of
          Inl e \<Rightarrow> Inr (Inl (''reading body of '' @ url @ '': '' @ e))
        | Inr t \<Rightarrow>
            if trim t = [] then Inr (Inr JNull)
            else (case ml_parse L t of
                    Inl e \<Rightarrow> Inr (Inl (''parsing JSON body of '' @ url @ '': '' @ e))
                  | Inr v \<Rightarrow> Inr (Inr v))
      else
        case truncate_bytes (case body of Inr t \<Rightarrow> t | Inl _ \<Rightarrow> []) 500 of
          Inl p \<Rightarrow> Inl p
        | Inr t \<Rightarrow> Inr (Inl (''control plane returned '' @ ml_status L st @ '' for '' @ url @ status_hint st @ '': '' @ t)))"

definition client_call ::
    "mcp_lib \<Rightarrow> 'w net \<Rightarrow> mcp_client \<Rightarrow> bool \<Rightarrow> string \<Rightarrow> 'w \<Rightarrow> (panic + (string + json)) \<times> 'w" where
  "client_call L net c post path w =
     (let url = cl_base_url c @ path
      in case net \<lparr>hq_post = post, hq_url = url, hq_bearer = map_option ((@) ''Bearer '') (cl_token c)\<rparr> w of
           (Unanswered e, w') \<Rightarrow> (Inr (Inl ((if post then ''POST '' else ''GET '') @ url @ '': '' @ e)), w')
         | (Answered st body, w') \<Rightarrow> (json_or_error L url st body, w'))"

definition events_path :: "u32 \<Rightarrow> string" where
  "events_path limit = ''/api/events?limit='' @ show_nat (unat limit)"

definition topology_path :: "string option \<Rightarrow> string" where
  "topology_path group_by =
     (case group_by of Some k \<Rightarrow> ''/api/topology?group_by='' @ urlencode k | None \<Rightarrow> ''/api/topology'')"

definition decision_path :: "string \<Rightarrow> string \<Rightarrow> string" where
  "decision_path i verb = ''/api/remediations/'' @ urlencode i @ ''/'' @ verb"

section \<open>Tools\<close>

record tool_annotations =
  ta_title :: string
  ta_read_only :: bool
  ta_destructive :: bool
  ta_idempotent :: bool
  ta_open_world :: bool

record tool_definition =
  td_name :: string
  td_description :: string
  td_input_schema :: json
  td_annotations :: tool_annotations

definition read_only :: "string \<Rightarrow> tool_annotations" where
  "read_only title =
     \<lparr>ta_title = title, ta_read_only = True, ta_destructive = False, ta_idempotent = True, ta_open_world = True\<rparr>"

definition mutating :: "string \<Rightarrow> tool_annotations" where
  "mutating title =
     \<lparr>ta_title = title, ta_read_only = False, ta_destructive = False, ta_idempotent = False, ta_open_world = True\<rparr>"

text \<open>A schema of the properties, each with its fields; objects list their keys in order, as the map does.\<close>

definition object_schema :: "(string \<times> json) list \<Rightarrow> string list \<Rightarrow> json" where
  "object_schema props required =
     JObj ([(''additionalProperties'', JBool False), (''properties'', JObj props)]
       @ (if required = [] then [] else [(''required'', JArr (map JStr required))])
       @ [(''type'', JStr ''object'')])"

definition max_event_limit :: u32 where "max_event_limit = 500"

definition default_event_limit :: u32 where "default_event_limit = 50"

definition read_only_tools :: "tool_definition list" where
  "read_only_tools =
     [\<lparr>td_name = ''list_agents'',
       td_description = ''List all registered Ravn agents with their derived liveness status (online/stale/offline), host, labels, and last-seen time. Read-only.'',
       td_input_schema = object_schema [] [], td_annotations = read_only ''List agents''\<rparr>,
      \<lparr>td_name = ''list_recent_events'',
       td_description = ''List recent detection events across the fleet, newest first. These are deterministic detections (not LLM output). Optional `limit` (1''
         @ [CHR 0xE2, CHR 0x80, CHR 0x93] @ ''500, default 50). Read-only.'',
       td_input_schema = object_schema
         [(''limit'', JObj [(''description'', JStr ''Maximum number of events to return.''), (''maximum'', JNum 500),
                           (''minimum'', JNum 1), (''type'', JStr ''integer'')])] [],
       td_annotations = read_only ''List recent events''\<rparr>,
      \<lparr>td_name = ''get_event'',
       td_description = ''Fetch a single detection event by its `id` (UUID). Returns the full stored event including payload and any LLM explanation. Read-only.'',
       td_input_schema = object_schema
         [(''id'', JObj [(''description'', JStr ''The event UUID.''), (''type'', JStr ''string'')])] [''id''],
       td_annotations = read_only ''Get event''\<rparr>,
      \<lparr>td_name = ''get_topology'',
       td_description = ''Return the fleet shaped for the topology diagram: agents grouped by an optional label key (`group_by`, e.g. `env`), each node carrying its status and worst recent severity. Read-only.'',
       td_input_schema = object_schema
         [(''group_by'', JObj [(''description'', JStr ''Label key to group agents by (e.g. `env`). Omit for a single group.''),
                              (''type'', JStr ''string'')])] [],
       td_annotations = read_only ''Get topology''\<rparr>,
      \<lparr>td_name = ''list_remediation_proposals'',
       td_description = ''List remediation records, optionally filtered to only those awaiting a decision (`pending_only`, default true). Each proposal is a pre-authored, deterministic remediation matched to a detection ''
         @ [CHR 0xE2, CHR 0x80, CHR 0x94]
         @ '' never LLM-authored. Read-only: this does NOT approve or reject anything.'',
       td_input_schema = object_schema
         [(''pending_only'', JObj [(''description'', JStr ''When true (default), return only proposals still awaiting a decision.''),
                                  (''type'', JStr ''boolean'')])] [],
       td_annotations = read_only ''List remediation proposals''\<rparr>]"

definition mutating_tools :: "tool_definition list" where
  "mutating_tools =
     (let id_schema = object_schema
            [(''id'', JObj [(''description'', JStr ''The remediation proposal UUID.''), (''type'', JStr ''string'')])] [''id'']
      in [\<lparr>td_name = ''approve_remediation'',
           td_description = ''Approve a PENDING remediation proposal by `id`: the control plane signs and enqueues the command for the target agent to pull. The action is attributed to the supplied admin token. This never executes anything directly and never auto-approves ''
             @ [CHR 0xE2, CHR 0x80, CHR 0x94]
             @ '' it mirrors clicking Approve in the portal. Gated: requires the server to run with --allow-mutations and an admin-scoped token.'',
           td_input_schema = id_schema, td_annotations = mutating ''Approve remediation''\<rparr>,
          \<lparr>td_name = ''reject_remediation'',
           td_description = ''Reject a pending remediation proposal by `id`. Records the rejection in the audit trail; no command is issued. Gated: requires --allow-mutations and an admin-scoped token.'',
           td_input_schema = id_schema, td_annotations = mutating ''Reject remediation''\<rparr>])"

definition tool_catalog :: "bool \<Rightarrow> tool_definition list" where
  "tool_catalog allow = read_only_tools @ (if allow then mutating_tools else [])"

record call_result =
  cr_text :: string
  cr_is_error :: bool

definition result_json :: "mcp_lib \<Rightarrow> json \<Rightarrow> call_result" where
  "result_json L v = \<lparr>cr_text = ml_pretty L v, cr_is_error = False\<rparr>"

definition result_error :: "string \<Rightarrow> call_result" where
  "result_error msg = \<lparr>cr_text = msg, cr_is_error = True\<rparr>"

definition relay :: "mcp_lib \<Rightarrow> panic + (string + json) \<Rightarrow> panic + call_result" where
  "relay L r =
     (case r of
        Inl p \<Rightarrow> Inl p
      | Inr (Inl e) \<Rightarrow> Inr (result_error e)
      | Inr (Inr v) \<Rightarrow> Inr (result_json L v))"

text \<open>Numbers of the model are integers; \<open>as_u64\<close> also refuses fractions. \<open>n as u32\<close> keeps the low bits.\<close>

definition as_u64 :: "json \<Rightarrow> u64 option" where
  "as_u64 v = (case v of JNum n \<Rightarrow> if 0 \<le> n \<and> n < 2 ^ 64 then Some (word_of_int n) else None | _ \<Rightarrow> None)"

definition event_limit :: "json \<Rightarrow> u32 option" where
  "event_limit args =
     (case json_get args ''limit'' of
        None \<Rightarrow> Some default_event_limit
      | Some JNull \<Rightarrow> Some default_event_limit
      | Some v \<Rightarrow> map_option (\<lambda>n. min max_event_limit (max 1 (ucast n))) (as_u64 v))"

type_synonym 'w call_outcome = "(panic + call_result) \<times> 'w"

definition list_recent_events :: "mcp_lib \<Rightarrow> 'w net \<Rightarrow> mcp_client \<Rightarrow> json \<Rightarrow> 'w \<Rightarrow> 'w call_outcome" where
  "list_recent_events L net c args w =
     (case event_limit args of
        None \<Rightarrow> (Inr (result_error ''`limit` must be an integer''), w)
      | Some n \<Rightarrow> apfst (relay L) (client_call L net c False (events_path n) w))"

definition find_event :: "string \<Rightarrow> json \<Rightarrow> json option" where
  "find_event i v =
     (case v of
        JArr es \<Rightarrow> List.find (\<lambda>e. Option.bind (json_get e ''id'') json_str = Some i) es
      | _ \<Rightarrow> None)"

definition mcp_get_event :: "mcp_lib \<Rightarrow> 'w net \<Rightarrow> mcp_client \<Rightarrow> json \<Rightarrow> 'w \<Rightarrow> 'w call_outcome" where
  "mcp_get_event L net c args w =
     (case Option.bind (json_get args ''id'') json_str of
        None \<Rightarrow> (Inr (result_error ''`id` (string UUID) is required''), w)
      | Some i \<Rightarrow>
          (case client_call L net c False (events_path max_event_limit) w of
             (Inr (Inr v), w') \<Rightarrow>
               (Inr (case find_event i v of
                       Some e \<Rightarrow> result_json L e
                     | None \<Rightarrow> result_error (''no event with id '' @ i @ '' in the most recent 500 events'')), w')
           | (r, w') \<Rightarrow> (relay L r, w')))"

definition get_topology :: "mcp_lib \<Rightarrow> 'w net \<Rightarrow> mcp_client \<Rightarrow> json \<Rightarrow> 'w \<Rightarrow> 'w call_outcome" where
  "get_topology L net c args w =
     apfst (relay L) (client_call L net c False (topology_path (Option.bind (json_get args ''group_by'') json_str)) w)"

definition pending_only :: "json \<Rightarrow> bool" where
  "pending_only args = (case json_get args ''pending_only'' of Some (JBool b) \<Rightarrow> b | _ \<Rightarrow> True)"

definition pending_result :: "mcp_lib \<Rightarrow> json \<Rightarrow> call_result" where
  "pending_result L raw =
     (case ml_records L raw of
        None \<Rightarrow> result_json L raw
      | Some rs \<Rightarrow>
          (case ml_records_json L (filter (\<lambda>r. rr_decision r = Pending) rs) of
             Inr v \<Rightarrow> result_json L v
           | Inl e \<Rightarrow> result_error (''serializing pending proposals: '' @ e)))"

definition list_remediation_proposals :: "mcp_lib \<Rightarrow> 'w net \<Rightarrow> mcp_client \<Rightarrow> json \<Rightarrow> 'w \<Rightarrow> 'w call_outcome" where
  "list_remediation_proposals L net c args w =
     (case client_call L net c False ''/api/remediations'' w of
        (Inr (Inr raw), w') \<Rightarrow> (Inr (if pending_only args then pending_result L raw else result_json L raw), w')
      | (r, w') \<Rightarrow> (relay L r, w'))"

definition mutate :: "mcp_lib \<Rightarrow> 'w net \<Rightarrow> mcp_client \<Rightarrow> string \<Rightarrow> json \<Rightarrow> 'w \<Rightarrow> 'w call_outcome" where
  "mutate L net c name args w =
     (case Option.bind (json_get args ''id'') json_str of
        None \<Rightarrow> (Inr (result_error ''`id` (string UUID) is required''), w)
      | Some i \<Rightarrow>
          if name = ''approve_remediation'' then apfst (relay L) (client_call L net c True (decision_path i ''approve'') w)
          else if name = ''reject_remediation'' then apfst (relay L) (client_call L net c True (decision_path i ''reject'') w)
          else (Inl Panic, w))"

definition dispatch :: "mcp_lib \<Rightarrow> 'w net \<Rightarrow> mcp_client \<Rightarrow> bool \<Rightarrow> string \<Rightarrow> json \<Rightarrow> 'w \<Rightarrow> 'w call_outcome" where
  "dispatch L net c allow name args w =
     (if name = ''list_agents'' then apfst (relay L) (client_call L net c False ''/api/agents'' w)
      else if name = ''list_recent_events'' then list_recent_events L net c args w
      else if name = ''get_event'' then mcp_get_event L net c args w
      else if name = ''get_topology'' then get_topology L net c args w
      else if name = ''list_remediation_proposals'' then list_remediation_proposals L net c args w
      else if name \<in> {''approve_remediation'', ''reject_remediation''} then
        if allow then mutate L net c name args w
        else (Inr (result_error (''tool `'' @ name @ ''` is disabled: this MCP server runs read-only. Restart it with --allow-mutations and an admin token to enable mutations.'')), w)
      else (Inr (result_error (''unknown tool: '' @ name)), w))"

section \<open>The JSON-RPC handler\<close>

record rpc_error =
  re_code :: int
  re_message :: string

record rpc_response =
  rs_id :: json
  rs_result :: "json option"
  rs_error :: "rpc_error option"

definition rpc_ok :: "json \<Rightarrow> json \<Rightarrow> rpc_response" where
  "rpc_ok i v = \<lparr>rs_id = i, rs_result = Some v, rs_error = None\<rparr>"

definition rpc_err :: "json \<Rightarrow> rpc_error \<Rightarrow> rpc_response" where
  "rpc_err i e = \<lparr>rs_id = i, rs_result = None, rs_error = Some e\<rparr>"

definition parse_error :: "string \<Rightarrow> rpc_error" where
  "parse_error msg = \<lparr>re_code = - 32700, re_message = msg\<rparr>"

definition method_not_found :: "string \<Rightarrow> rpc_error" where
  "method_not_found m = \<lparr>re_code = - 32601, re_message = ''method not found: '' @ m\<rparr>"

definition invalid_params :: "string \<Rightarrow> rpc_error" where
  "invalid_params msg = \<lparr>re_code = - 32602, re_message = msg\<rparr>"

definition response_json :: "rpc_response \<Rightarrow> json" where
  "response_json r =
     JObj ([(''jsonrpc'', JStr ''2.0''), (''id'', rs_id r)]
       @ (case rs_result r of Some v \<Rightarrow> [(''result'', v)] | None \<Rightarrow> [])
       @ (case rs_error r of
            Some e \<Rightarrow> [(''error'', JObj [(''code'', JNum (re_code e)), (''message'', JStr (re_message e))])]
          | None \<Rightarrow> []))"

record mcp_handler =
  mh_client :: mcp_client
  mh_allow :: bool

definition initialize :: "string \<Rightarrow> bool \<Rightarrow> json" where
  "initialize version allow =
     JObj [(''capabilities'', JObj [(''tools'', JObj [(''listChanged'', JBool False)])]),
           (''instructions'', JStr (''Ravn control-plane bridge. Use the read tools to inspect agents, events, topology, and remediation proposals. ''
              @ (if allow then ''Mutations are ENABLED (approve/reject remediation are available and require an admin token).''
                 else ''Read-only mode: mutating tools are not exposed.''))),
           (''protocolVersion'', JStr ''2025-06-18''),
           (''serverInfo'', JObj [(''name'', JStr ''ravn-mcp''), (''version'', JStr version)])]"

definition tool_json :: "tool_definition \<Rightarrow> json" where
  "tool_json t =
     JObj [(''annotations'', JObj [(''destructiveHint'', JBool (ta_destructive (td_annotations t))),
              (''idempotentHint'', JBool (ta_idempotent (td_annotations t))),
              (''openWorldHint'', JBool (ta_open_world (td_annotations t))),
              (''readOnlyHint'', JBool (ta_read_only (td_annotations t))),
              (''title'', JStr (ta_title (td_annotations t)))]),
           (''description'', JStr (td_description t)), (''inputSchema'', td_input_schema t), (''name'', JStr (td_name t))]"

definition tools_list :: "bool \<Rightarrow> json" where
  "tools_list allow = JObj [(''tools'', JArr (map tool_json (tool_catalog allow)))]"

definition call_result_json :: "call_result \<Rightarrow> json" where
  "call_result_json r =
     JObj [(''content'', JArr [JObj [(''text'', JStr (cr_text r)), (''type'', JStr ''text'')]]), (''isError'', JBool (cr_is_error r))]"

definition tools_call ::
    "mcp_lib \<Rightarrow> 'w net \<Rightarrow> mcp_handler \<Rightarrow> json \<Rightarrow> 'w \<Rightarrow> (panic + (rpc_error + json)) \<times> 'w" where
  "tools_call L net h params w =
     (case ml_params L params of
        Inl e \<Rightarrow> (Inr (Inl (invalid_params (''invalid tools/call params: '' @ e))), w)
      | Inr (name, args) \<Rightarrow>
          (case dispatch L net (mh_client h) (mh_allow h) name args w of
             (Inl p, w') \<Rightarrow> (Inl p, w')
           | (Inr r, w') \<Rightarrow> (Inr (Inr (call_result_json r)), w')))"

definition handle ::
    "mcp_lib \<Rightarrow> string \<Rightarrow> 'w net \<Rightarrow> mcp_handler \<Rightarrow> rpc_request \<Rightarrow> 'w \<Rightarrow> (panic + rpc_response option) \<times> 'w" where
  "handle L version net h req w =
     (case jr_id req of
        None \<Rightarrow> (Inr None, w)
      | Some i \<Rightarrow>
          if jr_method req = ''initialize'' then (Inr (Some (rpc_ok i (initialize version (mh_allow h)))), w)
          else if jr_method req = ''ping'' then (Inr (Some (rpc_ok i (JObj []))), w)
          else if jr_method req = ''tools/list'' then (Inr (Some (rpc_ok i (tools_list (mh_allow h)))), w)
          else if jr_method req = ''tools/call'' then
            (case tools_call L net h (jr_params req) w of
               (Inl p, w') \<Rightarrow> (Inl p, w')
             | (Inr (Inr v), w') \<Rightarrow> (Inr (Some (rpc_ok i v)), w')
             | (Inr (Inl e), w') \<Rightarrow> (Inr (Some (rpc_err i e)), w'))
          else (Inr (Some (rpc_err i (method_not_found (jr_method req)))), w))"

section \<open>The loop over standard input\<close>

text \<open>A line with whether its answer can be written, or a failing read.\<close>

datatype stdin_read = Line string bool | ReadError

datatype stdio_end = Eof | StdioFailed | StdioPanicked

definition answer_line ::
    "mcp_lib \<Rightarrow> string \<Rightarrow> 'w net \<Rightarrow> mcp_handler \<Rightarrow> string \<Rightarrow> 'w \<Rightarrow> (panic + rpc_response option) \<times> 'w" where
  "answer_line L version net h s w =
     (case ml_request L s of
        Inr req \<Rightarrow> handle L version net h req w
      | Inl e \<Rightarrow> (Inr (Some (rpc_err JNull (parse_error (''invalid JSON-RPC message: '' @ e)))), w))"

fun serve_stdio ::
    "mcp_lib \<Rightarrow> string \<Rightarrow> 'w net \<Rightarrow> mcp_handler \<Rightarrow> stdin_read list \<Rightarrow> 'w \<Rightarrow> rpc_response list \<times> stdio_end \<times> 'w" where
  "serve_stdio L version net h [] w = ([], Eof, w)"
| "serve_stdio L version net h (ReadError # rs) w = ([], StdioFailed, w)"
| "serve_stdio L version net h (Line s writable # rs) w =
     (if trim s = [] then serve_stdio L version net h rs w
      else case answer_line L version net h s w of
             (Inl p, w') \<Rightarrow> ([], StdioPanicked, w')
           | (Inr None, w') \<Rightarrow> serve_stdio L version net h rs w'
           | (Inr (Some r), w') \<Rightarrow>
               if writable then
                 (case serve_stdio L version net h rs w' of (out, e, w'') \<Rightarrow> (r # out, e, w''))
               else ([], StdioFailed, w'))"

definition stdout_bytes :: "mcp_lib \<Rightarrow> rpc_response list \<Rightarrow> string" where
  "stdout_bytes L rs = concat (map (\<lambda>r. ml_line L (response_json r) @ [CHR 0x0A]) rs)"

section \<open>The command line\<close>

record mcp_config =
  mg_base_url :: string
  mg_token :: "string option"
  mg_allow_mutations :: bool
  mg_log :: string

text \<open>\<open>trim_start_matches\<close> of a string: every leading occurrence.\<close>

function trim_start_str :: "string \<Rightarrow> string \<Rightarrow> string" where
  "trim_start_str p s = (if p \<noteq> [] \<and> prefix p s then trim_start_str p (drop (length p) s) else s)"
  by auto
termination
  by (relation "measure (length \<circ> snd)") (auto simp: prefix_def)

declare trim_start_str.simps [simp del]

datatype parse_end = Usage string | Help | Parsed "string option" "string option" bool

fun mcp_args :: "string list \<Rightarrow> string option \<Rightarrow> string option \<Rightarrow> bool \<Rightarrow> parse_end" where
  "mcp_args [] url token allow = Parsed url token allow"
| "mcp_args (a # as) url token allow =
     (if a = ''--help'' \<or> a = ''-h'' then Help
      else if a = ''--allow-mutations'' then mcp_args as url token True
      else if a = ''--url'' then (case as of [] \<Rightarrow> Usage ''--url needs a value'' | v # as' \<Rightarrow> mcp_args as' (Some v) token allow)
      else if a = ''--token'' then (case as of [] \<Rightarrow> Usage ''--token needs a value'' | v # as' \<Rightarrow> mcp_args as' url (Some v) allow)
      else if prefix ''--url='' a then mcp_args as (Some (trim_start_str ''--url='' a)) token allow
      else if prefix ''--token='' a then mcp_args as url (Some (trim_start_str ''--token='' a)) allow
      else Usage (''unknown argument: '' @ a))"

definition mcp_env :: "(string \<Rightarrow> string option) \<Rightarrow> string \<Rightarrow> string option" where
  "mcp_env vars k = (case vars k of Some v \<Rightarrow> if v \<noteq> [] then Some v else None | None \<Rightarrow> None)"

definition mcp_config_parse :: "(string \<Rightarrow> string option) \<Rightarrow> string list \<Rightarrow> string + mcp_config option" where
  "mcp_config_parse vars args =
     (case mcp_args args (mcp_env vars ''RAVN_MCP_URL'') (mcp_env vars ''RAVN_MCP_TOKEN'')
             (case mcp_env vars ''RAVN_MCP_ALLOW_MUTATIONS'' of
                Some v \<Rightarrow> v \<in> {''1'', ''true'', ''yes'', ''on''} | None \<Rightarrow> False) of
        Usage msg \<Rightarrow> Inl msg
      | Help \<Rightarrow> Inr None
      | Parsed url token allow \<Rightarrow>
          Inr (Some
            \<lparr>mg_base_url = (case url of Some u \<Rightarrow> u | None \<Rightarrow> ''http://127.0.0.1:8080''), mg_token = token,
             mg_allow_mutations = allow,
             mg_log = (case mcp_env vars ''RAVN_MCP_LOG'' of
                 Some l \<Rightarrow> l
               | None \<Rightarrow> (case mcp_env vars ''RUST_LOG'' of Some l \<Rightarrow> l | None \<Rightarrow> ''warn''))\<rparr>))"

definition mcp_main ::
    "mcp_lib \<Rightarrow> string \<Rightarrow> 'w net \<Rightarrow> (string \<Rightarrow> string option) \<Rightarrow> string list \<Rightarrow> stdin_read list \<Rightarrow> 'w
      \<Rightarrow> rpc_response list \<times> bool \<times> 'w" where
  "mcp_main L version net vars args rs w =
     (case mcp_config_parse vars args of
        Inl _ \<Rightarrow> ([], False, w)
      | Inr None \<Rightarrow> ([], True, w)
      | Inr (Some K) \<Rightarrow>
          (case serve_stdio L version net
                  \<lparr>mh_client = client_new (mg_base_url K) (mg_token K), mh_allow = mg_allow_mutations K\<rparr> rs w of
             (out, e, w') \<Rightarrow> (out, e = Eof, w')))"

end
