(* ===== verification/Mcp_Props.thy ===== *)
theory Mcp_Props
  imports Mcp Http_Props
begin

text \<open>
  What the tool server may do: which calls reach the control plane in each mode, that it answers every
  request once and in order, that an identifier cannot leave its path segment, and that in read-only
  mode it leaves the modelled control plane as it is.
\<close>

section \<open>The calls it makes\<close>

definition read_path :: "string \<Rightarrow> bool" where
  "read_path p \<longleftrightarrow> p = ''/api/agents'' \<or> p = ''/api/remediations''
     \<or> (\<exists>n. 1 \<le> unat n \<and> unat n \<le> 500 \<and> p = events_path n) \<or> (\<exists>g. p = topology_path g)"

definition decision_request :: "string \<Rightarrow> bool" where
  "decision_request p \<longleftrightarrow> (\<exists>i. p = decision_path i ''approve'' \<or> p = decision_path i ''reject'')"

definition call_allowed :: "mcp_client \<Rightarrow> bool \<Rightarrow> http_call \<Rightarrow> bool" where
  "call_allowed c allow q \<longleftrightarrow>
     (\<exists>p. hq_url q = cl_base_url c @ p \<and> (if hq_post q then allow \<and> decision_request p else read_path p))
     \<and> hq_bearer q = map_option ((@) ''Bearer '') (cl_token c)"

text \<open>
  A world that every allowed call keeps in an invariant. The server then keeps it, whatever it reads
  from standard input.
\<close>

locale guarded_net =
  fixes net :: "'w net" and client :: mcp_client and allow :: bool and inv :: "'w \<Rightarrow> bool"
  assumes net_inv: "call_allowed client allow q \<Longrightarrow> inv w \<Longrightarrow> inv (snd (net q w))"
begin

lemma client_call_inv:
  assumes "if post then allow \<and> decision_request p else read_path p" "inv w"
  shows "inv (snd (client_call L net client post p w))"
proof -
  let ?q = "\<lparr>hq_post = post, hq_url = cl_base_url client @ p, hq_bearer = map_option ((@) ''Bearer '') (cl_token client)\<rparr>"
  have "inv (snd (net ?q w))" by (rule net_inv) (use assms in \<open>auto simp: call_allowed_def\<close>)
  then show ?thesis
    by (cases "net ?q w"; cases "fst (net ?q w)") (simp_all add: client_call_def Let_def)
qed

lemma read_call_inv: "read_path p \<Longrightarrow> inv w \<Longrightarrow> inv (snd (client_call L net client False p w))"
  by (rule client_call_inv) simp_all

lemma snd_apfst_inv: "inv (snd x) \<Longrightarrow> inv (snd (apfst f x))"
  by (cases x) simp

lemma event_limit_range: "event_limit args = Some n \<Longrightarrow> read_path (events_path n)"
proof -
  assume n: "event_limit args = Some n"
  have "n = default_event_limit \<or> (\<exists>m. n = min max_event_limit (max 1 m))"
    using n by (auto simp: event_limit_def split: option.splits json.splits)
  then have "1 \<le> n \<and> n \<le> 500"
    by (auto simp: default_event_limit_def max_event_limit_def)
  then have "1 \<le> unat n \<and> unat n \<le> 500" by (simp add: word_le_nat_alt)
  then show ?thesis unfolding read_path_def by blast
qed

lemma case_call_inv:
  assumes "inv (snd x)" "\<And>v w'. inv w' \<Longrightarrow> inv (snd (f v w'))" "\<And>r w'. inv w' \<Longrightarrow> inv (snd (g r w'))"
  shows "inv (snd (case x of (Inr (Inr v), w') \<Rightarrow> f v w' | (r, w') \<Rightarrow> g r w'))"
  using assms by (auto split: prod.splits sum.splits)

lemma if_inv: "(b \<Longrightarrow> inv (snd x)) \<Longrightarrow> (\<not> b \<Longrightarrow> inv (snd y)) \<Longrightarrow> inv (snd (if b then x else y))"
  by simp

lemma option_inv:
  "(z = None \<Longrightarrow> inv (snd x)) \<Longrightarrow> (\<And>v. z = Some v \<Longrightarrow> inv (snd (f v))) \<Longrightarrow> inv (snd (case z of None \<Rightarrow> x | Some v \<Rightarrow> f v))"
  by (cases z) simp_all

lemma pair_inv: "inv w \<Longrightarrow> inv (snd (x, w))"
  by simp

lemma dispatch_inv: "inv w \<Longrightarrow> inv (snd (dispatch L net client allow name args w))"
proof -
  assume w: "inv w"
  have reads: "read_path ''/api/agents''" "read_path ''/api/remediations''" "read_path (topology_path g)" for g
    unfolding read_path_def by blast+
  have decide: "inv (snd (apfst (relay L) (client_call L net client True (decision_path i verb) w)))"
    if "allow" "verb = ''approve'' \<or> verb = ''reject''" for i verb
    by (rule snd_apfst_inv, rule client_call_inv) (use that w in \<open>auto simp: decision_request_def\<close>)
  have m: "inv (snd (mutate L net client name args w))" if "allow"
    unfolding mutate_def by (intro option_inv if_inv pair_inv w decide that disjI1 disjI2 refl)
  have r: "inv (snd (list_recent_events L net client args w))"
    unfolding list_recent_events_def by (intro option_inv pair_inv w snd_apfst_inv read_call_inv event_limit_range)
  have "read_path (events_path max_event_limit)" by (rule event_limit_range [of "JObj [(''limit'', JNum 500)]"])
      (simp add: event_limit_def as_u64_def max_event_limit_def)
  then have e: "inv (snd (mcp_get_event L net client args w))"
    unfolding mcp_get_event_def by (intro option_inv case_call_inv read_call_inv pair_inv w)
  have p: "inv (snd (list_remediation_proposals L net client args w))"
    unfolding list_remediation_proposals_def by (intro case_call_inv read_call_inv pair_inv reads(2) w)
  have t: "inv (snd (get_topology L net client args w))"
    unfolding get_topology_def by (intro snd_apfst_inv read_call_inv reads(3) w)
  have a: "inv (snd (apfst (relay L) (client_call L net client False ''/api/agents'' w)))"
    using w reads(1) by (intro snd_apfst_inv read_call_inv)
  show ?thesis
    unfolding dispatch_def by (intro if_inv a r e t p m pair_inv w)
qed

lemma handle_inv:
  assumes "inv w" "mh_client h = client" "mh_allow h = allow"
  shows "inv (snd (handle L version net h req w))"
proof -
  have "inv (snd (tools_call L net h ps w))" for ps
    using dispatch_inv [OF assms(1)] assms by (auto simp: tools_call_def split: sum.split prod.splits) (metis snd_conv)+
  then show ?thesis
    using assms(1) by (auto simp: handle_def split: option.split prod.splits sum.splits) (metis snd_conv)+
qed

lemma serve_inv:
  assumes "mh_client h = client" "mh_allow h = allow"
  shows "inv w \<Longrightarrow> inv (snd (snd (serve_stdio L version net h rs w)))"
proof (induction rs arbitrary: w)
  case (Cons x rs)
  show ?case
  proof (cases x)
    case (Line s writable)
    obtain r w1 where a: "answer_line L version net h s w = (r, w1)" by fastforce
    have "inv w1"
      using handle_inv [OF Cons.prems assms, of L version] Cons.prems a
      by (cases "ml_request L s") (auto simp: answer_line_def, metis snd_conv)
    from Cons.IH [OF this] Cons.IH [OF Cons.prems] \<open>inv w1\<close> show ?thesis
      by (cases "serve_stdio L version net h rs w1"; cases "trim s = []"; cases r) (simp_all add: Line a split: option.split)
  qed (use Cons.prems in simp)
qed simp

end

text \<open>A network that writes down the calls.\<close>

definition log_net :: "'w net \<Rightarrow> ('w \<times> http_call list) net" where
  "log_net net q s = (case net q (fst s) of (a, w) \<Rightarrow> (a, w, snd s @ [q]))"

interpretation logged: guarded_net "log_net net" client allow "\<lambda>s. \<forall>q\<in>set (snd s). call_allowed client allow q"
  for net :: "'w net" and client allow
  by unfold_locales (auto simp: log_net_def split: prod.splits)

text \<open>
  Whatever arrives on standard input, the tool server calls the control plane only to list agents,
  events (between 1 and 500), the topology and remediations, always with its own token; with mutations
  allowed also to approve or reject a remediation, and never otherwise.
\<close>

theorem mcp_calls_allowed:
  assumes "serve_stdio L version (log_net net) h rs (w, []) = (out, e, w', calls)" and "q \<in> set calls"
  shows "call_allowed (mh_client h) (mh_allow h) q"
  using logged.serve_inv [of h "mh_client h" "mh_allow h" "(w, [])" L version net rs] assms by simp

section \<open>Identifiers stay in their segment\<close>

definition unhex :: "char \<Rightarrow> nat" where
  "unhex c = (if is_digit c then of_char c - 48 else of_char c - 55)"

fun urldecode :: "string \<Rightarrow> string" where
  "urldecode [] = []"
| "urldecode (c # cs) =
     (if c = CHR ''%'' then (case cs of a # b # ds \<Rightarrow> char_of (16 * unhex a + unhex b) # urldecode ds | _ \<Rightarrow> [])
      else c # urldecode cs)"

lemma of_hex_digit: "n < 16 \<Longrightarrow> of_char (hex_digit n) = (if n < 10 then 48 + n else 55 + n)"
  by (simp add: hex_digit_def)

lemma hex_digit_facts: "n < 16 \<Longrightarrow> unhex (hex_digit n) = n \<and> hex_digit n \<noteq> CHR ''/''"
proof (intro conjI notI)
  assume n: "n < 16"
  then show "unhex (hex_digit n) = n"
    by (simp add: unhex_def is_digit_def less_eq_char_def of_hex_digit)
  assume "hex_digit n = CHR ''/''"
  with of_hex_digit [OF n] have "(47 :: nat) = (if n < 10 then 48 + n else 55 + n)" by simp
  then show False by (simp split: if_splits)
qed

lemma percent_decodes: "urldecode (percent c @ s) = c # urldecode s"
  and percent_no_slash: "CHR ''/'' \<notin> set (percent c)"
proof -
  have d: "of_char c div 16 < (16 :: nat)" "of_char c mod 16 < (16 :: nat)"
    by (rule less_mult_imp_div_less, simp, simp)
  then show "urldecode (percent c @ s) = c # urldecode s"
    using hex_digit_facts by (simp add: percent_def mult.commute)
  show "CHR ''/'' \<notin> set (percent c)" 
    using hex_digit_facts [OF d(1)] hex_digit_facts [OF d(2)] by (simp add: percent_def eq_commute)
qed

lemma unreserved_not: "\<not> unreserved (CHR ''%'')" "\<not> unreserved (CHR ''/'')"
  by (simp_all add: unreserved_def is_upper_def is_lower_def is_digit_def less_eq_char_def)

lemma urldecode_urlencode: "urldecode (urlencode s) = s"
proof (induction s)
  case (Cons c s)
  show ?case
  proof (cases "unreserved c")
    case True
    with unreserved_not have "c \<noteq> CHR ''%''" by auto
    with True Cons show ?thesis by (simp add: urlencode_def)
  next
    case False
    then have "urlencode (c # s) = percent c @ urlencode s" by (simp add: urlencode_def)
    with Cons show ?thesis by (simp add: percent_decodes)
  qed
qed (simp add: urlencode_def)

lemma urlencode_no_slash: "CHR ''/'' \<notin> set (urlencode s)"
  using unreserved_not percent_no_slash by (auto simp: urlencode_def split: if_splits)

text \<open>
  An identifier given to the approve and reject tools is one segment of the path the control plane
  sees, whatever bytes it holds, and decoding that segment gives it back.
\<close>

theorem identifier_is_one_segment:
  "split_on (CHR ''/'') (decision_path i verb) = [[], ''api'', ''remediations'', urlencode i] @ split_on (CHR ''/'') verb
    \<and> urldecode (urlencode i) = i"
  by (simp add: decision_path_def split_on_append_delim urlencode_no_slash urldecode_urlencode)

section \<open>Answers\<close>

definition request_id :: "mcp_lib \<Rightarrow> stdin_read \<Rightarrow> json option" where
  "request_id L x =
     (case x of
        ReadError \<Rightarrow> None
      | Line s _ \<Rightarrow>
          if trim s = [] then None
          else (case ml_request L s of Inl _ \<Rightarrow> Some JNull | Inr req \<Rightarrow> jr_id req))"

text \<open>
  A network whose error pages can be cut after 500 bytes: a longer one has a character boundary there.
\<close>

definition cuttable :: "'w net \<Rightarrow> bool" where
  "cuttable net \<longleftrightarrow>
     (\<forall>q w st b. fst (net q w) = Answered st (Inr b) \<longrightarrow> length b \<le> 500 \<or> is_char_boundary b 500)"

lemma client_call_returns: "cuttable net \<Longrightarrow> \<exists>r. fst (client_call L net c post p w) = Inr r"
proof -
  assume net: "cuttable net"
  let ?q = "\<lparr>hq_post = post, hq_url = cl_base_url c @ p, hq_bearer = map_option ((@) ''Bearer '') (cl_token c)\<rparr>"
  obtain a w' where a: "net ?q w = (a, w')" by (cases "net ?q w")
  show ?thesis
  proof (cases a)
    case (Answered st b)
    have "\<exists>t. truncate_bytes (case b of Inr t \<Rightarrow> t | Inl _ \<Rightarrow> []) 500 = Inr t"
    proof (cases b)
      case (Inr t)
      with net a Answered have "length t \<le> 500 \<or> is_char_boundary t 500"
        unfolding cuttable_def by (metis fst_conv)
      with Inr show ?thesis by (auto simp: truncate_bytes_def)
    qed (simp add: truncate_bytes_def)
    with a Answered show ?thesis
      by (auto simp: client_call_def Let_def json_or_error_def split: sum.split)
  qed (use a in \<open>simp add: client_call_def Let_def\<close>)
qed

lemma relay_returns: "\<exists>r. fst x = Inr r \<Longrightarrow> \<exists>r. fst (apfst (relay L) x) = Inr r"
  by (cases x) (auto simp: relay_def split: sum.split)

lemma case_call_returns:
  assumes "\<exists>r. fst x = Inr r" "\<And>v w'. \<exists>r. fst (f v w') = Inr r"
  shows "\<exists>r. fst (case x of (Inr (Inr v), w') \<Rightarrow> f v w' | (r, w') \<Rightarrow> (relay L r, w')) = Inr r"
  using assms by (cases x) (auto simp: relay_def split: sum.split)

lemma if_returns:
  "(b \<Longrightarrow> \<exists>r. fst x = Inr r) \<Longrightarrow> (\<not> b \<Longrightarrow> \<exists>r. fst y = Inr r) \<Longrightarrow> \<exists>r. fst (if b then x else y) = Inr r"
  by simp

lemma option_returns:
  "(\<exists>r. fst x = Inr r) \<Longrightarrow> (\<And>v. \<exists>r. fst (f v) = Inr r) \<Longrightarrow> \<exists>r. fst (case z of None \<Rightarrow> x | Some v \<Rightarrow> f v) = Inr r"
  by (cases z) simp_all

lemma pair_returns: "\<exists>r. fst (Inr x, w) = Inr r"
  by simp

lemma dispatch_returns:
  assumes "cuttable net"
  shows "\<exists>r. fst (dispatch L net c allow name args w) = Inr r"
proof -
  note call = relay_returns [OF client_call_returns [OF assms]]
  have m: "\<exists>r. fst (mutate L net c name args w) = Inr r" if "name \<in> {''approve_remediation'', ''reject_remediation''}"
    unfolding mutate_def by (intro option_returns if_returns call pair_returns) (use that in simp)
  have r: "\<exists>r. fst (list_recent_events L net c args w) = Inr r"
    unfolding list_recent_events_def by (intro option_returns call pair_returns)
  have e: "\<exists>r. fst (mcp_get_event L net c args w) = Inr r"
    unfolding mcp_get_event_def by (intro option_returns case_call_returns client_call_returns [OF assms] pair_returns)
  have p: "\<exists>r. fst (list_remediation_proposals L net c args w) = Inr r"
    unfolding list_remediation_proposals_def by (intro case_call_returns client_call_returns [OF assms] pair_returns)
  have t: "\<exists>r. fst (get_topology L net c args w) = Inr r"
    unfolding get_topology_def by (rule call)
  show ?thesis
    unfolding dispatch_def by (intro if_returns r e p t call pair_returns) (rule m)
qed

lemma handle_returns:
  assumes "cuttable net"
  shows "\<exists>r. fst (handle L version net h req w) = Inr r \<and> map_option rs_id r = jr_id req
    \<and> (\<forall>x. r = Some x \<longrightarrow> (rs_result x = None) = (rs_error x \<noteq> None))"
proof -
  have "\<exists>r. fst (tools_call L net h ps w) = Inr r" for ps
  proof (cases "ml_params L ps")
    case (Inr p)
    obtain r w' where "dispatch L net (mh_client h) (mh_allow h) (fst p) (snd p) w = (Inr r, w')"
      using dispatch_returns [OF assms] by (metis prod.collapse)
    with Inr show ?thesis by (simp add: tools_call_def split_beta)
  qed (simp add: tools_call_def)
  then obtain r w' where "tools_call L net h (jr_params req) w = (Inr r, w')" by (metis prod.collapse)
  then show ?thesis
    by (cases "jr_id req") (auto simp: handle_def rpc_ok_def rpc_err_def split: sum.split)
qed


text \<open>An error page whose byte 500 is inside a character ends the server.\<close>

lemma mcp_error_page_panics:
  assumes "500 < length page" "\<not> is_char_boundary page 500" "st < 200 \<or> 300 \<le> st"
  shows "json_or_error L url st (Inr page) = Inl Panic"
  using assms by (auto simp: json_or_error_def truncate_bytes_def)

text \<open>A limit of \<open>2 ^ 32\<close> loses its high bits before it is clamped.\<close>

lemma event_limit_wraps: "event_limit (JObj [(''limit'', JNum (2 ^ 32))]) = Some 1"
  by (simp add: event_limit_def as_u64_def max_event_limit_def)

section \<open>In front of the control plane\<close>

text \<open>
  The network that leads to the modelled control plane: the router finds the endpoint of a URL, the
  request goes through the middleware to its handler, and the answer is rendered. \<open>routes_ok\<close> is what
  the router library promises: an endpoint is reached by its own path, with or without a query.
\<close>

definition routes_ok :: "(uuid \<Rightarrow> string) \<Rightarrow> string \<Rightarrow> (bool \<Rightarrow> string \<Rightarrow> endpoint option) \<Rightarrow> bool" where
  "routes_ok U base route \<longleftrightarrow>
     (\<forall>post u e. route post u = Some e \<longrightarrow>
        u = base @ endpoint_path U e \<or> (\<exists>qs. u = base @ endpoint_path U e @ ''?'' @ qs))"

definition plane_net ::
    "('sk, 'vk) api_env \<Rightarrow> http_config \<Rightarrow> (http_call \<Rightarrow> api_io) \<Rightarrow> (bool \<Rightarrow> string \<Rightarrow> endpoint option)
      \<Rightarrow> (body \<Rightarrow> string) \<Rightarrow> 'sk http_state net" where
  "plane_net E K io route page q s =
     (case route (hq_post q) (hq_url q) of
        None \<Rightarrow> (Answered 404 (Inr []), s)
      | Some e \<Rightarrow>
          (case http_request E K (io q)
                  \<lparr>rq_method = (if hq_post q then POST else GET), rq_endpoint = e, rq_authorization = hq_bearer q,
                   rq_query = map_option snd (split_once ''?'' (hq_url q))\<rparr> s of
             ((st, b), s') \<Rightarrow> (Answered st (Inr (page b)), s')))"

lemma read_path_api: "read_path p \<Longrightarrow> prefix ''/api/'' p"
  by (auto simp: read_path_def events_path_def topology_path_def split: option.splits)

lemma plane_read_keeps:
  assumes "routes_ok (ae_uuid E) (cl_base_url c) route" "call_allowed c False q"
  shows "snd (plane_net E K io route page q s) = s"
proof (cases "route (hq_post q) (hq_url q)")
  case (Some e)
  from assms(2) obtain p where p: "hq_url q = cl_base_url c @ p" "read_path p" and get: "\<not> hq_post q"
    by (auto simp: call_allowed_def split: if_splits)
  from assms(1) Some p(1) have "p = endpoint_path (ae_uuid E) e \<or> (\<exists>qs. p = endpoint_path (ae_uuid E) e @ ''?'' @ qs)"
    unfolding routes_ok_def by (metis append.assoc same_append_eq)
  with read_path_api [OF p(2)] have pull: "e \<noteq> EGetCommands a" for a by auto
  define r where "r = \<lparr>rq_method = GET, rq_endpoint = e, rq_authorization = hq_bearer q,
    rq_query = map_option snd (split_once ''?'' (hq_url q))\<rparr>"
  have "snd (http_request E K (io q) r s) = s"
  proof (rule ccontr)
    assume c: "snd (http_request E K (io q) r s) \<noteq> s"
    from http_request_state [OF c] obtain x where
      "snd (http_request E K (io q) r s) = snd (api_handle E K (io q) (rq_authorization r) x e s)" "endpoint_method e = GET"
      unfolding r_def by auto
    with safe_handlers_pure pull c show False by metis
  qed
  then show ?thesis
    using Some get unfolding plane_net_def r_def by (simp add: split_beta)
qed (simp add: plane_net_def)

interpretation plane: guarded_net "plane_net E K io route page" c False
    "\<lambda>s. routes_ok (ae_uuid E) (cl_base_url c) route \<longrightarrow> s = s0"
  for E :: "('sk, 'vk) api_env" and K io route page c s0
  by unfold_locales (use plane_read_keeps in blast)

text \<open>
  C20: a tool server started without \<open>--allow-mutations\<close> in front of the control plane leaves its
  records, queues, registry and settings exactly as they are, whatever a client asks for.
\<close>

theorem read_only_server_keeps_plane:
  assumes "routes_ok (ae_uuid E) (cl_base_url (mh_client h)) route" "\<not> mh_allow h"
  shows "snd (snd (serve_stdio L version (plane_net E K io route page) h rs s)) = s"
proof -
  have "routes_ok (ae_uuid E) (cl_base_url (mh_client h)) route \<longrightarrow>
      snd (snd (serve_stdio L version (plane_net E K io route page) h rs s)) = s"
    by (rule plane.serve_inv [OF refl]) (use assms(2) in simp_all)
  with assms(1) show ?thesis by blast
qed

section \<open>Witnesses\<close>

definition demo_mcp :: mcp_lib where
  "demo_mcp =
     \<lparr>ml_parse = \<lambda>t. Inr (JArr []), ml_pretty = \<lambda>v. ''[]'', ml_line = \<lambda>v. ''{}'', ml_status = \<lambda>n. ''status'',
      ml_request = \<lambda>s. if s = ''call'' then Inr \<lparr>jr_id = Some (JNum 1), jr_method = ''tools/call'', jr_params = JNull\<rparr>
                       else if s = ''note'' then Inr \<lparr>jr_id = None, jr_method = ''ping'', jr_params = JNull\<rparr>
                       else Inl ''expected value'',
      ml_params = \<lambda>v. Inr (''list_agents'', JNull), ml_records = \<lambda>v. None, ml_records_json = \<lambda>rs. Inr JNull\<rparr>"

definition demo_mcp_handler :: mcp_handler where
  "demo_mcp_handler = \<lparr>mh_client = client_new ''http://cp/'' (Some ''view''), mh_allow = False\<rparr>"

definition demo_net :: "unit net" where
  "demo_net q w = (Answered 200 (Inr ''[]''), w)"

lemma demo_trim: "trim ''call'' = ''call''" "trim ''note'' = ''note''" "trim ''junk'' = ''junk''" "trim ''[]'' = ''[]''"
  by code_simp+

theorem mcp_calls_allowed_witness:
  "call_allowed (mh_client demo_mcp_handler) False \<lparr>hq_post = False, hq_url = ''http://cp/api/agents'', hq_bearer = Some ''Bearer view''\<rparr>"
proof -
  let ?q = "\<lparr>hq_post = False, hq_url = ''http://cp/api/agents'', hq_bearer = Some ''Bearer view''\<rparr>"
  have base: "mh_client demo_mcp_handler = \<lparr>cl_base_url = ''http://cp'', cl_token = Some ''view''\<rparr>"
    by (simp add: demo_mcp_handler_def client_new_def trim_end_matches_def)
  have "serve_stdio demo_mcp ''1'' (log_net demo_net) demo_mcp_handler [Line ''call'' True] ((), []) =
      ([rpc_ok (JNum 1) (call_result_json \<lparr>cr_text = ''[]'', cr_is_error = False\<rparr>)], Eof, (), [?q])"
    by (simp add: demo_trim answer_line_def demo_mcp_def handle_def tools_call_def dispatch_def client_call_def base
        log_net_def demo_net_def json_or_error_def relay_def result_json_def Let_def)
  from mcp_calls_allowed [OF this] show ?thesis by (simp add: demo_mcp_handler_def)
qed


theorem read_only_server_keeps_plane_witness:
  "snd (snd (serve_stdio demo_mcp ''1''
     (plane_net demo_api demo_http (\<lambda>q. demo_api_io) (\<lambda>post u. if u = ''http://cp/api/agents'' then Some EListAgents else None) (\<lambda>b. ''[]''))
     demo_mcp_handler [Line ''call'' True, Line ''junk'' True] demo_http_state)) = demo_http_state"
  by (rule read_only_server_keeps_plane)
    (simp_all add: routes_ok_def demo_mcp_handler_def client_new_def trim_end_matches_def)

end
