(* ===== verification/Server_Config.thy ===== *)
theory Server_Config
  imports Http_Api
begin

text \<open>
  How the control plane starts: its configuration from the environment (\<^verbatim>\<open>config.rs\<close>), the
  wiring of \<^verbatim>\<open>main.rs\<close> and the token bucket of \<^verbatim>\<open>state.rs\<close>. The environment and the
  files are functions; parsing socket addresses and floating-point numbers, the CA library, fetching a
  URL and the database are parameters or inputs.
\<close>

section \<open>Configuration\<close>

datatype jwks_source = JwksUrl string | JwksFile string

record enroll_config =
  ec_bootstrap_token :: string
  ec_ca_cert_pem :: string
  ec_ca_key_pem :: string
  ec_cert_ttl_days :: int

record ingest_auth_config =
  ic_issuer :: string
  ic_audience :: string
  ic_jwks_source :: jwks_source

record token_review_config =
  tc_api_url :: string
  tc_bearer :: string
  tc_ca_pem :: "string option"
  tc_audience :: string

record inference_config =
  nc_endpoint :: string
  nc_model :: string
  nc_api_key :: "string option"
  nc_timeout_secs :: u64

record oidc_config =
  oc_issuer :: string
  oc_jwks_source :: jwks_source
  oc_audience :: string
  oc_client_id :: string
  oc_groups_claim :: string
  oc_admin_group :: "string option"
  oc_viewer_group :: "string option"
  oc_scopes :: string

record policy_config =
  pc_file :: "string option"
  pc_auto_enabled :: bool
  pc_auto_max :: u32
  pc_auto_window_secs :: u64

record ('a, 'f) server_config =
  sc_bind :: 'a
  sc_log :: string
  sc_database_url :: string
  sc_nats_url :: string
  sc_admin_token :: "string option"
  sc_viewer_token :: "string option"
  sc_enroll :: "enroll_config option"
  sc_ingest_auth :: "ingest_auth_config option"
  sc_token_review :: "token_review_config option"
  sc_inference :: "inference_config option"
  sc_oidc :: "oidc_config option"
  sc_command_key_path :: "string option"
  sc_command_previous_keys_dir :: "string option"
  sc_templates_dir :: string
  sc_command_ttl_secs :: int
  sc_kb_dir :: "string option"
  sc_policy :: policy_config
  sc_rate_limit_capacity :: 'f
  sc_rate_limit_refill_rate :: 'f

datatype server_config_error =
    BadBind string
  | NoDatabaseUrl
  | UnreadableFile string string
  | NoReviewCredential
  | TwoJwksSources string
  | NoJwksSource
  | NoAudience
  | IncompleteIngestAuth
  | IncompleteEnrolment

text \<open>The environment and the files that can be read; parsing of addresses and floating-point numbers.\<close>

record ('a, 'f) server_env =
  sv_vars :: "string \<Rightarrow> string option"
  sv_files :: "string \<Rightarrow> string option"
  sv_addr :: "string \<Rightarrow> 'a option"
  sv_f64 :: "string \<Rightarrow> 'f option"
  sv_literal :: "nat \<Rightarrow> 'f"

definition env_token :: "('a, 'f) server_env \<Rightarrow> string \<Rightarrow> string option" where
  "env_token V k = (case sv_vars V k of Some v \<Rightarrow> if v \<noteq> [] then Some v else None | None \<Rightarrow> None)"

definition env_parsed :: "('a, 'f) server_env \<Rightarrow> (string \<Rightarrow> 'n option) \<Rightarrow> string \<Rightarrow> 'n \<Rightarrow> 'n" where
  "env_parsed V parse k d = (case Option.bind (sv_vars V k) parse of Some n \<Rightarrow> n | None \<Rightarrow> d)"

definition parse_u32 :: "string \<Rightarrow> u32 option" where
  "parse_u32 s =
     (case read_digits (case s of c # cs \<Rightarrow> if c = CHR ''+'' then cs else s | [] \<Rightarrow> s) of
        None \<Rightarrow> None
      | Some n \<Rightarrow> if n < 2 ^ 32 then Some (word_of_nat n) else None)"

definition truthy :: "string option \<Rightarrow> bool" where
  "truthy v \<longleftrightarrow> v \<in> {Some ''1'', Some ''true'', Some ''yes'', Some ''on''}"

definition is_airgapped :: "('a, 'f) server_env \<Rightarrow> bool" where
  "is_airgapped V \<longleftrightarrow> truthy (sv_vars V ''RAVN_AIRGAPPED'')"

text \<open>\<open>read_to_string\<close> of the file that a variable names, with its error.\<close>

definition read_named :: "('a, 'f) server_env \<Rightarrow> string \<Rightarrow> string \<Rightarrow> server_config_error + string" where
  "read_named V k path = (case sv_files V path of Some t \<Rightarrow> Inr t | None \<Rightarrow> Inl (UnreadableFile k path))"

text \<open>A secret given inline or, trimmed, in a file.\<close>

definition secret_from_env :: "('a, 'f) server_env \<Rightarrow> string \<Rightarrow> string \<Rightarrow> server_config_error + string option" where
  "secret_from_env V k file_k =
     (case env_token V k of
        Some t \<Rightarrow> Inr (Some t)
      | None \<Rightarrow>
          (case env_token V file_k of
             Some path \<Rightarrow> (case read_named V file_k path of Inl e \<Rightarrow> Inl e | Inr t \<Rightarrow> Inr (Some (trim t)))
           | None \<Rightarrow> Inr None))"

definition token_review_from_env :: "('a, 'f) server_env \<Rightarrow> server_config_error + token_review_config option" where
  "token_review_from_env V =
     (case env_token V ''RAVN_INGEST_TOKENREVIEW_URL'' of
        None \<Rightarrow> Inr None
      | Some api_url \<Rightarrow>
          (case secret_from_env V ''RAVN_INGEST_TOKENREVIEW_TOKEN'' ''RAVN_INGEST_TOKENREVIEW_TOKEN_FILE'' of
             Inl e \<Rightarrow> Inl e
           | Inr None \<Rightarrow> Inl NoReviewCredential
           | Inr (Some b) \<Rightarrow>
               (case (case env_token V ''RAVN_INGEST_TOKENREVIEW_CA_FILE'' of
                        Some path \<Rightarrow> map_sum id Some (read_named V ''RAVN_INGEST_TOKENREVIEW_CA_FILE'' path)
                      | None \<Rightarrow> Inr None) of
                  Inl e \<Rightarrow> Inl e
                | Inr ca_pem \<Rightarrow>
                    Inr (Some \<lparr>tc_api_url = api_url, tc_bearer = b, tc_ca_pem = ca_pem,
                      tc_audience = (case env_token V ''RAVN_INGEST_AUDIENCE'' of Some a \<Rightarrow> a | None \<Rightarrow> ''ravn'')\<rparr>))))"

text \<open>The document of signing keys: at most one source.\<close>

definition jwks_from_env :: "('a, 'f) server_env \<Rightarrow> string \<Rightarrow> string \<Rightarrow> server_config_error + jwks_source option" where
  "jwks_from_env V url_k file_k =
     (case (env_token V url_k, env_token V file_k) of
        (Some url, None) \<Rightarrow> Inr (Some (JwksUrl url))
      | (None, Some path) \<Rightarrow> Inr (Some (JwksFile path))
      | (Some _, Some _) \<Rightarrow> Inl (TwoJwksSources url_k)
      | (None, None) \<Rightarrow> Inr None)"

definition oidc_from_env :: "('a, 'f) server_env \<Rightarrow> server_config_error + oidc_config option" where
  "oidc_from_env V =
     (case env_token V ''RAVN_OIDC_ISSUER'' of
        None \<Rightarrow> Inr None
      | Some issuer \<Rightarrow>
          (case jwks_from_env V ''RAVN_OIDC_JWKS_URL'' ''RAVN_OIDC_JWKS_FILE'' of
             Inl e \<Rightarrow> Inl e
           | Inr None \<Rightarrow> Inl NoJwksSource
           | Inr (Some src) \<Rightarrow>
               (case env_token V ''RAVN_OIDC_AUDIENCE'' of
                  None \<Rightarrow> Inl NoAudience
                | Some audience \<Rightarrow>
                    Inr (Some
                      \<lparr>oc_issuer = issuer, oc_jwks_source = src, oc_audience = audience,
                       oc_client_id = (case env_token V ''RAVN_OIDC_CLIENT_ID'' of Some c \<Rightarrow> c | None \<Rightarrow> audience),
                       oc_groups_claim = (case env_token V ''RAVN_OIDC_GROUPS_CLAIM'' of Some c \<Rightarrow> c | None \<Rightarrow> ''groups''),
                       oc_admin_group = env_token V ''RAVN_OIDC_ADMIN_GROUP'',
                       oc_viewer_group = env_token V ''RAVN_OIDC_VIEWER_GROUP'',
                       oc_scopes = (case env_token V ''RAVN_OIDC_SCOPES'' of
                           Some c \<Rightarrow> c | None \<Rightarrow> ''openid profile email groups'')\<rparr>))))"

definition inference_from_env :: "('a, 'f) server_env \<Rightarrow> server_config_error + inference_config option" where
  "inference_from_env V =
     (case env_token V ''RAVN_INFERENCE_ENDPOINT'' of
        None \<Rightarrow> Inr None
      | Some endpoint \<Rightarrow>
          (case secret_from_env V ''RAVN_INFERENCE_API_KEY'' ''RAVN_INFERENCE_API_KEY_FILE'' of
             Inl e \<Rightarrow> Inl e
           | Inr key \<Rightarrow>
               Inr (Some
                 \<lparr>nc_endpoint = endpoint,
                  nc_model = (case env_token V ''RAVN_INFERENCE_MODEL'' of Some m \<Rightarrow> m | None \<Rightarrow> ''default''),
                  nc_api_key = key, nc_timeout_secs = env_parsed V parse_u64 ''RAVN_INFERENCE_TIMEOUT_SECS'' 30\<rparr>)))"

definition ingest_auth_from_env :: "('a, 'f) server_env \<Rightarrow> server_config_error + ingest_auth_config option" where
  "ingest_auth_from_env V =
     (case jwks_from_env V ''RAVN_INGEST_OIDC_JWKS_URL'' ''RAVN_INGEST_OIDC_JWKS_FILE'' of
        Inl e \<Rightarrow> Inl e
      | Inr src \<Rightarrow>
          (case (env_token V ''RAVN_INGEST_OIDC_ISSUER'', src) of
             (None, None) \<Rightarrow> Inr None
           | (Some issuer, Some src) \<Rightarrow>
               Inr (Some \<lparr>ic_issuer = issuer,
                 ic_audience = (case env_token V ''RAVN_INGEST_AUDIENCE'' of Some a \<Rightarrow> a | None \<Rightarrow> ''ravn''), ic_jwks_source = src\<rparr>)
           | _ \<Rightarrow> Inl IncompleteIngestAuth))"

definition enroll_from_env :: "('a, 'f) server_env \<Rightarrow> server_config_error + enroll_config option" where
  "enroll_from_env V =
     (case secret_from_env V ''RAVN_ENROLL_TOKEN'' ''RAVN_ENROLL_TOKEN_FILE'' of
        Inl e \<Rightarrow> Inl e
      | Inr bootstrap \<Rightarrow>
          (case (bootstrap, env_token V ''RAVN_CA_CERT'', env_token V ''RAVN_CA_KEY'') of
             (None, None, None) \<Rightarrow> Inr None
           | (Some token, Some cert_path, Some key_path) \<Rightarrow>
               (case read_named V ''RAVN_CA_CERT'' cert_path of
                  Inl e \<Rightarrow> Inl e
                | Inr cert \<Rightarrow>
                    (case read_named V ''RAVN_CA_KEY'' key_path of
                       Inl e \<Rightarrow> Inl e
                     | Inr key \<Rightarrow>
                         Inr (Some \<lparr>ec_bootstrap_token = token, ec_ca_cert_pem = cert, ec_ca_key_pem = key,
                           ec_cert_ttl_days = env_parsed V parse_i64 ''RAVN_CERT_TTL_DAYS'' 90\<rparr>)))
           | _ \<Rightarrow> Inl IncompleteEnrolment))"

definition policy_config_from_env :: "('a, 'f) server_env \<Rightarrow> policy_config" where
  "policy_config_from_env V =
     \<lparr>pc_file = env_token V ''RAVN_POLICY_FILE'',
      pc_auto_enabled = truthy (sv_vars V ''RAVN_REMEDIATION_AUTO''),
      pc_auto_max = max 1 (env_parsed V parse_u32 ''RAVN_REMEDIATION_AUTO_MAX'' 5),
      pc_auto_window_secs = max 1 (env_parsed V parse_u64 ''RAVN_REMEDIATION_AUTO_WINDOW_SECS'' 300)\<rparr>"

definition server_config_from_env :: "('a, 'f) server_env \<Rightarrow> server_config_error + ('a, 'f) server_config" where
  "server_config_from_env V =
     (let bind = (case sv_vars V ''RAVN_BIND'' of Some b \<Rightarrow> b | None \<Rightarrow> ''0.0.0.0:8080'')
      in case sv_addr V bind of
           None \<Rightarrow> Inl (BadBind bind)
         | Some addr \<Rightarrow>
      (case sv_vars V ''DATABASE_URL'' of
           None \<Rightarrow> Inl NoDatabaseUrl
         | Some db \<Rightarrow>
      (case enroll_from_env V of Inl e \<Rightarrow> Inl e | Inr enroll \<Rightarrow>
      (case ingest_auth_from_env V of Inl e \<Rightarrow> Inl e | Inr ingest \<Rightarrow>
      (case token_review_from_env V of Inl e \<Rightarrow> Inl e | Inr review \<Rightarrow>
      (case inference_from_env V of Inl e \<Rightarrow> Inl e | Inr inference \<Rightarrow>
      (case oidc_from_env V of Inl e \<Rightarrow> Inl e | Inr oidc \<Rightarrow>
         Inr \<lparr>sc_bind = addr, sc_log = (case sv_vars V ''RAVN_LOG'' of Some l \<Rightarrow> l | None \<Rightarrow> ''info''),
              sc_database_url = db,
              sc_nats_url = (case sv_vars V ''NATS_URL'' of Some u \<Rightarrow> u | None \<Rightarrow> ''nats://127.0.0.1:4222''),
              sc_admin_token = env_token V ''RAVN_ADMIN_TOKEN'', sc_viewer_token = env_token V ''RAVN_VIEWER_TOKEN'',
              sc_enroll = enroll, sc_ingest_auth = ingest, sc_token_review = review, sc_inference = inference, sc_oidc = oidc,
              sc_command_key_path = env_token V ''RAVN_COMMAND_KEY'',
              sc_command_previous_keys_dir = env_token V ''RAVN_COMMAND_PREVIOUS_KEYS_DIR'',
              sc_templates_dir = (case env_token V ''RAVN_TEMPLATES_DIR'' of Some d \<Rightarrow> d | None \<Rightarrow> ''templates''),
              sc_command_ttl_secs = max 1 (env_parsed V parse_i64 ''RAVN_COMMAND_TTL_SECS'' 300),
              sc_kb_dir = env_token V ''RAVN_KB_DIR'', sc_policy = policy_config_from_env V,
              sc_rate_limit_capacity = env_parsed V (sv_f64 V) ''RAVN_INGEST_RATE_LIMIT_CAPACITY'' (sv_literal V 100),
              sc_rate_limit_refill_rate = env_parsed V (sv_f64 V) ''RAVN_INGEST_RATE_LIMIT_REFILL_RATE'' (sv_literal V 10)\<rparr>)))))))"

section \<open>Start-up\<close>

text \<open>
  What start-up takes from outside: whether the database and NATS are reached, the CA loader, the
  parser of key documents, the TokenReview client, the fresh key and where keys are, the template
  directory and its parser, the stored remediation rows, the knowledge files and the policy file.
\<close>

record ('sk, 'pe) start_io =
  si_database :: bool
  si_nats :: bool
  si_ca :: "string \<Rightarrow> string \<Rightarrow> int \<Rightarrow> ca option"
  si_jwks :: "string \<Rightarrow> jwk_set option"
  si_review :: "token_review_config \<Rightarrow> (string \<Rightarrow> string \<Rightarrow> (bool \<times> review_status option) option) option"
  si_fresh_key :: 'sk
  si_key_location :: "string option \<Rightarrow> key_location"
  si_previous_keys :: "string option \<Rightarrow> dir_entry list option option option"
  si_template_dir :: "string \<Rightarrow> template_dir"
  si_template_parse :: "string \<Rightarrow> string + template"
  si_rows :: "remediation_row list option"
  si_kb_files :: "string \<Rightarrow> (string \<rightharpoonup> string) option"
  si_policy_file :: "string \<Rightarrow> 'pe policy_file"
  si_policy_parse :: "string \<Rightarrow> 'pe + policy"

datatype 'pe start_error =
    ConfigError server_config_error
  | DatabaseError
  | NatsError
  | CaError
  | AirgappedUrl string
  | JwksFetch string
  | JwksRead string
  | IngestAuthError auth_error
  | UserAuthError auth_error
  | ReviewError
  | SignerError signer_error
  | TemplateError load_error
  | StoreError
  | KbError
  | PolicyError 'pe

text \<open>\<open>load_jwks\<close>; fetching a URL covers the request, its status and the body.\<close>

type_synonym 'w fetcher = "string \<Rightarrow> 'w \<Rightarrow> string option \<times> 'w"

definition load_jwks ::
    "('a, 'f) server_env \<Rightarrow> 'w fetcher \<Rightarrow> jwks_source \<Rightarrow> 'w \<Rightarrow> ('pe start_error + string) \<times> 'w" where
  "load_jwks V fetch src w =
     (case src of
        JwksUrl url \<Rightarrow>
          if is_airgapped V then (Inl (AirgappedUrl url), w)
          else (case fetch url w of (Some doc, w') \<Rightarrow> (Inr doc, w') | (None, w') \<Rightarrow> (Inl (JwksFetch url), w'))
      | JwksFile path \<Rightarrow> ((case sv_files V path of Some doc \<Rightarrow> Inr doc | None \<Rightarrow> Inl (JwksRead path)), w))"

definition build_ingest_auth ::
    "('a, 'f) server_env \<Rightarrow> ('sk, 'pe) start_io \<Rightarrow> 'w fetcher \<Rightarrow> ingest_auth_config option \<Rightarrow> 'w
      \<Rightarrow> ('pe start_error + ingest_auth option) \<times> 'w" where
  "build_ingest_auth V io fetch cfg w =
     (case cfg of
        None \<Rightarrow> (Inr None, w)
      | Some c \<Rightarrow>
          (case load_jwks V fetch (ic_jwks_source c) w of
             (Inl e, w') \<Rightarrow> (Inl e, w')
           | (Inr doc, w') \<Rightarrow>
               (case ingest_auth_new (si_jwks io) (ic_issuer c) (ic_audience c) doc of
                  Inl e \<Rightarrow> (Inl (IngestAuthError e), w')
                | Inr a \<Rightarrow> (Inr (Some a), w'))))"

definition build_user_auth ::
    "('a, 'f) server_env \<Rightarrow> ('sk, 'pe) start_io \<Rightarrow> 'w fetcher \<Rightarrow> oidc_config option \<Rightarrow> 'w
      \<Rightarrow> ('pe start_error + (user_auth \<times> oidc_public) option) \<times> 'w" where
  "build_user_auth V io fetch cfg w =
     (case cfg of
        None \<Rightarrow> (Inr None, w)
      | Some c \<Rightarrow>
          (case load_jwks V fetch (oc_jwks_source c) w of
             (Inl e, w') \<Rightarrow> (Inl e, w')
           | (Inr doc, w') \<Rightarrow>
               (case user_auth_new (si_jwks io) (oc_issuer c) (Some (oc_audience c)) doc (oc_groups_claim c)
                       (oc_admin_group c) (oc_viewer_group c) of
                  Inl e \<Rightarrow> (Inl (UserAuthError e), w')
                | Inr u \<Rightarrow>
                    (Inr (Some (u, \<lparr>op_issuer = oc_issuer c, op_client_id = oc_client_id c, op_scopes = oc_scopes c\<rparr>)), w'))))"

definition load_ca :: "('sk, 'pe) start_io \<Rightarrow> enroll_config option \<Rightarrow> 'pe start_error + ca option" where
  "load_ca io cfg =
     (case cfg of
        None \<Rightarrow> Inr None
      | Some e \<Rightarrow>
          (case si_ca io (ec_ca_cert_pem e) (ec_ca_key_pem e) (ec_cert_ttl_days e) of None \<Rightarrow> Inl CaError | Some ca \<Rightarrow> Inr (Some ca)))"

definition build_review :: "('sk, 'pe) start_io \<Rightarrow> token_review_config option \<Rightarrow> 'pe start_error + token_review option" where
  "build_review io cfg =
     (case cfg of
        None \<Rightarrow> Inr None
      | Some c \<Rightarrow>
          (case si_review io c of None \<Rightarrow> Inl ReviewError | Some call \<Rightarrow> Inr (Some \<lparr>tr_audience = tc_audience c, tr_call = call\<rparr>)))"

text \<open>The remediation side: signer, templates, store, knowledge base and policy engine, in this order.\<close>

definition start_app ::
    "serde \<Rightarrow> ('sk, 'vk) crypto \<Rightarrow> ('sk, 'pe) start_io \<Rightarrow> ('a, 'f) server_config \<Rightarrow> 'pe start_error + 'sk app_state" where
  "start_app S C io cfg =
     (case load_or_generate_with_previous S C (si_fresh_key io) (si_key_location io (sc_command_key_path cfg))
             (si_previous_keys io (sc_command_previous_keys_dir cfg)) of
        Inl e \<Rightarrow> Inl (SignerError e)
      | Inr signer \<Rightarrow>
     (case load_dir (si_template_parse io) (si_template_dir io (sc_templates_dir cfg)) of
        Inl e \<Rightarrow> Inl (TemplateError e)
      | Inr templates \<Rightarrow>
     (case si_rows io of
        None \<Rightarrow> Inl StoreError
      | Some rows \<Rightarrow>
     (case (case sc_kb_dir cfg of
              None \<Rightarrow> Some \<lparr>kb_enabled = False, kb_files = Map.empty\<rparr>
            | Some d \<Rightarrow> map_option (\<lambda>fs. \<lparr>kb_enabled = True, kb_files = fs\<rparr>) (si_kb_files io d)) of
        None \<Rightarrow> Inl KbError
      | Some kb \<Rightarrow>
     (case (case pc_file (sc_policy cfg) of
              Some path \<Rightarrow> policy_load_file (si_policy_parse io) (si_policy_file io path)
            | None \<Rightarrow> Inr \<lparr>pol_rules = []\<rparr>) of
        Inl e \<Rightarrow> Inl (PolicyError e)
      | Inr pol \<Rightarrow>
          Inr \<lparr>app_templates = templates, app_signer = signer, app_ttl = sc_command_ttl_secs cfg,
               app_policy = policy_engine_new pol (pc_auto_enabled (sc_policy cfg)) (pc_auto_max (sc_policy cfg))
                 (unat (pc_auto_window_secs (sc_policy cfg)) * 10 ^ 9),
               app_queue = queue_default, app_store = store_new S rows, app_kb = kb, app_metrics = [], app_events = []\<rparr>)))))"

definition start_up ::
    "serde \<Rightarrow> ('sk, 'vk) crypto \<Rightarrow> ('a, 'f) server_env \<Rightarrow> ('sk, 'pe) start_io \<Rightarrow> 'w fetcher \<Rightarrow> 'w
      \<Rightarrow> ('pe start_error + http_config \<times> 'sk app_state) \<times> 'w" where
  "start_up S C V io fetch w =
     (case server_config_from_env V of
        Inl e \<Rightarrow> (Inl (ConfigError e), w)
      | Inr cfg \<Rightarrow>
          if \<not> si_database io then (Inl DatabaseError, w)
          else if \<not> si_nats io then (Inl NatsError, w)
          else
     (case load_ca io (sc_enroll cfg) of Inl e \<Rightarrow> (Inl e, w) | Inr ca \<Rightarrow>
     (case build_ingest_auth V io fetch (sc_ingest_auth cfg) w of (Inl e, w1) \<Rightarrow> (Inl e, w1) | (Inr ingest, w1) \<Rightarrow>
     (case build_user_auth V io fetch (sc_oidc cfg) w1 of (Inl e, w2) \<Rightarrow> (Inl e, w2) | (Inr user, w2) \<Rightarrow>
     (case build_review io (sc_token_review cfg) of Inl e \<Rightarrow> (Inl e, w2) | Inr review \<Rightarrow>
     (case start_app S C io cfg of Inl e \<Rightarrow> (Inl e, w2) | Inr app \<Rightarrow>
        (Inr (\<lparr>hc_admin_token = sc_admin_token cfg, hc_viewer_token = sc_viewer_token cfg,
               hc_user_auth = map_option fst user, hc_ingest_auth = ingest, hc_token_review = review,
               hc_ca = ca, hc_enroll_token = map_option ec_bootstrap_token (sc_enroll cfg),
               hc_oidc_public = map_option snd user, hc_inference = (sc_inference cfg \<noteq> None)\<rparr>, app), w2)))))))"

section \<open>The token bucket\<close>

text \<open>
  The floating-point operations the bucket uses; \<open>fo_secs\<close> is \<open>as_secs_f64\<close> of a duration in
  nanoseconds.
\<close>

record 'f f64_ops =
  fo_zero :: 'f
  fo_one :: 'f
  fo_max :: 'f
  fo_add :: "'f \<Rightarrow> 'f \<Rightarrow> 'f"
  fo_sub :: "'f \<Rightarrow> 'f \<Rightarrow> 'f"
  fo_mul :: "'f \<Rightarrow> 'f \<Rightarrow> 'f"
  fo_min :: "'f \<Rightarrow> 'f \<Rightarrow> 'f"
  fo_ge :: "'f \<Rightarrow> 'f \<Rightarrow> bool"
  fo_secs :: "nat \<Rightarrow> 'f"

record 'f token_bucket =
  tb_capacity :: 'f
  tb_tokens :: 'f
  tb_refill_rate :: 'f
  tb_last_refill :: nat

definition bucket_new :: "'f \<Rightarrow> 'f \<Rightarrow> nat \<Rightarrow> 'f token_bucket" where
  "bucket_new capacity rate now =
     \<lparr>tb_capacity = capacity, tb_tokens = capacity, tb_refill_rate = rate, tb_last_refill = now\<rparr>"

definition bucket_consume :: "'f f64_ops \<Rightarrow> nat \<Rightarrow> 'f \<Rightarrow> 'f token_bucket \<Rightarrow> bool \<times> 'f token_bucket" where
  "bucket_consume F now amount b =
     (let elapsed = fo_secs F (now - tb_last_refill b);
          tokens = fo_min F (fo_add F (tb_tokens b) (fo_mul F elapsed (tb_refill_rate b))) (tb_capacity b);
          b' = b\<lparr>tb_tokens := tokens, tb_last_refill := now\<rparr>
      in if fo_ge F tokens amount then (True, b'\<lparr>tb_tokens := fo_sub F tokens amount\<rparr>) else (False, b'))"

end
