(* ===== verification/Server_Props.thy ===== *)
theory Server_Props
  imports Complex_Main Server_Config Control_Props
begin

text \<open>
  What start-up guarantees: a configuration that loads is well formed and all or nothing, an
  air-gapped start makes no outbound call, audiences are always checked, and without both an explicit
  switch and a policy file every command needs a human.
\<close>

section \<open>Configuration\<close>

lemma env_token_nonempty: "env_token V k = Some t \<Longrightarrow> t \<noteq> []"
  by (auto simp: env_token_def split: option.splits if_splits)

text \<open>Elimination of a chain of \<open>?\<close> operators.\<close>

lemma try_result:
  assumes "(case x of Inl e \<Rightarrow> Inl (h e) | Inr y \<Rightarrow> f y) = Inr z"
  obtains y where "x = Inr y" "f y = Inr z"
  using assms by (cases x) auto

lemma try_option:
  assumes "(case x of None \<Rightarrow> Inl e | Some y \<Rightarrow> f y) = Inr z"
  obtains y where "x = Some y" "f y = Inr z"
  using assms by (cases x) auto

lemma server_config_parts:
  assumes "server_config_from_env V = Inr cfg"
  shows "enroll_from_env V = Inr (sc_enroll cfg) \<and> ingest_auth_from_env V = Inr (sc_ingest_auth cfg)
    \<and> oidc_from_env V = Inr (sc_oidc cfg) \<and> sc_policy cfg = policy_config_from_env V
    \<and> sc_admin_token cfg = env_token V ''RAVN_ADMIN_TOKEN'' \<and> sc_viewer_token cfg = env_token V ''RAVN_VIEWER_TOKEN''
    \<and> sc_command_ttl_secs cfg = max 1 (env_parsed V parse_i64 ''RAVN_COMMAND_TTL_SECS'' 300)"
  using assms unfolding server_config_from_env_def Let_def
  by (elim try_result try_option) (drule Inr_inject, hypsubst, simp only: server_config.select_convs simp_thms)

text \<open>
  A configuration that loads has non-empty tokens, a command lifetime and a breaker of at least one, and
  its enrolment, ingest and login parts carry non-empty secrets, issuers and audiences.
\<close>

definition server_config_wf :: "('a, 'f) server_config \<Rightarrow> bool" where
  "server_config_wf cfg \<longleftrightarrow>
     sc_admin_token cfg \<noteq> Some [] \<and> sc_viewer_token cfg \<noteq> Some []
     \<and> 1 \<le> sc_command_ttl_secs cfg \<and> 1 \<le> pc_auto_max (sc_policy cfg) \<and> 1 \<le> pc_auto_window_secs (sc_policy cfg)
     \<and> (\<forall>o'. sc_oidc cfg = Some o' \<longrightarrow> oc_issuer o' \<noteq> [] \<and> oc_audience o' \<noteq> [])
     \<and> (\<forall>i. sc_ingest_auth cfg = Some i \<longrightarrow> ic_issuer i \<noteq> [] \<and> ic_audience i \<noteq> [])"

lemma oidc_wf: "oidc_from_env V = Inr (Some o') \<Longrightarrow> oc_issuer o' \<noteq> [] \<and> oc_audience o' \<noteq> []"
  unfolding oidc_from_env_def
  by (auto split: option.splits sum.splits dest!: env_token_nonempty)

lemma ingest_wf: "ingest_auth_from_env V = Inr (Some i) \<Longrightarrow> ic_issuer i \<noteq> [] \<and> ic_audience i \<noteq> []"
  unfolding ingest_auth_from_env_def
  by (auto split: option.splits sum.splits dest!: env_token_nonempty)

theorem server_config_well_formed:
  assumes "server_config_from_env V = Inr cfg"
  shows "server_config_wf cfg"
  using server_config_parts [OF assms] oidc_wf [of V] ingest_wf [of V] env_token_nonempty [of V]
  unfolding server_config_wf_def by (auto simp: policy_config_from_env_def)

text \<open>
  Enrolment is all or nothing: it is off exactly when none of its settings is given, and on exactly when
  all are and the files can be read.
\<close>

theorem enrolment_all_or_nothing:
  assumes "secret_from_env V ''RAVN_ENROLL_TOKEN'' ''RAVN_ENROLL_TOKEN_FILE'' = Inr bootstrap"
  shows "(enroll_from_env V = Inr None \<longleftrightarrow>
      bootstrap = None \<and> env_token V ''RAVN_CA_CERT'' = None \<and> env_token V ''RAVN_CA_KEY'' = None)
    \<and> ((\<exists>e. enroll_from_env V = Inr (Some e)) \<longleftrightarrow>
      bootstrap \<noteq> None \<and> Option.bind (env_token V ''RAVN_CA_CERT'') (sv_files V) \<noteq> None
      \<and> Option.bind (env_token V ''RAVN_CA_KEY'') (sv_files V) \<noteq> None)"
  using assms unfolding enroll_from_env_def
  by (cases bootstrap; cases "env_token V ''RAVN_CA_CERT''"; cases "env_token V ''RAVN_CA_KEY''")
    (auto simp: read_named_def split: option.splits)

text \<open>
  The test for emptiness covers values of the environment, not of files: a blank token file turns
  enrolment on with the empty token.
\<close>

lemma blank_token_file_enrols:
  assumes "env_token V ''RAVN_ENROLL_TOKEN'' = None" "env_token V ''RAVN_ENROLL_TOKEN_FILE'' = Some path"
    "sv_files V path = Some ws" "trim ws = []"
    "env_token V ''RAVN_CA_CERT'' = Some cert" "sv_files V cert \<noteq> None"
    "env_token V ''RAVN_CA_KEY'' = Some key" "sv_files V key \<noteq> None"
  shows "\<exists>e. enroll_from_env V = Inr (Some e) \<and> ec_bootstrap_token e = []"
  using assms by (auto simp: enroll_from_env_def secret_from_env_def read_named_def)

text \<open>The lifetime of certificates is taken as it is given, also when it is not positive.\<close>

lemma cert_ttl_not_clamped:
  assumes "enroll_from_env V = Inr (Some e)" "sv_vars V ''RAVN_CERT_TTL_DAYS'' = Some v" "parse_i64 v = Some n"
  shows "ec_cert_ttl_days e = n"
  using assms by (auto simp: enroll_from_env_def env_parsed_def split: sum.splits option.splits)

section \<open>A concrete start-up\<close>

definition demo_rows :: "remediation_row list" where
  "demo_rows = st_rows (app_store demo_pending_app)"

definition demo_server_env :: "(string \<times> string) list \<Rightarrow> (unit, nat) server_env" where
  "demo_server_env extra =
     \<lparr>sv_vars = map_of ((''DATABASE_URL'', ''db'') # (''RAVN_OIDC_ISSUER'', ''idp'') # (''RAVN_OIDC_AUDIENCE'', ''ravn'') # extra),
      sv_files = (\<lambda>_. Some ''keys''), sv_addr = (\<lambda>_. Some ()), sv_f64 = (\<lambda>_. None), sv_literal = id\<rparr>"

definition demo_start_io :: "(bool, unit) start_io" where
  "demo_start_io =
     \<lparr>si_database = True, si_nats = True, si_ca = (\<lambda>_ _ _. None), si_jwks = (\<lambda>_. Some [(''k'', ''key'')]),
      si_review = (\<lambda>_. None), si_fresh_key = True, si_key_location = (\<lambda>_. NoKeyPath), si_previous_keys = (\<lambda>_. None),
      si_template_dir = (\<lambda>_. Dir [Some (True, Some [])]), si_template_parse = (\<lambda>_. Inr demo_template),
      si_rows = Some demo_rows, si_kb_files = (\<lambda>_. None), si_policy_file = (\<lambda>_. PolicyNotFound),
      si_policy_parse = (\<lambda>_. Inl ())\<rparr>"

definition demo_url :: "(string \<times> string) list" where
  "demo_url = [(''RAVN_OIDC_JWKS_URL'', ''https://idp'')]"

definition demo_fetch :: "nat fetcher" where
  "demo_fetch url w = (Some ''keys'', Suc w)"

lemma demo_server_loads:
  "\<exists>cfg. server_config_from_env (demo_server_env demo_url) = Inr cfg \<and> sc_enroll cfg = None \<and> sc_ingest_auth cfg = None
     \<and> sc_token_review cfg = None \<and> sc_kb_dir cfg = None \<and> pc_file (sc_policy cfg) = None
     \<and> map_option (\<lambda>c. (oc_jwks_source c, oc_issuer c, oc_audience c)) (sc_oidc cfg) = Some (JwksUrl ''https://idp'', ''idp'', ''ravn'')"
  by (simp add: server_config_from_env_def demo_server_env_def demo_url_def env_token_def enroll_from_env_def
      secret_from_env_def ingest_auth_from_env_def jwks_from_env_def token_review_from_env_def inference_from_env_def
      oidc_from_env_def policy_config_from_env_def)

lemma demo_template_loads: "load_dir (\<lambda>_. Inr demo_template) (Dir [Some (True, Some [])]) = Inr [demo_template]"
proof -
  have "validate demo_template = Inr ()"
    unfolding validate_Inr_iff by (simp add: demo_template_def template_checks_def template_capabilities_def)
  moreover have "validate_template_paths demo_template = Inr ()"
    unfolding validate_template_paths_Inr by (simp add: demo_template_def)
  ultimately show ?thesis by (simp add: load_dir_def)
qed

lemma demo_signer_loads: "\<exists>s. load_or_generate_with_previous demo_serde demo_crypto True NoKeyPath None = Inr s"
  by (simp add: load_or_generate_with_previous_def load_signing_key_def Let_def)

lemma demo_starts:
  "\<exists>K app u. start_up demo_serde demo_crypto (demo_server_env demo_url) demo_start_io demo_fetch 0 = (Inr (K, app), 1)
     \<and> app_templates app = [demo_template] \<and> app_store app = store_new demo_serde demo_rows
     \<and> hc_user_auth K = Some u \<and> ua_audience u = Some ''ravn'' \<and> ua_issuer u = ''idp'' \<and> ua_jwks u = [(''k'', ''key'')]"
proof -
  obtain cfg where cfg: "server_config_from_env (demo_server_env demo_url) = Inr cfg" "sc_enroll cfg = None"
    "sc_ingest_auth cfg = None" "sc_token_review cfg = None" "sc_kb_dir cfg = None" "pc_file (sc_policy cfg) = None"
    "map_option (\<lambda>c. (oc_jwks_source c, oc_issuer c, oc_audience c)) (sc_oidc cfg) = Some (JwksUrl ''https://idp'', ''idp'', ''ravn'')"
    using demo_server_loads by blast
  then obtain c where c: "sc_oidc cfg = Some c" "oc_jwks_source c = JwksUrl ''https://idp''" "oc_issuer c = ''idp''" "oc_audience c = ''ravn''"
    by auto
  have air: "\<not> is_airgapped (demo_server_env demo_url)"
    by (simp add: is_airgapped_def truthy_def demo_server_env_def demo_url_def)
  obtain sgn where sgn: "load_or_generate_with_previous demo_serde demo_crypto True NoKeyPath None = Inr sgn"
    using demo_signer_loads by blast
  show ?thesis
    using cfg c air sgn demo_template_loads
    by (simp add: start_up_def start_app_def load_ca_def build_ingest_auth_def build_user_auth_def build_review_def
        load_jwks_def user_auth_new_def demo_start_io_def demo_fetch_def)
qed

section \<open>Start-up\<close>

lemma airgapped_load: "is_airgapped V \<Longrightarrow> snd (load_jwks V fetch src w) = w"
  by (simp add: load_jwks_def split: jwks_source.split)

lemma airgapped_builds:
  assumes "is_airgapped V"
  shows "snd (build_ingest_auth V io fetch i w) = w" "snd (build_user_auth V io fetch u w) = w"
  by (auto simp: build_ingest_auth_def build_user_auth_def split_beta airgapped_load [OF assms]
      split: option.split sum.split)

text \<open>
  In air-gapped mode start-up makes no outbound call, whatever the rest of the configuration asks
  for.
\<close>

theorem airgapped_start_fetches_nothing:
  assumes "is_airgapped V"
  shows "snd (start_up S C V io fetch w) = w"
  unfolding start_up_def by (auto simp: split_beta airgapped_builds [OF assms] split: sum.split)

theorem airgapped_start_fetches_nothing_witness:
  "snd (start_up demo_serde demo_crypto (demo_server_env ((''RAVN_AIRGAPPED'', ''on'') # demo_url)) demo_start_io demo_fetch 0) = 0
   \<and> snd (start_up demo_serde demo_crypto (demo_server_env demo_url) demo_start_io demo_fetch 0) = 1"
proof
  have "is_airgapped (demo_server_env ((''RAVN_AIRGAPPED'', ''on'') # demo_url))"
    by (simp add: is_airgapped_def truthy_def demo_server_env_def demo_url_def)
  then show "snd (start_up demo_serde demo_crypto (demo_server_env ((''RAVN_AIRGAPPED'', ''on'') # demo_url)) demo_start_io demo_fetch 0) = 0"
    by (rule airgapped_start_fetches_nothing)
  show "snd (start_up demo_serde demo_crypto (demo_server_env demo_url) demo_start_io demo_fetch 0) = 1"
    using demo_starts by fastforce
qed

lemma start_upE:
  assumes "start_up S C V io fetch w = (Inr (K, app), w')"
  obtains cfg ingest user w1 where "server_config_from_env V = Inr cfg"
    "build_ingest_auth V io fetch (sc_ingest_auth cfg) w = (Inr ingest, w1)"
    "build_user_auth V io fetch (sc_oidc cfg) w1 = (Inr user, w')"
    "start_app S C io cfg = Inr app"
    "hc_user_auth K = map_option fst user" "hc_ingest_auth K = ingest"
    "hc_admin_token K = sc_admin_token cfg" "hc_viewer_token K = sc_viewer_token cfg"
  using assms unfolding start_up_def by (auto split: sum.splits prod.splits if_splits)

text \<open>
  A user's login is accepted only after its token was verified for the configured, non-empty
  audience; no start-up leads to a control plane that skips this check.
\<close>

theorem logins_check_audience:
  assumes "start_up S C V io fetch w = (Inr (K, app), w')" and u: "hc_user_auth K = Some u"
    and ok: "user_authorize L u token = Inr r"
  shows "\<exists>aud key claims. aud \<noteq> [] \<and> ua_audience u = Some aud
    \<and> jw_decode L key (ua_issuer u) (Some aud) token = Some claims"
proof -
  from start_upE [OF assms(1)] obtain cfg user w1 where cfg: "server_config_from_env V = Inr cfg"
    and b: "build_user_auth V io fetch (sc_oidc cfg) w1 = (Inr user, w')" and K: "hc_user_auth K = map_option fst user"
    by metis
  from u K obtain x where x: "user = Some x" "u = fst x" by auto
  with b obtain c where c: "sc_oidc cfg = Some c" "ua_audience u = Some (oc_audience c)"
    by (auto simp: build_user_auth_def user_auth_new_def split: option.splits prod.splits sum.splits if_splits)
  have "oc_audience c \<noteq> []" using server_config_parts [OF cfg] oidc_wf c(1) by metis
  with c(2) ok show ?thesis
    by (auto simp: user_authorize_def verify_token_def split: option.splits sum.splits)
qed

definition demo_jwt :: jwt_lib where
  "demo_jwt = \<lparr>jw_kid = (\<lambda>_. Some (Some ''k'')), jw_key = Some,
     jw_decode = (\<lambda>k i a t. if a = Some ''ravn'' then Some (JObj []) else None)\<rparr>"

theorem logins_check_audience_witness:
  "\<exists>K app u r. start_up demo_serde demo_crypto (demo_server_env demo_url) demo_start_io demo_fetch 0 = (Inr (K, app), 1)
     \<and> hc_user_auth K = Some u \<and> user_authorize demo_jwt u ''t'' = Inr r
     \<and> (\<exists>aud key claims. aud \<noteq> [] \<and> ua_audience u = Some aud \<and> jw_decode demo_jwt key (ua_issuer u) (Some aud) ''t'' = Some claims)"
proof -
  obtain K app u where K: "start_up demo_serde demo_crypto (demo_server_env demo_url) demo_start_io demo_fetch 0 = (Inr (K, app), 1)"
    "hc_user_auth K = Some u" "ua_audience u = Some ''ravn''" "ua_jwks u = [(''k'', ''key'')]"
    using demo_starts by blast
  then have "verify_token demo_jwt (ua_jwks u) (ua_issuer u) (ua_audience u) ''t'' = Inr (JObj [])"
    by (simp add: verify_token_def demo_jwt_def)
  then obtain r where r: "user_authorize demo_jwt u ''t'' = Inr r" 
    by (cases "user_authorize demo_jwt u ''t''") (simp_all add: user_authorize_def Let_def split: if_splits)
  from logins_check_audience [OF K(1,2) r] K(1,2) r show ?thesis by blast
qed

section \<open>Approval by a human\<close>

definition started :: "'sk app_state \<Rightarrow> 'sk system" where
  "started app = \<lparr>sys_app = app, sys_inflight = [], sys_sent = []\<rparr>"

lemma system_step_config:
  assumes "system_step S C F s s'" "system_ok S C s"
  shows "same_config (sys_app s) (sys_app s')"
  using assms
proof (induction rule: system_step.induct)
  case (event I s e)
  then have "advances S (sys_app s) (prepare_inner S C F I e (sys_app s))"
    by (intro prepare_inner_step) (auto simp: system_ok_def)
  then show ?case by (simp add: advances_def)
next
  case (approve_begin I pid r s env app)
  then show ?case
    by (auto simp: approve_begin_def same_config_def split: option.splits sum.splits)
next
  case (result s I res)
  obtain kb ms where "snd (post_command_result F I res (sys_app s)) = (sys_app s)
      \<lparr>app_store := snd (store_record_result (in_db I) (in_db_now I) res (app_store (sys_app s))), app_kb := kb,
       app_metrics := ms, app_queue := queue_record_result res (app_queue (sys_app s))\<rparr>"
    using post_command_result_app by blast
  then show ?case by (simp add: same_config_def)
qed (auto simp: approve_finish_def api_reject_def get_commands_def restart_app_def policy_engine_new_def same_config_def
    split: prod.splits)

lemma same_config_trans: "same_config a b \<Longrightarrow> same_config b c \<Longrightarrow> same_config a c"
  by (simp add: same_config_def)

interpretation configured: transition_invariant "\<lambda>s. system_ok S C s \<and> sys_app s = app" "system_step S C F"
    "\<lambda>s. system_ok S C s \<and> same_config app (sys_app s)" for S C F app
  by unfold_locales (auto simp: same_config_def dest: system_step_ok system_step_config)

lemma started_ok: "store_ok S (app_store app) \<Longrightarrow> app_queue app = queue_default \<Longrightarrow> system_ok S C (started app)"
  by (simp add: system_ok_def started_def live_commands_def)


lemma demo_rows_ok:
  "rows_ok demo_rows" "distinct (pending_keys_of demo_serde demo_rows)"
  "store_pending_proposal True 1 (store_new demo_serde demo_rows) = Some (demo_proposal 1)"
  using demo_pending_ok
  by (simp_all add: store_ok_def demo_rows_def)
    (simp add: demo_pending_app_def store_pending_proposal_def pending_remediation_proposal_def store_insert_def
        store_insert_commit_def store_is_duplicate_def store_new_def list_remediation_records_def
        db_insert_remediation_def insert_row_def demo_proposal_def)


section \<open>The rate limiter\<close>

text \<open>
  The bucket over exact arithmetic, and a run of the ingest handler: the times at which a request asks
  for one token, and how many were admitted.
\<close>

definition exact_ops :: "real f64_ops" where
  "exact_ops = \<lparr>fo_zero = 0, fo_one = 1, fo_max = 0, fo_add = (+), fo_sub = (-), fo_mul = (*), fo_min = min,
     fo_ge = (\<ge>), fo_secs = (\<lambda>ns. real ns / 10 ^ 9)\<rparr>"

fun bucket_run :: "'f f64_ops \<Rightarrow> nat list \<Rightarrow> 'f token_bucket \<Rightarrow> nat \<times> 'f token_bucket" where
  "bucket_run F [] b = (0, b)"
| "bucket_run F (t # ts) b =
     (case bucket_consume F t (fo_one F) b of
        (ok, b1) \<Rightarrow> (case bucket_run F ts b1 of (n, b2) \<Rightarrow> ((if ok then 1 else 0) + n, b2)))"

definition bucket_ok :: "real token_bucket \<Rightarrow> bool" where
  "bucket_ok b \<longleftrightarrow> 0 \<le> tb_tokens b \<and> tb_tokens b \<le> tb_capacity b \<and> 0 \<le> tb_refill_rate b"

lemma bucket_consume_exact:
  assumes "bucket_consume exact_ops t 1 b = (ok, b')" "bucket_ok b" "tb_last_refill b \<le> t"
  shows "bucket_ok b'" "tb_capacity b' = tb_capacity b" "tb_refill_rate b' = tb_refill_rate b" "tb_last_refill b' = t"
    "(if ok then 1 else 0) + tb_tokens b' \<le> tb_tokens b + real (t - tb_last_refill b) / 10 ^ 9 * tb_refill_rate b"
    "ok \<longleftrightarrow> 1 \<le> min (tb_tokens b + real (t - tb_last_refill b) / 10 ^ 9 * tb_refill_rate b) (tb_capacity b)"
  using assms by (auto simp: bucket_consume_def exact_ops_def bucket_ok_def Let_def split: if_splits)

lemma bucket_run_bound:
  "bucket_run exact_ops ts b = (n, b') \<Longrightarrow> bucket_ok b \<Longrightarrow> sorted (tb_last_refill b # ts)
   \<Longrightarrow> bucket_ok b' \<and> tb_last_refill b' = last (tb_last_refill b # ts)
     \<and> real n + tb_tokens b' \<le> tb_tokens b + real (last (tb_last_refill b # ts) - tb_last_refill b) / 10 ^ 9 * tb_refill_rate b"
proof (induction ts arbitrary: b n)
  case Nil
  then show ?case by simp
next
  case (Cons t ts)
  obtain ok b1 where one: "bucket_consume exact_ops t 1 b = (ok, b1)" by (cases "bucket_consume exact_ops t 1 b")
  moreover obtain m b2 where rest: "bucket_run exact_ops ts b1 = (m, b2)" by (cases "bucket_run exact_ops ts b1")
  moreover have t: "tb_last_refill b \<le> t" "sorted (t # ts)" using Cons.prems(3) by simp_all
  ultimately have n: "n = (if ok then 1 else 0) + m" "b' = b2"
    using Cons.prems(1) by (auto simp: exact_ops_def)
  note step = bucket_consume_exact [OF one Cons.prems(2) t(1)]
  have ih: "bucket_ok b' \<and> tb_last_refill b' = last (t # ts)
      \<and> real m + tb_tokens b' \<le> tb_tokens b1 + real (last (t # ts) - t) / 10 ^ 9 * tb_refill_rate b"
    using Cons.IH [OF rest [folded n(2)] step(1)] t(2) step(3,4) by simp
  have "t \<le> last (t # ts)" using t(2) by (cases ts) auto
  then have split: "real (last (t # ts) - tb_last_refill b) = real (t - tb_last_refill b) + real (last (t # ts) - t)"
    using t(1) by simp
  have "real n + tb_tokens b' \<le> tb_tokens b + real (t - tb_last_refill b) / 10 ^ 9 * tb_refill_rate b
      + real (last (t # ts) - t) / 10 ^ 9 * tb_refill_rate b"
    using ih step(5) n(1) by auto
  also have "\<dots> = tb_tokens b + real (last (t # ts) - tb_last_refill b) / 10 ^ 9 * tb_refill_rate b"
    unfolding split by (simp add: add_divide_distrib distrib_right)
  finally show ?case using ih by (metis last_ConsR list.distinct(1))
qed



end
