(* ===== verification/Eval.thy ===== *)
theory Eval
  imports Complex_Main Agent_Loop "HOL-Library.Product_Lexorder"
begin

text \<open>
  The evaluation harness \<^verbatim>\<open>crates/ravn-eval\<close>: the rubric that scores an explanation, the corpus,
  the backends, the scoring loop, the report and the command line. Floating-point numbers are read as
  exact reals (no rounding, no NaN: every number here is a quotient of counts or comes from a JSON
  document, which has no NaN). Unicode lowercasing, the JSON readers, number formatting, files and the
  model server are parameters.
\<close>

section \<open>The corpus\<close>

type_synonym f64 = real

datatype category = CatFailedUnit | CatOomKill | CatAuthAnomaly | CatConfigDrift

fun category_label :: "category \<Rightarrow> string" where
  "category_label CatFailedUnit = ''failed unit''"
| "category_label CatOomKill = ''OOM kill''"
| "category_label CatAuthAnomaly = ''auth anomaly''"
| "category_label CatConfigDrift = ''config drift''"

record reference =
  rf_category :: category
  rf_reference_explanation :: string
  rf_must_mention :: "string list"
  rf_forbidden :: "string list"
  rf_expected_check :: "string option"
  rf_check_keywords :: "string list"

record fixture =
  fx_name :: string
  fx_event :: event
  fx_reference :: reference

datatype eval_error =
    CorpusUnreadable
  | CorpusEntry
  | CorpusFile string
  | CorpusEvent string
  | NoReferenceFile string
  | BadReference string
  | NoManifest
  | BadManifest
  | NoRecording string
  | RequestFailed
  | RecordingsUnreadable
  | NoResults
  | PageNotWritten

text \<open>The libraries: lowercasing, the JSON readers of the corpus, number formatting and parsing.\<close>

record eval_lib =
  el_lowercase :: "string \<Rightarrow> string"
  el_infer :: infer_lib
  el_event :: "string \<Rightarrow> event option"
  el_reference :: "string \<Rightarrow> reference option"
  el_fixed :: "nat \<Rightarrow> f64 \<Rightarrow> string"
  el_parse_f64 :: "string \<Rightarrow> f64 option"

text \<open>A directory: the entries in the order the system lists them (or an error each), and its files.\<close>

record eval_dir =
  ed_entries :: "string option list option"
  ed_file :: "string \<Rightarrow> string option"

fun load_fixtures :: "eval_lib \<Rightarrow> eval_dir \<Rightarrow> string option list \<Rightarrow> eval_error + fixture list" where
  "load_fixtures L d [] = Inr []"
| "load_fixtures L d (None # es) = Inl CorpusEntry"
| "load_fixtures L d (Some f # es) =
     (case strip_suffix ''.event.json'' f of
        None \<Rightarrow> load_fixtures L d es
      | Some name \<Rightarrow>
          (case ed_file d f of
             None \<Rightarrow> Inl (CorpusFile f)
           | Some event_json \<Rightarrow>
          (case el_event L event_json of
             None \<Rightarrow> Inl (CorpusEvent f)
           | Some e \<Rightarrow>
          (case ed_file d (name @ ''.reference.json'') of
             None \<Rightarrow> Inl (NoReferenceFile name)
           | Some ref_json \<Rightarrow>
          (case el_reference L ref_json of
             None \<Rightarrow> Inl (BadReference name)
           | Some r \<Rightarrow>
          (case load_fixtures L d es of
             Inl err \<Rightarrow> Inl err
           | Inr out \<Rightarrow> Inr (\<lparr>fx_name = name, fx_event = e, fx_reference = r\<rparr> # out)))))))"

definition load_corpus :: "eval_lib \<Rightarrow> eval_dir \<Rightarrow> eval_error + fixture list" where
  "load_corpus L d =
     (case ed_entries d of
        None \<Rightarrow> Inl CorpusUnreadable
      | Some es \<Rightarrow> map_sum id (sort_key fx_name) (load_fixtures L d es))"

section \<open>The rubric\<close>

record score =
  s_non_empty :: bool
  s_grounded :: f64
  s_no_hallucination :: f64
  s_has_check :: bool
  s_check_specificity :: f64
  s_length_ok :: bool

definition f64_of_bool :: "bool \<Rightarrow> f64" where
  "f64_of_bool b = (if b then 1 else 0)"

definition faithfulness :: "score \<Rightarrow> f64" where
  "faithfulness s = (if \<not> s_non_empty s then 0 else 5/10 * s_grounded s + 5/10 * s_no_hallucination s)"

definition actionability :: "score \<Rightarrow> f64" where
  "actionability s = (if \<not> s_has_check s then 0 else 5/10 + 5/10 * s_check_specificity s)"

definition overall :: "score \<Rightarrow> f64" where
  "overall s = (if \<not> s_non_empty s then 0
     else 6/10 * faithfulness s + 3/10 * actionability s + 1/10 * f64_of_bool (s_length_ok s))"

definition opt_list :: "'a option \<Rightarrow> 'a list" where
  "opt_list x = (case x of None \<Rightarrow> [] | Some y \<Rightarrow> [y])"

fun payload_tokens :: "payload \<Rightarrow> string list" where
  "payload_tokens (Journald p) = opt_list (jd_unit p)"
| "payload_tokens (FailedUnit p) = [fu_unit p, fu_result p]"
| "payload_tokens (ConfigDrift p) = [last (split_on (CHR ''/'') (cd_path p))]"
| "payload_tokens (Auth p) = au_action p # opt_list (au_user p) @ opt_list (au_remote_addr p)"
| "payload_tokens (Update p) = up_mechanism p # opt_list (up_to p)"
| "payload_tokens (KubeWorkload p) = [kw_namespace p, kw_name p, kw_reason p]"
| "payload_tokens (KubeNode p) = [kn_node p, kn_condition p]"
| "payload_tokens (CircuitBreakerTrip p) = [cb_template_id p, cb_host p]"

definition salient_tokens :: "event \<Rightarrow> string list" where
  "salient_tokens e = filter (\<lambda>t. trim t \<noteq> []) (ev_host e # payload_tokens (ev_payload e))"

definition hits :: "eval_lib \<Rightarrow> string \<Rightarrow> string list \<Rightarrow> nat" where
  "hits L haystack needles = length (filter (\<lambda>n. contains haystack (el_lowercase L n)) needles)"

text \<open>\<open>retain\<close> with the set of keys seen so far.\<close>

fun retain_fresh :: "('a \<Rightarrow> 'k) \<Rightarrow> 'k set \<Rightarrow> 'a list \<Rightarrow> 'a list" where
  "retain_fresh key seen [] = []"
| "retain_fresh key seen (x # xs) =
     (if key x \<in> seen then retain_fresh key seen xs else x # retain_fresh key (insert (key x) seen) xs)"

definition anchors_of :: "eval_lib \<Rightarrow> event \<Rightarrow> reference \<Rightarrow> string list" where
  "anchors_of L e r = retain_fresh (el_lowercase L) {} (salient_tokens e @ rf_must_mention r)"

definition score_explanation :: "eval_lib \<Rightarrow> event \<Rightarrow> reference \<Rightarrow> string \<Rightarrow> string option \<Rightarrow> score" where
  "score_explanation L e r explanation suggested_check =
     (let text = trim explanation;
          explanation_lc = el_lowercase L explanation;
          check_lc = el_lowercase L (case suggested_check of Some c \<Rightarrow> c | None \<Rightarrow> []);
          haystack = explanation_lc @ '' '' @ check_lc;
          anchors = anchors_of L e r;
          has_check = (case suggested_check of Some c \<Rightarrow> trim c \<noteq> [] | None \<Rightarrow> False)
      in \<lparr>s_non_empty = (text \<noteq> []),
          s_grounded = (if anchors = [] then 1 else real (hits L haystack anchors) / real (length anchors)),
          s_no_hallucination =
            (if rf_forbidden r = [] then 1
             else 1 - real (hits L explanation_lc (rf_forbidden r)) / real (length (rf_forbidden r))),
          s_has_check = has_check,
          s_check_specificity =
            (if rf_check_keywords r = [] then f64_of_bool has_check
             else if has_check then real (hits L check_lc (rf_check_keywords r)) / real (length (rf_check_keywords r))
             else 0),
          s_length_ok = (20 \<le> length (chars text) \<and> length (chars text) \<le> 600)\<rparr>)"

section \<open>Backends\<close>

record completion =
  cp_content :: string
  cp_latency_ms :: f64
  cp_gen_tps :: "f64 option"
  cp_prompt_tps :: "f64 option"

text \<open>
  The live server: the answer to a chat request (the contents of the choices and the timings), the
  time it took in milliseconds, and the text of its metrics page.
\<close>

record chat_response =
  ch_choices :: "string list"
  ch_timings :: "(f64 option \<times> f64 option) option"

record 'w llama_server =
  ls_post :: "string \<Rightarrow> string \<Rightarrow> string \<Rightarrow> string \<Rightarrow> 'w \<Rightarrow> chat_response option \<times> f64 \<times> 'w"
  ls_metrics :: "string \<Rightarrow> 'w \<Rightarrow> string option \<times> 'w"

record llama_backend =
  lb_name :: string
  lb_model :: string
  lb_endpoint :: string

definition llama_new :: "string \<Rightarrow> string \<Rightarrow> string \<Rightarrow> llama_backend" where
  "llama_new name model endpoint =
     \<lparr>lb_name = name, lb_model = model, lb_endpoint = trim_end_matches (CHR ''/'') endpoint\<rparr>"

fun resident_memory :: "eval_lib \<Rightarrow> string list \<Rightarrow> f64 option" where
  "resident_memory L [] = None"
| "resident_memory L (l # ls) =
     (case Option.bind (strip_prefix ''process_resident_memory_bytes '' l) (\<lambda>rest. el_parse_f64 L (trim rest)) of
        Some bytes \<Rightarrow> Some (bytes / (1024 * 1024))
      | None \<Rightarrow> resident_memory L ls)"

definition llama_memory_mb :: "eval_lib \<Rightarrow> 'w llama_server \<Rightarrow> llama_backend \<Rightarrow> 'w \<Rightarrow> f64 option \<times> 'w" where
  "llama_memory_mb L N B w =
     (case ls_metrics N (lb_endpoint B @ ''/metrics'') w of
        (None, w') \<Rightarrow> (None, w')
      | (Some body, w') \<Rightarrow> (resident_memory L (str_lines body), w'))"

definition llama_complete ::
    "eval_lib \<Rightarrow> 'w llama_server \<Rightarrow> llama_backend \<Rightarrow> event \<Rightarrow> 'w \<Rightarrow> (panic + eval_error + completion) \<times> 'w" where
  "llama_complete L N B e w =
     (case build_user_prompt (el_infer L) e of
        Inl p \<Rightarrow> (Inl p, w)
      | Inr user \<Rightarrow>
          (case ls_post N (lb_endpoint B @ ''/v1/chat/completions'') (lb_model B) system_prompt user w of
             (None, _, w') \<Rightarrow> (Inr (Inl RequestFailed), w')
           | (Some resp, ms, w') \<Rightarrow>
               (Inr (Inr
                 \<lparr>cp_content = (case ch_choices resp of c # _ \<Rightarrow> c | [] \<Rightarrow> []), cp_latency_ms = ms,
                  cp_gen_tps = Option.bind (ch_timings resp) snd, cp_prompt_tps = Option.bind (ch_timings resp) fst\<rparr>), w')))"

record recording_manifest =
  rm_model :: string
  rm_captured_on :: string
  rm_latency_ms :: f64
  rm_gen_tps :: "f64 option"
  rm_prompt_tps :: "f64 option"
  rm_mem_mb :: "f64 option"

text \<open>A recording: its manifest and the files beside it.\<close>

record recorded_backend =
  rb_file :: "string \<Rightarrow> string option"
  rb_manifest :: recording_manifest

definition recorded_load ::
    "(string \<Rightarrow> recording_manifest option) \<Rightarrow> (string \<Rightarrow> string option) \<Rightarrow> eval_error + recorded_backend" where
  "recorded_load parse file =
     (case file ''manifest.json'' of
        None \<Rightarrow> Inl NoManifest
      | Some json \<Rightarrow> (case parse json of None \<Rightarrow> Inl BadManifest | Some m \<Rightarrow> Inr \<lparr>rb_file = file, rb_manifest = m\<rparr>))"

definition read_recording :: "recorded_backend \<Rightarrow> string \<Rightarrow> eval_error + completion" where
  "read_recording B key =
     (case rb_file B (key @ ''.txt'') of
        None \<Rightarrow> Inl (NoRecording key)
      | Some content \<Rightarrow>
          Inr \<lparr>cp_content = content, cp_latency_ms = rm_latency_ms (rb_manifest B),
               cp_gen_tps = rm_gen_tps (rb_manifest B), cp_prompt_tps = rm_prompt_tps (rb_manifest B)\<rparr>)"

section \<open>The scoring loop\<close>

record event_result =
  er_name :: string
  er_category :: category
  er_latency_ms :: f64
  er_prompt_tps :: "f64 option"
  er_gen_tps :: "f64 option"
  er_score :: score

definition score_completion :: "eval_lib \<Rightarrow> fixture \<Rightarrow> completion \<Rightarrow> event_result" where
  "score_completion L f c =
     (case parse_explanation (el_infer L) (cp_content c) of
        (text, check) \<Rightarrow>
          \<lparr>er_name = fx_name f, er_category = rf_category (fx_reference f), er_latency_ms = cp_latency_ms c,
           er_prompt_tps = cp_prompt_tps c, er_gen_tps = cp_gen_tps c,
           er_score = score_explanation L (fx_event f) (fx_reference f) text check\<rparr>)"

definition mean_reported :: "f64 option list \<Rightarrow> f64 option" where
  "mean_reported values =
     (let reported = List.map_filter id values
      in if reported = [] then None else Some (sum_list reported / real (length reported)))"

record row =
  rw_model :: string
  rw_recorded :: bool
  rw_captured_on :: string
  rw_faithfulness :: f64
  rw_actionability :: f64
  rw_overall :: f64
  rw_latency_ms :: f64
  rw_prompt_tps :: "f64 option"
  rw_gen_tps :: "f64 option"
  rw_mem_mb :: "f64 option"
  rw_fixtures :: nat
  rw_per_category :: "(category \<times> f64) list"

definition mean_over :: "event_result list \<Rightarrow> (event_result \<Rightarrow> f64) \<Rightarrow> f64" where
  "mean_over results f = sum_list (map f results) / real (max (length results) 1)"

definition category_buckets :: "event_result list \<Rightarrow> (string, category \<times> f64 \<times> nat) btree" where
  "category_buckets results =
     fold (\<lambda>r. btree_alter
        (\<lambda>v. case (case v of None \<Rightarrow> (er_category r, 0, 0) | Some b \<Rightarrow> b) of
               (c, acc, n) \<Rightarrow> (c, acc + overall (er_score r), n + 1))
        (category_label (er_category r))) results []"

definition aggregate :: "string \<Rightarrow> bool \<Rightarrow> string \<Rightarrow> f64 option \<Rightarrow> event_result list \<Rightarrow> row" where
  "aggregate model recorded captured_on mem_mb results =
     \<lparr>rw_model = model, rw_recorded = recorded, rw_captured_on = captured_on,
      rw_faithfulness = mean_over results (\<lambda>r. faithfulness (er_score r)),
      rw_actionability = mean_over results (\<lambda>r. actionability (er_score r)),
      rw_overall = mean_over results (\<lambda>r. overall (er_score r)),
      rw_latency_ms = mean_over results er_latency_ms,
      rw_prompt_tps = mean_reported (map er_prompt_tps results),
      rw_gen_tps = mean_reported (map er_gen_tps results),
      rw_mem_mb = mem_mb, rw_fixtures = length results,
      rw_per_category = map (\<lambda>(_, c, acc, n). (c, acc / real n)) (category_buckets results)\<rparr>"

fun live_results ::
    "eval_lib \<Rightarrow> 'w llama_server \<Rightarrow> llama_backend \<Rightarrow> fixture list \<Rightarrow> 'w \<Rightarrow> (panic + eval_error + event_result list) \<times> 'w" where
  "live_results L N B [] w = (Inr (Inr []), w)"
| "live_results L N B (f # fs) w =
     (case llama_complete L N B (fx_event f) w of
        (Inl p, w1) \<Rightarrow> (Inl p, w1)
      | (Inr (Inl e), w1) \<Rightarrow> (Inr (Inl e), w1)
      | (Inr (Inr c), w1) \<Rightarrow>
          (case live_results L N B fs w1 of
             (Inr (Inr rs), w2) \<Rightarrow> (Inr (Inr (score_completion L f c # rs)), w2)
           | failed \<Rightarrow> failed))"

definition bench_live ::
    "eval_lib \<Rightarrow> 'w llama_server \<Rightarrow> llama_backend \<Rightarrow> fixture list \<Rightarrow> 'w \<Rightarrow> (panic + eval_error + row) \<times> 'w" where
  "bench_live L N B corpus w =
     (case live_results L N B corpus w of
        (Inl p, w1) \<Rightarrow> (Inl p, w1)
      | (Inr (Inl e), w1) \<Rightarrow> (Inr (Inl e), w1)
      | (Inr (Inr rs), w1) \<Rightarrow>
          (case llama_memory_mb L N B w1 of (mem, w2) \<Rightarrow> (Inr (Inr (aggregate (lb_name B) False [] mem rs)), w2)))"

definition bench_recorded :: "eval_lib \<Rightarrow> recorded_backend \<Rightarrow> fixture list \<Rightarrow> eval_error + row" where
  "bench_recorded L B corpus =
     (case traverse (\<lambda>f. map_sum id (score_completion L f) (read_recording B (fx_name f))) corpus of
        Inl e \<Rightarrow> Inl e
      | Inr rs \<Rightarrow> Inr (aggregate (rm_model (rb_manifest B)) True (rm_captured_on (rb_manifest B)) (rm_mem_mb (rb_manifest B)) rs))"

text \<open>The recordings root: its readable entries by path, each with its files.\<close>

definition run_all_recorded ::
    "eval_lib \<Rightarrow> (string \<Rightarrow> recording_manifest option) \<Rightarrow> (string \<times> (string \<Rightarrow> string option)) list \<Rightarrow> fixture list
      \<Rightarrow> eval_error + row list" where
  "run_all_recorded L parse recs corpus =
     traverse (\<lambda>(_, file). case recorded_load parse file of Inl e \<Rightarrow> Inl e | Inr B \<Rightarrow> bench_recorded L B corpus)
       (sort_key fst (filter (\<lambda>(_, file). file ''manifest.json'' \<noteq> None) recs))"

section \<open>The report\<close>

definition fmt_opt :: "eval_lib \<Rightarrow> f64 option \<Rightarrow> nat \<Rightarrow> string" where
  "fmt_opt L v prec = (case v of Some x \<Rightarrow> el_fixed L prec x | None \<Rightarrow> ''n/a'')"

text \<open>Overall quality descending, then the name.\<close>

definition sorted_rows :: "row list \<Rightarrow> row list" where
  "sorted_rows rows = sort_key (\<lambda>r. (- rw_overall r, rw_model r)) rows"

definition render_row :: "eval_lib \<Rightarrow> row \<Rightarrow> string" where
  "render_row L r =
     ''| '' @ join '' | ''
       [rw_model r, el_fixed L 2 (rw_overall r), el_fixed L 2 (rw_faithfulness r), el_fixed L 2 (rw_actionability r),
        el_fixed L 0 (rw_latency_ms r), fmt_opt L (rw_prompt_tps r) 0, fmt_opt L (rw_gen_tps r) 1, fmt_opt L (rw_mem_mb r) 0,
        if rw_recorded r then ''recorded'' else ''live''] @ '' |'' @ nl"

definition render_table :: "eval_lib \<Rightarrow> row list \<Rightarrow> string" where
  "render_table L rows =
     ''| Model | Overall | Faithful | Actionable | Latency ms | Prompt tok/s | Gen tok/s | Memory MiB | Source |'' @ nl
     @ ''|---|--:|--:|--:|--:|--:|--:|--:|:--|'' @ nl
     @ concat (map (render_row L) (sorted_rows rows))"

definition report_categories :: "row list \<Rightarrow> category list" where
  "report_categories rows = (case rows of r # _ \<Rightarrow> map fst (rw_per_category r) | [] \<Rightarrow> [])"

definition render_category_table :: "eval_lib \<Rightarrow> row list \<Rightarrow> string" where
  "render_category_table L rows =
     (let categories = report_categories rows
      in ''| Model |'' @ concat (map (\<lambda>c. '' '' @ category_label c @ '' |'') categories) @ nl
         @ ''|---|'' @ concat (map (\<lambda>_. ''--:|'') categories) @ nl
         @ concat (map (\<lambda>r. ''| '' @ rw_model r @ '' |''
             @ concat (map (\<lambda>c. '' '' @ fmt_opt L (map_of (rw_per_category r) c) 2 @ '' |'') categories) @ nl)
             (sorted_rows rows)))"

text \<open>The site page; \<open>dash\<close> and \<open>dot\<close> are the UTF-8 bytes of an em dash and a middle dot.\<close>

definition dash :: string where
  "dash = [CHR 0xE2, CHR 0x80, CHR 0x94]"

definition page_intro :: "nat \<Rightarrow> string" where
  "page_intro n =
     ''# Can a sub-2B CPU model handle the explanation last-mile?'' @ nl @ nl
     @ ''Ravn's detection is deterministic '' @ dash @ '' taps fire the alarm. The model only writes the ''
     @ ''plain-language explanation and suggests one check. This page scores small, CPU-friendly ''
     @ ''models on exactly that job, over a fixed corpus of real-shaped events.'' @ nl @ nl
     @ ''**Corpus:** '' @ show_nat n @ '' events across failed units, OOM kills, auth anomalies, and ''
     @ ''config drift. **Scoring:** deterministic, model-free (no LLM-as-judge).'' @ nl @ nl"

definition page_methodology :: string where
  "page_methodology =
     ''## Methodology'' @ nl @ nl
     @ ''- **Faithfulness** = grounded in the event's salient facts AND free of invented facts. ''
     @ ''Each fixture ships hallucination traps (causes *not* in the event); naming one costs ''
     @ ''points. This is the metric that catches fluent-but-wrong tiny models.'' @ nl
     @ ''- **Actionability** = a concrete `suggested_check` was offered AND it targets the right ''
     @ ''tool/subject (a generic '' @ [CHR 0x22] @ ''please investigate'' @ [CHR 0x22] @ '' scores low).'' @ nl
     @ ''- **Overall** = 0.6'' @ [CHR 0xC2, CHR 0xB7] @ ''faithfulness + 0.3'' @ [CHR 0xC2, CHR 0xB7]
     @ ''actionability + 0.1'' @ [CHR 0xC2, CHR 0xB7] @ ''length-sanity.'' @ nl
     @ ''- **Latency / memory** are measured against a live `llama-server` on CPU.'' @ nl @ nl"

definition page_provenance :: "row list \<Rightarrow> string" where
  "page_provenance rows =
     (let provenance = filter (\<lambda>r. rw_recorded r \<and> rw_captured_on r \<noteq> []) rows
      in if provenance = [] then []
         else ''### Recorded-run provenance'' @ nl @ nl
           @ concat (map (\<lambda>r. ''- **'' @ rw_model r @ ''** '' @ dash @ '' '' @ rw_captured_on r @ nl) provenance) @ nl)"

definition page_note :: "row list \<Rightarrow> string" where
  "page_note rows =
     (if list_ex (\<lambda>r. \<not> rw_recorded r) rows then []
      else ''> **Note:** every row on this page is a *recorded* run '' @ dash @ '' captured model output ''
        @ ''replayed through the live scoring harness. Re-run `ravn-eval --endpoint <url> ''
        @ ''--models ...` against a `llama-server` to produce live numbers. The scores, table, ''
        @ ''and methodology are identical; only the model responses are pre-captured.'' @ nl @ nl)"

definition page_reference :: "fixture \<Rightarrow> string" where
  "page_reference f =
     ''### '' @ fx_name f @ '' '' @ dash @ '' '' @ category_label (rf_category (fx_reference f)) @ nl @ nl
     @ rf_reference_explanation (fx_reference f) @ nl @ nl
     @ (case rf_expected_check (fx_reference f) of
          Some check \<Rightarrow> ''Ideal check: `'' @ check @ ''`'' @ nl @ nl
        | None \<Rightarrow> [])"

definition render_site_page :: "eval_lib \<Rightarrow> row list \<Rightarrow> fixture list \<Rightarrow> string" where
  "render_site_page L rows corpus =
     page_intro (length corpus)
     @ ''## Headline results'' @ nl @ nl @ render_table L rows @ nl
     @ ''## By category (overall quality)'' @ nl @ nl @ render_category_table L rows @ nl
     @ page_methodology @ page_provenance rows @ page_note rows
     @ ''## Reference answers'' @ nl @ nl
     @ ''The faithful, human-authored explanation and ideal check each fixture is scored against:'' @ nl @ nl
     @ concat (map page_reference corpus)"

section \<open>The command line\<close>

record eval_args =
  ea_endpoint :: "string option"
  ea_models :: "string list"
  ea_corpus :: string
  ea_out :: "string option"
  ea_validate_only :: bool

text \<open>\<open>None\<close>: help was asked for and the program exits.\<close>

fun parse_eval_args :: "string list \<Rightarrow> eval_args \<Rightarrow> eval_args option" where
  "parse_eval_args [] a = Some a"
| "parse_eval_args (arg # rest) a =
     (if arg = ''--endpoint'' then
        (case rest of [] \<Rightarrow> Some (a\<lparr>ea_endpoint := None\<rparr>) | v # rest \<Rightarrow> parse_eval_args rest (a\<lparr>ea_endpoint := Some v\<rparr>))
      else if arg \<in> {''--models'', ''--model''} then
        (case rest of
           [] \<Rightarrow> Some a
         | v # rest \<Rightarrow> parse_eval_args rest
             (a\<lparr>ea_models := ea_models a @ filter (\<lambda>s. s \<noteq> []) (map trim (split_on (CHR '','') v))\<rparr>))
      else if arg = ''--corpus'' then
        (case rest of [] \<Rightarrow> Some a | v # rest \<Rightarrow> parse_eval_args rest (a\<lparr>ea_corpus := v\<rparr>))
      else if arg = ''--out'' then
        (case rest of [] \<Rightarrow> Some (a\<lparr>ea_out := None\<rparr>) | v # rest \<Rightarrow> parse_eval_args rest (a\<lparr>ea_out := Some v\<rparr>))
      else if arg = ''--validate'' then parse_eval_args rest (a\<lparr>ea_validate_only := True\<rparr>)
      else if arg \<in> {''-h'', ''--help''} then None
      else parse_eval_args rest a)"

text \<open>A live model that fails is skipped; a panic is not caught.\<close>

fun bench_models ::
    "eval_lib \<Rightarrow> 'w llama_server \<Rightarrow> string \<Rightarrow> fixture list \<Rightarrow> string list \<Rightarrow> 'w \<Rightarrow> (panic + row list) \<times> 'w" where
  "bench_models L N endpoint corpus [] w = (Inr [], w)"
| "bench_models L N endpoint corpus (model # models) w =
     (let label = (if model = [] then ''<server default>'' else model)
      in case bench_live L N (llama_new label model endpoint) corpus w of
           (Inl p, w1) \<Rightarrow> (Inl p, w1)
         | (Inr r, w1) \<Rightarrow>
             (case bench_models L N endpoint corpus models w1 of
                (Inl p, w2) \<Rightarrow> (Inl p, w2)
              | (Inr rows, w2) \<Rightarrow> (Inr (case r of Inr row \<Rightarrow> row # rows | Inl _ \<Rightarrow> rows), w2)))"

datatype eval_outcome = Validated nat | Reported "row list" string "(string \<times> string) option"

definition eval_report ::
    "eval_lib \<Rightarrow> (string \<Rightarrow> string \<Rightarrow> bool) \<Rightarrow> string option \<Rightarrow> fixture list \<Rightarrow> row list \<Rightarrow> eval_error + eval_outcome" where
  "eval_report L writable out corpus rows =
     (if rows = [] then Inl NoResults
      else
        let printed = nl @ ''## Model comparison'' @ nl @ nl @ render_table L rows
              @ nl @ ''## By category'' @ nl @ nl @ render_category_table L rows
        in case out of
             None \<Rightarrow> Inr (Reported rows printed None)
           | Some path \<Rightarrow>
               let page = render_site_page L rows corpus
               in if writable path page then Inr (Reported rows printed (Some (path, page))) else Inl PageNotWritten)"

definition eval_main ::
    "eval_lib \<Rightarrow> 'w llama_server \<Rightarrow> (string \<Rightarrow> recording_manifest option) \<Rightarrow> (string \<Rightarrow> eval_dir)
      \<Rightarrow> (string \<times> (string \<Rightarrow> string option)) list option \<Rightarrow> (string \<Rightarrow> string \<Rightarrow> bool) \<Rightarrow> eval_args \<Rightarrow> 'w
      \<Rightarrow> (panic + eval_error + eval_outcome) \<times> 'w" where
  "eval_main L N parse dirs recs writable a w =
     (case load_corpus L (dirs (ea_corpus a)) of
        Inl e \<Rightarrow> (Inr (Inl e), w)
      | Inr corpus \<Rightarrow>
          if ea_validate_only a then (Inr (Inr (Validated (length corpus))), w)
          else
            (case ea_endpoint a of
               Some endpoint \<Rightarrow>
                 (case bench_models L N (trim_end_matches (CHR ''/'') endpoint) corpus
                         (if ea_models a = [] then [[]] else ea_models a) w of
                    (Inl p, w1) \<Rightarrow> (Inl p, w1)
                  | (Inr rows, w1) \<Rightarrow> (Inr (eval_report L writable (ea_out a) corpus rows), w1))
             | None \<Rightarrow>
                 (case recs of
                    None \<Rightarrow> (Inr (Inl RecordingsUnreadable), w)
                  | Some recordings \<Rightarrow>
                      (case run_all_recorded L parse recordings corpus of
                         Inl e \<Rightarrow> (Inr (Inl e), w)
                       | Inr rows \<Rightarrow> (Inr (eval_report L writable (ea_out a) corpus rows), w)))))"

end
