(* ===== verification/Eval_Props.thy ===== *)
theory Eval_Props
  imports Eval "HOL-Library.Multiset"
begin

text \<open>
  The evaluation harness: every score lies between 0 and 1 and is full exactly for an ideal answer, the
  rows of a report cover the whole corpus and keep those bounds, the report ranks the models, and the
  corpus does not depend on the order in which the system lists a directory.
\<close>

section \<open>The rubric\<close>

lemma hits_le: "hits L h ns \<le> length ns"
  by (simp add: hits_def)

lemma hits_all_iff: "hits L h ns = length ns \<longleftrightarrow> (\<forall>n\<in>set ns. contains h (el_lowercase L n))"
  unfolding hits_def by (induction ns) (auto simp: le_imp_less_Suc less_imp_neq)

lemma hits_none_iff: "hits L h ns = 0 \<longleftrightarrow> (\<forall>n\<in>set ns. \<not> contains h (el_lowercase L n))"
  by (auto simp: hits_def filter_empty_conv)

lemma hit_rate: "ns \<noteq> [] \<Longrightarrow> 0 \<le> real (hits L h ns) / real (length ns) \<and> real (hits L h ns) / real (length ns) \<le> 1"
  using hits_le [of L h ns] by (simp add: divide_le_eq_1)

lemma hit_rate_full:
  "ns \<noteq> [] \<Longrightarrow> real (hits L h ns) / real (length ns) = 1 \<longleftrightarrow> (\<forall>n\<in>set ns. contains h (el_lowercase L n))"
  using hits_all_iff [of L h ns] by (auto simp: field_simps)

lemma hit_rate_zero:
  "ns \<noteq> [] \<Longrightarrow> real (hits L h ns) / real (length ns) = 0 \<longleftrightarrow> (\<forall>n\<in>set ns. \<not> contains h (el_lowercase L n))"
  using hits_none_iff [of L h ns] by auto

definition unit_range :: "real \<Rightarrow> bool" where
  "unit_range x \<longleftrightarrow> 0 \<le> x \<and> x \<le> 1"

definition score_ok :: "score \<Rightarrow> bool" where
  "score_ok s \<longleftrightarrow> unit_range (s_grounded s) \<and> unit_range (s_no_hallucination s) \<and> unit_range (s_check_specificity s)"

lemma score_explanation_ok: "score_ok (score_explanation L e r ans check)"
  using hit_rate [of "anchors_of L e r" L] hit_rate [of "rf_forbidden r" L] hit_rate [of "rf_check_keywords r" L]
  by (auto simp: score_ok_def score_explanation_def Let_def unit_range_def f64_of_bool_def)

lemma weighted_unit_range:
  assumes "score_ok s"
  shows "unit_range (faithfulness s)" "unit_range (actionability s)" "unit_range (overall s)"
proof -
  show f: "unit_range (faithfulness s)" and a: "unit_range (actionability s)"
    using assms by (auto simp: score_ok_def unit_range_def faithfulness_def actionability_def)
  then show "unit_range (overall s)"
    by (auto simp: overall_def unit_range_def f64_of_bool_def)
qed

lemma overall_full:
  assumes "score_ok s"
  shows "overall s = 1 \<longleftrightarrow> s_non_empty s \<and> s_grounded s = 1 \<and> s_no_hallucination s = 1
    \<and> s_has_check s \<and> s_check_specificity s = 1 \<and> s_length_ok s"
proof -
  have f: "faithfulness s \<le> 1" "faithfulness s = 1 \<longleftrightarrow> s_non_empty s \<and> s_grounded s = 1 \<and> s_no_hallucination s = 1"
    using assms unfolding score_ok_def unit_range_def faithfulness_def by auto
  have a: "actionability s \<le> 1" "actionability s = 1 \<longleftrightarrow> s_has_check s \<and> s_check_specificity s = 1"
    using assms unfolding score_ok_def unit_range_def actionability_def by auto
  have "overall s = 1 \<longleftrightarrow> s_non_empty s \<and> faithfulness s = 1 \<and> actionability s = 1 \<and> s_length_ok s"
    unfolding overall_def f64_of_bool_def using f(1) a(1) by auto
  then show ?thesis using f(2) a(2) by blast
qed

lemma retain_fresh_keys: "key ` set (retain_fresh key seen xs) = key ` set xs - seen"
  by (induction key seen xs rule: retain_fresh.induct) auto

lemma anchors_keys: "el_lowercase L ` set (anchors_of L e r) = el_lowercase L ` (set (salient_tokens e) \<union> set (rf_must_mention r))"
  by (simp add: anchors_of_def retain_fresh_keys image_Un)

lemma all_anchors_iff:
  "(\<forall>n\<in>set (anchors_of L e r). contains h (el_lowercase L n)) \<longleftrightarrow>
   (\<forall>n\<in>set (salient_tokens e) \<union> set (rf_must_mention r). contains h (el_lowercase L n))"
  using anchors_keys [of L e r] by (metis (no_types, lifting) image_iff)

text \<open>
  An ideal answer: some text of a sensible length that names every salient fact and none of the invented
  ones, with a check that hits every expected keyword.
\<close>

definition ideal_answer :: "eval_lib \<Rightarrow> event \<Rightarrow> reference \<Rightarrow> string \<Rightarrow> string option \<Rightarrow> bool" where
  "ideal_answer L e r ans check \<longleftrightarrow>
     (\<exists>c. check = Some c \<and> trim c \<noteq> [] \<and> trim ans \<noteq> []
        \<and> 20 \<le> length (chars (trim ans)) \<and> length (chars (trim ans)) \<le> 600
        \<and> (\<forall>t\<in>set (salient_tokens e) \<union> set (rf_must_mention r).
              contains (el_lowercase L ans @ '' '' @ el_lowercase L c) (el_lowercase L t))
        \<and> (\<forall>t\<in>set (rf_forbidden r). \<not> contains (el_lowercase L ans) (el_lowercase L t))
        \<and> (\<forall>t\<in>set (rf_check_keywords r). contains (el_lowercase L c) (el_lowercase L t)))"

lemma score_parts:
  assumes "check = Some c" "trim c \<noteq> []"
  shows "s_grounded (score_explanation L e r ans check) = 1 \<longleftrightarrow>
      (\<forall>t\<in>set (salient_tokens e) \<union> set (rf_must_mention r).
         contains (el_lowercase L ans @ '' '' @ el_lowercase L c) (el_lowercase L t))" (is ?grounded)
    "s_no_hallucination (score_explanation L e r ans check) = 1 \<longleftrightarrow>
      (\<forall>t\<in>set (rf_forbidden r). \<not> contains (el_lowercase L ans) (el_lowercase L t))" (is ?clean)
    "s_check_specificity (score_explanation L e r ans check) = 1 \<longleftrightarrow>
      (\<forall>t\<in>set (rf_check_keywords r). contains (el_lowercase L c) (el_lowercase L t))" (is ?specific)
proof -
  let ?h = "el_lowercase L ans @ '' '' @ el_lowercase L c"
  show ?grounded
  proof (cases "anchors_of L e r = []")
    case True
    then show ?thesis
      using assms all_anchors_iff [of L e r ?h] by (simp add: score_explanation_def Let_def)
  next
    case False
    then show ?thesis
      unfolding all_anchors_iff [symmetric] hit_rate_full [OF False, symmetric]
      using assms by (simp add: score_explanation_def Let_def)
  qed
  show ?clean
  proof (cases "rf_forbidden r = []")
    case False
    then show ?thesis
      unfolding hit_rate_zero [OF False, symmetric] by (simp add: score_explanation_def Let_def)
  qed (simp add: score_explanation_def Let_def)
  show ?specific
  proof (cases "rf_check_keywords r = []")
    case False
    then show ?thesis
      unfolding hit_rate_full [OF False, symmetric] using assms by (simp add: score_explanation_def Let_def)
  qed (use assms in \<open>simp add: score_explanation_def Let_def f64_of_bool_def\<close>)
qed

lemma empty_scores_zero: "trim ans = [] \<Longrightarrow> overall (score_explanation L e r ans check) = 0"
  by (simp add: overall_def score_explanation_def Let_def)


section \<open>Rows\<close>

lemma mean_unit_range:
  assumes "\<And>r. r \<in> set rs \<Longrightarrow> unit_range (f r)"
  shows "unit_range (mean_over rs f)"
proof -
  have "0 \<le> sum_list (map f rs) \<and> sum_list (map f rs) \<le> real (length rs)"
    using assms by (induction rs) (auto simp: unit_range_def, fastforce)
  then show ?thesis by (auto simp: mean_over_def unit_range_def divide_le_eq_1 max_def)
qed

definition eval_row_ok :: "nat \<Rightarrow> row \<Rightarrow> bool" where
  "eval_row_ok n r \<longleftrightarrow> unit_range (rw_overall r) \<and> unit_range (rw_faithfulness r) \<and> unit_range (rw_actionability r)
     \<and> rw_fixtures r = n"

lemma score_completion_ok: "score_ok (er_score (score_completion L f c))"
  by (simp add: score_completion_def split_beta score_explanation_ok)

lemma aggregate_ok:
  assumes "\<And>r. r \<in> set rs \<Longrightarrow> score_ok (er_score r)"
  shows "eval_row_ok (length rs) (aggregate m rec cap mem rs)"
  by (auto simp: eval_row_ok_def aggregate_def intro!: mean_unit_range weighted_unit_range dest: assms)

lemma recorded_row_ok: "bench_recorded L B corpus = Inr r \<Longrightarrow> eval_row_ok (length corpus) r"
proof -
  assume "bench_recorded L B corpus = Inr r"
  then obtain rs where rs: "traverse (\<lambda>f. map_sum id (score_completion L f) (read_recording B (fx_name f))) corpus = Inr rs"
    and r: "r = aggregate (rm_model (rb_manifest B)) True (rm_captured_on (rb_manifest B)) (rm_mem_mb (rb_manifest B)) rs"
    by (auto simp: bench_recorded_def split: sum.splits)
  from rs have "length rs = length corpus \<and> (\<forall>x\<in>set rs. score_ok (er_score x))"
  proof (induction corpus arbitrary: rs)
    case (Cons f fs)
    then show ?case
      by (cases "read_recording B (fx_name f)") (auto split: sum.splits simp: score_completion_ok)
  qed simp
  then show ?thesis using aggregate_ok r by metis
qed

lemma live_results_ok:
  "live_results L N B corpus w = (Inr (Inr rs), w') \<Longrightarrow> length rs = length corpus \<and> (\<forall>x\<in>set rs. score_ok (er_score x))"
  by (induction L N B corpus w arbitrary: rs w' rule: live_results.induct)
    (auto split: prod.splits sum.splits simp: score_completion_ok)

lemma live_row_ok: "bench_live L N B corpus w = (Inr (Inr r), w') \<Longrightarrow> eval_row_ok (length corpus) r"
  using live_results_ok [of L N B corpus w] aggregate_ok
  by (fastforce simp: bench_live_def split: prod.splits sum.splits)

lemma bench_models_ok:
  "bench_models L N ep corpus models w = (Inr rows, w') \<Longrightarrow> r \<in> set rows \<Longrightarrow> eval_row_ok (length corpus) r"
  by (induction L N ep corpus models w arbitrary: rows w' rule: bench_models.induct)
    (auto simp: Let_def split: prod.splits sum.splits intro: live_row_ok)

lemma run_all_ok:
  assumes "run_all_recorded L parse recs corpus = Inr rows" "r \<in> set rows"
  shows "eval_row_ok (length corpus) r"
proof -
  have *: "traverse (\<lambda>(_, file). case recorded_load parse file of Inl e \<Rightarrow> Inl e | Inr B \<Rightarrow> bench_recorded L B corpus) ds = Inr rows
      \<Longrightarrow> r \<in> set rows \<Longrightarrow> eval_row_ok (length corpus) r" for ds rows
    by (induction ds arbitrary: rows) (auto split: sum.splits intro: recorded_row_ok)
  show ?thesis using assms * unfolding run_all_recorded_def by blast
qed

lemma eval_reportD:
  "eval_report L writable out corpus rows = Inr (Reported rows' printed page) \<Longrightarrow> rows' = rows \<and> rows \<noteq> []"
  by (auto simp: eval_report_def Let_def split: if_splits option.splits)

text \<open>
  Every row that is reported was scored on the whole corpus, with its means between 0 and 1, whether the
  runs were live or recorded; and a report is never empty.
\<close>

theorem reported_rows_ok:
  assumes "eval_main L N parse dirs recs writable a w = (Inr (Inr (Reported rows printed page)), w')"
  shows "rows \<noteq> [] \<and> (\<exists>corpus. load_corpus L (dirs (ea_corpus a)) = Inr corpus
    \<and> (\<forall>r\<in>set rows. eval_row_ok (length corpus) r))"
  using assms unfolding eval_main_def
  by (auto split: sum.splits option.splits prod.splits if_split_asm simp del: bench_models.simps dest!: eval_reportD
      intro: bench_models_ok run_all_ok)

section \<open>The ranking\<close>

text \<open>
  The report lists each row once, better ones first and equal ones by name.
\<close>

theorem report_ranks_models:
  "mset (sorted_rows rows) = mset rows
   \<and> sorted_wrt (\<lambda>a b. rw_overall b < rw_overall a \<or> rw_overall a = rw_overall b \<and> rw_model a \<le> rw_model b) (sorted_rows rows)"
proof
  show "mset (sorted_rows rows) = mset rows" by (simp add: sorted_rows_def)
  have "sorted (map (\<lambda>r. (- rw_overall r, rw_model r)) (sorted_rows rows))" by (simp add: sorted_rows_def)
  then show "sorted_wrt (\<lambda>a b. rw_overall b < rw_overall a \<or> rw_overall a = rw_overall b \<and> rw_model a \<le> rw_model b) (sorted_rows rows)"
    unfolding sorted_map by (rule sorted_wrt_mono_rel [rotated]) (auto simp: less_eq_prod_def)
qed

section \<open>The corpus\<close>

text \<open>What one directory entry contributes.\<close>

definition entry_fixture :: "eval_lib \<Rightarrow> eval_dir \<Rightarrow> string \<Rightarrow> fixture option" where
  "entry_fixture L d f = Option.bind (strip_suffix ''.event.json'' f) (\<lambda>name.
     Option.bind (Option.bind (ed_file d f) (el_event L)) (\<lambda>e.
     Option.bind (Option.bind (ed_file d (name @ ''.reference.json'')) (el_reference L)) (\<lambda>r.
     Some \<lparr>fx_name = name, fx_event = e, fx_reference = r\<rparr>)))"

definition entry_loads :: "eval_lib \<Rightarrow> eval_dir \<Rightarrow> string option \<Rightarrow> bool" where
  "entry_loads L d x \<longleftrightarrow> (\<exists>f. x = Some f \<and> (strip_suffix ''.event.json'' f = None \<or> entry_fixture L d f \<noteq> None))"

lemma load_fixtures_event:
  assumes "strip_suffix ''.event.json'' f = Some name"
  shows "load_fixtures L d (Some f # es) = Inr fs \<longleftrightarrow>
    (\<exists>x out. entry_fixture L d f = Some x \<and> load_fixtures L d es = Inr out \<and> fs = x # out)"
  by (auto simp: entry_fixture_def assms split: option.split sum.split bind_split)

lemma load_fixtures_iff:
  "load_fixtures L d es = Inr fs \<longleftrightarrow>
     (\<forall>x\<in>set es. entry_loads L d x) \<and> fs = List.map_filter (\<lambda>x. Option.bind x (entry_fixture L d)) es"
proof (induction es arbitrary: fs)
  case Nil
  then show ?case by (auto simp: map_filter_simps)
next
  case (Cons x es)
  show ?case
  proof (cases x)
    case None
    then show ?thesis by (simp add: entry_loads_def)
  next
    case (Some f)
    show ?thesis
    proof (cases "strip_suffix ''.event.json'' f")
      case None
      then have "entry_loads L d x" "entry_fixture L d f = None" using Some by (simp_all add: entry_loads_def entry_fixture_def)
      with None Some Cons.IH show ?thesis by (simp add: map_filter_simps)
    next
      case (Some name)
      have "entry_loads L d x \<longleftrightarrow> entry_fixture L d f \<noteq> None" using Some \<open>x = Some f\<close> by (simp add: entry_loads_def)
      with load_fixtures_event [OF Some, of L d es fs] Cons.IH \<open>x = Some f\<close> show ?thesis
        by (auto simp: map_filter_simps simp del: load_fixtures.simps)
    qed
  qed
qed

lemma entry_fixture_name: "entry_fixture L d f = Some x \<Longrightarrow> f = fx_name x @ ''.event.json''"
  by (auto simp: entry_fixture_def strip_suffix_def suffix_def split: bind_splits if_splits)

lemma sort_key_mset_unique:
  assumes "mset xs = mset ys" "distinct (map key xs)"
  shows "sort_key key xs = sort_key key ys"
proof -
  have set: "set xs = set ys" using assms(1) by (rule mset_eq_setD)
  have "mset (map key xs) = mset (map key ys)" using assms(1) by simp
  then have "distinct (map key ys)" using assms(2) by (rule mset_eq_imp_distinct_iff [THEN iffD1])
  then have "map key (sort_key key xs) = map key (sort_key key ys)"
    using assms(2) set by (intro sorted_distinct_set_unique) (simp_all add: distinct_map)
  moreover have "inj_on key (set (sort_key key xs) \<union> set (sort_key key ys))"
    using assms(2) set by (simp add: distinct_map)
  ultimately show ?thesis by (rule map_inj_on)
qed

lemma mset_map_filter: "mset (List.map_filter f xs) = image_mset (the \<circ> f) (filter_mset (\<lambda>x. f x \<noteq> None) (mset xs))"
  by (simp add: List.map_filter_def)

lemma fixture_names_distinct:
  assumes "distinct es"
  shows "distinct (map fx_name (List.map_filter (\<lambda>x. Option.bind x (entry_fixture L d)) es))"
  using assms
proof (induction es)
  case (Cons x es)
  have "False" if "Option.bind x (entry_fixture L d) = Some a" "y \<in> set es" "Option.bind y (entry_fixture L d) = Some b"
      "fx_name a = fx_name b" for a b y
    using that Cons.prems by (cases x; cases y) (auto dest!: entry_fixture_name)
  with Cons show ?case
    by (auto simp: map_filter_simps List.map_filter_def split: option.splits) metis+
qed (simp add: map_filter_simps)

text \<open>
  The corpus is reproducible: however the system orders the directory's entries, the same fixtures are
  loaded in the same order, by strictly increasing name.
\<close>

theorem corpus_order_irrelevant:
  assumes "ed_entries d = Some es" "distinct es" "mset es' = mset es" "load_corpus L d = Inr fs"
  shows "load_corpus L (d\<lparr>ed_entries := Some es'\<rparr>) = Inr fs \<and> sorted_wrt (<) (map fx_name fs)"
proof -
  let ?fx = "\<lambda>d. List.map_filter (\<lambda>x. Option.bind x (entry_fixture L d))"
  let ?d' = "d\<lparr>ed_entries := Some es'\<rparr>"
  have same: "entry_fixture L ?d' = entry_fixture L d" "entry_loads L ?d' = entry_loads L d"
    by (auto simp: fun_eq_iff entry_loads_def entry_fixture_def)
  from assms(1,4) have loads: "\<forall>x\<in>set es. entry_loads L d x" and fs: "fs = sort_key fx_name (?fx d es)"
    by (auto simp: load_corpus_def load_fixtures_iff map_sum_def split: sum.splits)
  have "set es' = set es" using assms(3) by (rule mset_eq_setD)
  with loads have "load_fixtures L ?d' es' = Inr (?fx d es')" by (simp add: load_fixtures_iff same)
  moreover have "sort_key fx_name (?fx d es) = sort_key fx_name (?fx d es')"
    using assms(3) fixture_names_distinct [OF assms(2)] by (intro sort_key_mset_unique) (simp_all add: mset_map_filter)
  ultimately have "load_corpus L ?d' = Inr fs" by (simp add: load_corpus_def fs)
  moreover have "sorted (map fx_name fs) \<and> distinct (map fx_name fs)"
    using fixture_names_distinct [OF assms(2), of L d] by (simp add: fs distinct_map)
  ultimately show ?thesis by (simp add: strict_sorted_iff)
qed

section \<open>A concrete run\<close>

definition demo_reference :: reference where
  "demo_reference = \<lparr>rf_category = CatFailedUnit, rf_reference_explanation = [], rf_must_mention = [], rf_forbidden = [''oom''],
     rf_expected_check = None, rf_check_keywords = [''ss'']\<rparr>"

definition demo_eval_event :: event where
  "demo_eval_event = \<lparr>ev_id = 1, ev_occurred_at = 0, ev_observed_at = 0, ev_agent_id = AgentId 1, ev_host = ''h'',
     ev_severity = Error, ev_title = [], ev_category_hints = [],
     ev_payload = KubeNode \<lparr>kn_node = ''n1'', kn_condition = ''Ready'', kn_message = None, kn_extra = []\<rparr>\<rparr>"

definition demo_eval :: eval_lib where
  "demo_eval = \<lparr>el_lowercase = map to_ascii_lowercase, el_infer = \<lparr>il_debug = id, il_json = (\<lambda>_. None)\<rparr>,
     el_event = (\<lambda>_. Some demo_eval_event), el_reference = (\<lambda>_. Some demo_reference), el_fixed = (\<lambda>_ _. ''0''),
     el_parse_f64 = (\<lambda>_. None)\<rparr>"

definition demo_corpus :: eval_dir where
  "demo_corpus = \<lparr>ed_entries = Some [Some ''b.event.json'', Some ''a.event.json'', Some ''a.reference.json''],
     ed_file = (\<lambda>_. Some [])\<rparr>"

lemma demo_names:
  "strip_suffix ''.event.json'' ''a.event.json'' = Some ''a''" "strip_suffix ''.event.json'' ''b.event.json'' = Some ''b''"
  "strip_suffix ''.event.json'' ''a.reference.json'' = None"
  by code_simp+

definition demo_fixture :: "string \<Rightarrow> fixture" where
  "demo_fixture name = \<lparr>fx_name = name, fx_event = demo_eval_event, fx_reference = demo_reference\<rparr>"

lemma demo_fixtures_load:
  "load_fixtures demo_eval demo_corpus [Some ''b.event.json'', Some ''a.event.json'', Some ''a.reference.json'']
   = Inr [demo_fixture ''b'', demo_fixture ''a'']"
  unfolding load_fixtures.simps demo_names by (simp add: demo_eval_def demo_corpus_def demo_fixture_def)

lemma demo_corpus_loads: "load_corpus demo_eval demo_corpus = Inr [demo_fixture ''a'', demo_fixture ''b'']"
proof -
  have "ed_entries demo_corpus = Some [Some ''b.event.json'', Some ''a.event.json'', Some ''a.reference.json'']"
    by (simp add: demo_corpus_def)
  moreover have "sort_key fx_name [demo_fixture ''b'', demo_fixture ''a''] = [demo_fixture ''a'', demo_fixture ''b'']"
    by (simp add: demo_fixture_def)
  ultimately show ?thesis by (simp only: load_corpus_def demo_fixtures_load option.case map_sum.simps id_apply)
qed

theorem corpus_order_irrelevant_witness:
  "load_corpus demo_eval (demo_corpus\<lparr>ed_entries := Some [Some ''a.event.json'', Some ''a.reference.json'', Some ''b.event.json'']\<rparr>)
     = Inr [demo_fixture ''a'', demo_fixture ''b'']"
proof -
  have es: "ed_entries demo_corpus = Some [Some ''b.event.json'', Some ''a.event.json'', Some ''a.reference.json'']"
    by (simp add: demo_corpus_def)
  have "distinct [Some ''b.event.json'', Some ''a.event.json'', Some ''a.reference.json'']"
    "mset [Some ''a.event.json'', Some ''a.reference.json'', Some ''b.event.json'']
     = mset [Some ''b.event.json'', Some ''a.event.json'', Some ''a.reference.json'']" by simp_all
  from corpus_order_irrelevant [OF es this demo_corpus_loads] show ?thesis by (rule conjunct1)
qed

end
