(* ===== verification/Deployment.thy ===== *)
theory Deployment
  imports Server_Props Agent_Props Kube_Executor
begin

text \<open>
  The parts joined: one control plane, an agent and an actuator on every host, an executor in every
  cluster, and a network that may
  deliver any envelope to anyone, as often as it likes, as long as it forges no signature. The step
  relation interleaves the transitions of the parts; a history keeps every command ever issued. The
  composition follows \<^verbatim>\<open>ravn-agent/src/remediation.rs\<close> (\<open>process_command\<close>,
  \<open>send_to_actuator\<close>) and \<^verbatim>\<open>ravn-actuator/src/lib.rs\<close> (\<open>handle_connection\<close>).
\<close>

section \<open>What is assumed of signatures\<close>

text \<open>
  Nobody else signs. The assumption is about the envelope that arrives, since valid signatures of other
  texts exist; that no one finds them is what Ed25519 promises.
\<close>

definition unforged :: "serde \<Rightarrow> ('sk, 'vk) crypto \<Rightarrow> 'vk \<Rightarrow> envelope set \<Rightarrow> envelope \<Rightarrow> bool" where
  "unforged S C k es e \<longleftrightarrow>
     verify_signature S C k e = Inr () \<longrightarrow> (\<exists>e0\<in>es. signing_payload S e0 = signing_payload S e)"

text \<open>A ring that can select no other key.\<close>

definition only_key :: "'vk keyring \<Rightarrow> 'vk \<Rightarrow> bool" where
  "only_key ring k \<longleftrightarrow> (\<forall>e. select_key ring e \<in> {None, Some k})"

abbreviation server_key :: "('sk, 'vk) crypto \<Rightarrow> 'sk system \<Rightarrow> 'vk" where
  "server_key C s \<equiv> verifying_key C (cs_key (app_signer (sys_app s)))"

lemma only_key_single: "only_key (keyring_single C k) k"
  by (auto simp: only_key_def Let_def select_key_def keyring_single_def keyring_get_def keyring_default_key_def
      split: option.splits if_splits)

section \<open>Commands and their templates\<close>

text \<open>A command that is a resolved template of the control plane, run with a human's or the policy's approval.\<close>

definition templated :: "'sk app_state \<Rightarrow> envelope \<Rightarrow> bool" where
  "templated app e \<longleftrightarrow>
     (\<exists>t\<in>set (app_templates app). \<exists>vals.
        list_all2 (\<lambda>c c'. resolve c vals = Inr c') (template_capabilities t) (envelope_capabilities e)
        \<and> env_rollback e = tpl_rollback t \<and> env_risk_tier e = tpl_risk_tier t
        \<and> (env_approval_ref e = PolicyAuto \<longrightarrow> env_risk_tier e \<noteq> Dangerous \<and> pe_auto_enabled (app_policy app)))"

lemma templated_same: "same_config a b \<Longrightarrow> templated b e = templated a e"
  by (simp add: templated_def same_config_def)

lemma templated_live:
  assumes "system_ok S C s" "e \<in> live_commands s"
  shows "templated (sys_app s) e"
proof -
  from assms obtain cid nonce now p t approval where t: "t \<in> set (app_templates (sys_app s))"
    and build: "build_command S C cid nonce now p t (app_signer (sys_app s)) approval (app_ttl (sys_app s)) = Inr e"
    and aud: "audited (sys_app s) e"
    by (auto simp: system_ok_def genuine_def)
  note f = build_command_fields [OF build] build_command_capabilities [OF build]
  have "env_approval_ref e = PolicyAuto \<Longrightarrow> env_risk_tier e \<noteq> Dangerous \<and> pe_auto_enabled (app_policy (sys_app s))"
    using aud by (auto simp: audited_def)
  with t f show ?thesis unfolding templated_def by blast
qed

text \<open>The fields that the signature covers decide what a command does.\<close>

lemma same_payload:
  assumes "serde_ok S" "signing_payload S a = signing_payload S b"
  shows "plan a = plan b" "templated app a = templated app b" "env_command_id a = env_command_id b"
proof -
  note eq = signing_payload_inj [OF assms]
  have f: "envelope_capabilities a = envelope_capabilities b" "env_rollback a = env_rollback b"
    "env_risk_tier a = env_risk_tier b" "env_approval_ref a = env_approval_ref b"
    using arg_cong [OF eq, of envelope_capabilities] arg_cong [OF eq, of env_rollback]
      arg_cong [OF eq, of env_risk_tier] arg_cong [OF eq, of env_approval_ref]
    by (simp_all add: envelope_capabilities_def)
  then show "plan a = plan b" "templated app a = templated app b" by (simp_all add: plan_def templated_def)
  show "env_command_id a = env_command_id b" using arg_cong [OF eq, of env_command_id] by simp
qed

text \<open>Any executor, on a host or in a cluster: an effect means that the command was issued.\<close>

context capability_executor
begin

lemma effects_were_issued:
  assumes "serde_ok S" "only_key ring k" "unforged S C k es e"
    and run: "handle_command S C run rt ring e w = Some (out, w')" and "log w' \<noteq> log w"
  shows "\<exists>e0\<in>es. signing_payload S e0 = signing_payload S e"
proof -
  have "authentic S C ring e (rt_utc_now rt w)" by (rule command_effects_authentic [OF run assms(5)])
  then have "verify_signature S C k e = Inr ()"
    using assms(2) [unfolded only_key_def, rule_format, of e] by (auto simp: authentic_def verify_signature_Inr)
  with assms(3) show ?thesis by (simp add: unforged_def)
qed

lemma effects_from_issued:
  assumes "serde_ok S" "only_key ring k" "unforged S C k es e"
    and run: "handle_command S C run rt ring e w = Some (out, w')"
  shows "\<exists>fs. log w' = log w @ fs \<and> (\<forall>x\<in>set fs. \<exists>e0\<in>es. \<exists>c\<in>set (plan e0). x \<in> allowed c)"
proof -
  from command_effects [OF run] obtain fs where fs: "log w' = log w @ fs" "set fs \<subseteq> (\<Union>c\<in>set (plan e). allowed c)" by blast
  have "\<exists>e0\<in>es. \<exists>c\<in>set (plan e0). x \<in> allowed c" if "x \<in> set fs" for x
  proof -
    have "log w' \<noteq> log w" using that fs(1) by auto
    from effects_were_issued [OF assms this] obtain e0 where "e0 \<in> es" "plan e0 = plan e"
      using same_payload(1) [OF assms(1)] by blast
    with that fs(2) show ?thesis by (intro bexI [of _ e0]) auto
  qed
  with fs(1) show ?thesis by blast
qed

end

section \<open>A command that passes the checks is not rejected\<close>

lemma check_preconditions_status:
  "check_preconditions run rt e conds w = Inl (r, w') \<Longrightarrow> res_status r \<noteq> Rejected"
  by (induction conds arbitrary: w) (auto simp: Let_def split: prod.splits sum.splits if_splits)

lemma run_steps_status: "run_steps run rt e steps w = Inl (r, w') \<Longrightarrow> res_status r \<noteq> Rejected"
  by (induction steps arbitrary: w) (auto split: prod.splits sum.splits)

lemma perform_rollback_status: "perform_rollback run rt e d obs w = (r, w') \<Longrightarrow> res_status r \<noteq> Rejected"
  by (auto simp: perform_rollback_def Let_def split: rollback.splits prod.splits sum.splits)

lemma verify_poll_status:
  assumes "verify_poll run rt e v deadline w = Some res"
  shows "res_status (fst res) \<noteq> Rejected"
  by (rule verify_poll.raw_induct [where P = "\<lambda>run rt e v dl w res. res_status (fst res) \<noteq> Rejected", OF _ assms])
    (auto dest: perform_rollback_status split: prod.split_asm sum.split_asm if_split_asm)

lemma handle_command_status:
  assumes "handle_command S C run rt ring e w = Some (Returned r, w')"
    and "verify_envelope_with S C ring e (rt_utc_now rt w) = Inr ()" "first_invalid (envelope_capabilities e) = None"
  shows "res_status r \<noteq> Rejected"
  using assms check_preconditions_status run_steps_status verify_poll_status
  by (fastforce simp: handle_command_def split: sum.splits option.splits prod.splits)

section \<open>An agent and its actuator\<close>

text \<open>The actuator's side of the wire: reading an envelope and printing a result.\<close>

record actuator_wire =
  aw_parse :: "string \<Rightarrow> envelope option"
  aw_print :: "action_result \<Rightarrow> string"

text \<open>The reply to one line: the result with a newline, or nothing when the connection just closes.\<close>

definition actuator_reply ::
    "serde \<Rightarrow> ('sk, 'vk) crypto \<Rightarrow> actuator_wire \<Rightarrow> 'o host_os \<Rightarrow> 'vk keyring \<Rightarrow> string \<Rightarrow> 'o host_world
      \<Rightarrow> string \<times> 'o host_world" where
  "actuator_reply S C W H ring line w =
     (case handle_connection S C (aw_parse W) (run_systemctl_sync H) (host_runtime H) ring (Some line) w of
        Some (Returned (Some r), w') \<Rightarrow> (aw_print W r @ [CHR 0x0A], w')
      | Some (_, w') \<Rightarrow> ([], w')
      | None \<Rightarrow> ([], w))"

text \<open>A delivery whose socket leads to that actuator: the agent and the host afterwards.\<close>

definition deliver_to ::
    "serde \<Rightarrow> ('sk, 'vk) crypto \<Rightarrow> result_codec \<Rightarrow> actuator_wire \<Rightarrow> 'o host_os \<Rightarrow> 'vk keyring \<Rightarrow> delivery
      \<Rightarrow> 'vk agent_state \<Rightarrow> 'o host_world \<Rightarrow> 'vk agent_state \<times> 'o host_world" where
  "deliver_to S C P W H ring d a w =
     (process_delivery S C P (d\<lparr>dl_socket := \<lambda>l. Inr (fst (actuator_reply S C W H ring l w))\<rparr>) a,
      if dispatches S C (ag_ring a) (ag_ledger a) d
      then snd (actuator_reply S C W H ring (rc_print P (dl_env d) @ [CHR 0x0A]) w) else w)"

definition message_unforged :: "serde \<Rightarrow> ('sk, 'vk) crypto \<Rightarrow> actuator_wire \<Rightarrow> 'vk \<Rightarrow> envelope set \<Rightarrow> string \<Rightarrow> bool" where
  "message_unforged S C W k es msg \<longleftrightarrow> (\<forall>e. aw_parse W msg = Some e \<longrightarrow> unforged S C k es e)"

abbreviation line_unforged :: "serde \<Rightarrow> ('sk, 'vk) crypto \<Rightarrow> actuator_wire \<Rightarrow> 'vk \<Rightarrow> envelope set \<Rightarrow> string \<Rightarrow> bool" where
  "line_unforged S C W k es line \<equiv> message_unforged S C W k es (trim line)"

lemma actuator_reply_effects:
  assumes "serde_ok S" "only_key ring k" "line_unforged S C W k es line"
  shows "\<exists>fs. w_log (snd (actuator_reply S C W H ring line w)) = w_log w @ fs
    \<and> (\<forall>argv\<in>set fs. \<exists>e0\<in>es. \<exists>c\<in>set (plan e0). argv \<in> host_argvs c)"
proof (cases "aw_parse W (trim line)")
  case None
  then show ?thesis by (simp add: actuator_reply_def handle_connection_def)
next
  case (Some e)
  show ?thesis
  proof (cases "envelope_contains_kube_capability e")
    case True
    with Some show ?thesis by (simp add: actuator_reply_def handle_connection_def)
  next
    case False
    obtain out w' where run: "handle_command S C (run_systemctl_sync H) (host_runtime H) ring e w = Some (out, w')"
      using host.command_returns by blast
    have "unforged S C k es e" using assms(3) Some by (simp add: message_unforged_def)
    from host.effects_from_issued [OF assms(1,2) this run] show ?thesis
      using Some False run by (cases out) (simp_all add: actuator_reply_def handle_connection_def)
  qed
qed

text \<open>
  What serde promises of the wire between them: the envelope \<open>e\<close> survives its line, a result for it comes
  back with its id and status (the detail is text by then), and no result is read from an empty line.
\<close>

definition wire_carries :: "result_codec \<Rightarrow> actuator_wire \<Rightarrow> envelope \<Rightarrow> bool" where
  "wire_carries P W e \<longleftrightarrow>
     aw_parse W (trim (rc_print P e @ [CHR 0x0A])) = Some e
     \<and> (\<forall>r. res_command_id r = env_command_id e \<longrightarrow>
          (\<exists>r'. rc_parse P (trim (aw_print W r @ [CHR 0x0A])) = Inr r'
             \<and> res_command_id r' = res_command_id r \<and> res_status r' = res_status r))
     \<and> (\<exists>err. rc_parse P [] = Inl err)"

lemma process_delivery_report:
  assumes "dispatches S C (ag_ring a) (ag_ledger a) d"
  shows "ag_reports (process_delivery S C P d a) =
    ag_reports a @ [case send_to_actuator P (dl_socket d) (dl_env d) of Inr r \<Rightarrow> r
      | Inl err \<Rightarrow> agent_result (env_command_id (dl_env d)) Failed (DDispatchFailed err) (dl_finished d)]"
  using assms ledger_record_fresh(1) [of "env_command_id (dl_env d)" "ag_ledger a" S "dl_append d"]
  by (auto simp: process_delivery_def process_command_def dispatches_def ledger_contains_def
      split: sum.splits prod.splits bool.splits)

lemma actuator_reply_runs:
  assumes "aw_parse W (trim line) = Some e" "\<not> envelope_contains_kube_capability e"
    and "handle_command S C (run_systemctl_sync H) (host_runtime H) ring e w = Some (out, w')"
  shows "actuator_reply S C W H ring line w = (case out of Returned r \<Rightarrow> aw_print W r @ [CHR 0x0A] | Panicked \<Rightarrow> [], w')"
  using assms by (cases out) (simp_all add: actuator_reply_def handle_connection_def)

lemma trim_Nil: "trim [] = []"
  by code_simp

text \<open>
  A command that the agent lets through runs on the host as if it were handled there directly, and its
  outcome is what the agent reports.
\<close>

lemma deliver_to_runs:
  assumes disp: "dispatches S C (ag_ring a) (ag_ledger a) x" and wire: "wire_carries P W (dl_env x)"
    and host: "\<not> envelope_contains_kube_capability (dl_env x)"
    and run: "handle_command S C (run_systemctl_sync H) (host_runtime H) ring (dl_env x) w = Some (out, w')"
  shows "snd (deliver_to S C P W H ring x a w) = w'"
    "ag_dispatched (fst (deliver_to S C P W H ring x a w)) = ag_dispatched a @ [env_command_id (dl_env x)]"
    "\<exists>r. ag_reports (fst (deliver_to S C P W H ring x a w)) = ag_reports a @ [r]
       \<and> res_command_id r = env_command_id (dl_env x)
       \<and> res_status r = (case out of Returned r0 \<Rightarrow> res_status r0 | Panicked \<Rightarrow> Failed)"
proof -
  let ?line = "rc_print P (dl_env x) @ [CHR 0x0A]"
  have "aw_parse W (trim ?line) = Some (dl_env x)" using wire by (simp add: wire_carries_def)
  note reply = actuator_reply_runs [OF this host run]
  have disp': "dispatches S C (ag_ring a) (ag_ledger a) (x\<lparr>dl_socket := f\<rparr>)" for f
    using disp by (simp add: dispatches_def)
  show "snd (deliver_to S C P W H ring x a w) = w'" using disp reply by (simp add: deliver_to_def)
  show "ag_dispatched (fst (deliver_to S C P W H ring x a w)) = ag_dispatched a @ [env_command_id (dl_env x)]"
    using disp' by (simp add: deliver_to_def process_delivery_fields)
  show "\<exists>r. ag_reports (fst (deliver_to S C P W H ring x a w)) = ag_reports a @ [r]
       \<and> res_command_id r = env_command_id (dl_env x)
       \<and> res_status r = (case out of Returned r0 \<Rightarrow> res_status r0 | Panicked \<Rightarrow> Failed)"
  proof (cases out)
    case (Returned r)
    with run have "res_command_id r = env_command_id (dl_env x)" using host.command_result_id by blast
    with wire obtain r' where "rc_parse P (trim (aw_print W r @ [CHR 0x0A])) = Inr r'"
      "res_command_id r' = env_command_id (dl_env x)" "res_status r' = res_status r"
      by (auto simp: wire_carries_def)
    with Returned show ?thesis
      by (simp add: deliver_to_def process_delivery_report [OF disp'] send_to_actuator_def reply)
  next
    case Panicked
    from wire obtain err where "rc_parse P [] = Inl err" by (auto simp: wire_carries_def)
    with Panicked show ?thesis
      by (simp add: deliver_to_def process_delivery_report [OF disp'] send_to_actuator_def reply agent_result_def trim_Nil)
  qed
qed

section \<open>The whole system\<close>

record ('sk, 'vk, 'o, 'c) deployment =
  dp_server :: "'sk system"
  dp_issued :: "envelope set"
  dp_agents :: "uuid \<Rightarrow> 'vk agent_state"
  dp_hosts :: "uuid \<Rightarrow> 'o host_world"
  dp_clusters :: "uuid \<Rightarrow> 'c kube_world loop_state"

text \<open>
  The steps: the control plane moves; an agent moves by itself (a refresh of its ring with whatever the
  network returns, a restart, a delivery while the actuator is unreachable); an agent receives an
  envelope, from the control plane or from anyone, and its actuator is reachable; some other process on
  a host sends a line to the actuator; an in-cluster executor receives a message or starts again with an
  empty memory. \<open>Hs\<close> and \<open>Ks\<close> are the operating systems and the cluster APIs, \<open>rings\<close> the keys that
  each executor trusts.
\<close>

inductive deployment_step ::
    "serde \<Rightarrow> ('sk, 'vk) crypto \<Rightarrow> rfc3339 \<Rightarrow> result_codec \<Rightarrow> actuator_wire \<Rightarrow> (uuid \<Rightarrow> 'o host_os) \<Rightarrow> (uuid \<Rightarrow> 'c kube_api)
      \<Rightarrow> (uuid \<Rightarrow> 'vk keyring) \<Rightarrow> ('sk, 'vk, 'o, 'c) deployment \<Rightarrow> ('sk, 'vk, 'o, 'c) deployment \<Rightarrow> bool"
  for S :: serde and C :: "('sk, 'vk) crypto" and F P W Hs Ks rings where
  server: "system_step S C F (dp_server d) s \<Longrightarrow>
     deployment_step S C F P W Hs Ks rings d (d\<lparr>dp_server := s, dp_issued := dp_issued d \<union> live_commands s\<rparr>)"
| agent: "agent_step S C P untorn (dp_agents d i) a \<Longrightarrow>
     deployment_step S C F P W Hs Ks rings d (d\<lparr>dp_agents := (dp_agents d)(i := a)\<rparr>)"
| deliver: "untorn (dl_append x) \<Longrightarrow>
     line_unforged S C W (server_key C (dp_server d)) (dp_issued d) (rc_print P (dl_env x) @ [CHR 0x0A]) \<Longrightarrow>
     deliver_to S C P W (Hs i) (rings i) x (dp_agents d i) (dp_hosts d i) = (a, w) \<Longrightarrow>
     deployment_step S C F P W Hs Ks rings d (d\<lparr>dp_agents := (dp_agents d)(i := a), dp_hosts := (dp_hosts d)(i := w)\<rparr>)"
| other_peer: "line_unforged S C W (server_key C (dp_server d)) (dp_issued d) line \<Longrightarrow>
     deployment_step S C F P W Hs Ks rings d
       (d\<lparr>dp_hosts := (dp_hosts d)(i := snd (actuator_reply S C W (Hs i) (rings i) line (dp_hosts d i)))\<rparr>)"
| cluster: "message_unforged S C W (server_key C (dp_server d)) (dp_issued d) msg \<Longrightarrow>
     command_step S C (kube_run (Ks i)) (kube_runtime (Ks i)) (rings i) (aw_parse W) msg (dp_clusters d i) = Some (out, st) \<Longrightarrow>
     deployment_step S C F P W Hs Ks rings d (d\<lparr>dp_clusters := (dp_clusters d)(i := st)\<rparr>)"
| cluster_restart:
    "deployment_step S C F P W Hs Ks rings d (d\<lparr>dp_clusters := (dp_clusters d)(i := (dp_clusters d i)\<lparr>ls_seen := {}\<rparr>)\<rparr>)"

definition deployment_init :: "serde \<Rightarrow> ('sk, 'vk) crypto \<Rightarrow> (uuid \<Rightarrow> 'vk keyring) \<Rightarrow> ('sk, 'vk, 'o, 'c) deployment \<Rightarrow> bool" where
  "deployment_init S C rings d \<longleftrightarrow>
     serde_ok S \<and> system_init S (dp_server d) \<and> dp_issued d = {}
     \<and> (\<forall>i. agent_init S (dp_agents d i) \<and> w_log (dp_hosts d i) = [] \<and> w_log (ls_world (dp_clusters d i)) = []
          \<and> only_key (rings i) (server_key C (dp_server d)))"

text \<open>What holds on one host, in one cluster, and of all of them.\<close>

definition cluster_ok :: "'vk keyring \<Rightarrow> 'vk \<Rightarrow> envelope set \<Rightarrow> 'c kube_world loop_state \<Rightarrow> bool" where
  "cluster_ok ring k es st \<longleftrightarrow>
     only_key ring k \<and> (\<forall>call\<in>set (w_log (ls_world st)). \<exists>e\<in>es. \<exists>c\<in>set (plan e). call \<in> kube_calls c)"

definition host_ok :: "serde \<Rightarrow> 'vk keyring \<Rightarrow> 'vk \<Rightarrow> envelope set \<Rightarrow> 'vk agent_state \<Rightarrow> 'o host_world \<Rightarrow> bool" where
  "host_ok S ring k es a w \<longleftrightarrow>
     only_key ring k \<and> agent_inv S a \<and> (\<forall>argv\<in>set (w_log w). \<exists>e\<in>es. \<exists>c\<in>set (plan e). argv \<in> host_argvs c)"

definition deployment_ok :: "serde \<Rightarrow> ('sk, 'vk) crypto \<Rightarrow> (uuid \<Rightarrow> 'vk keyring) \<Rightarrow> ('sk, 'vk, 'o, 'c) deployment \<Rightarrow> bool" where
  "deployment_ok S C rings d \<longleftrightarrow>
     serde_ok S \<and> system_ok S C (dp_server d)
     \<and> (\<forall>e\<in>dp_issued d. templated (sys_app (dp_server d)) e)
     \<and> (\<forall>i. host_ok S (rings i) (server_key C (dp_server d)) (dp_issued d) (dp_agents d i) (dp_hosts d i)
          \<and> cluster_ok (rings i) (server_key C (dp_server d)) (dp_issued d) (dp_clusters d i))"

lemma host_ok_mono: "host_ok S ring k es a w \<Longrightarrow> es \<subseteq> es' \<Longrightarrow> host_ok S ring k es' a w"
  unfolding host_ok_def by (meson subsetD)

lemma host_ok_reply:
  assumes "serde_ok S" "host_ok S ring k es a w" "line_unforged S C W k es line"
  shows "host_ok S ring k es a (snd (actuator_reply S C W H ring line w))"
proof -
  from assms(2) have "only_key ring k" by (simp add: host_ok_def)
  from actuator_reply_effects [OF assms(1) this assms(3), of H w] assms(2) show ?thesis
    unfolding host_ok_def by (metis Un_iff set_append)
qed

lemma host_ok_agent: "host_ok S ring k es a w \<Longrightarrow> agent_inv S a' \<Longrightarrow> host_ok S ring k es a' w"
  by (simp add: host_ok_def)

lemma host_ok_deliver:
  assumes "serde_ok S" "host_ok S ring k es a w" "untorn (dl_append x)"
    and "line_unforged S C W k es (rc_print P (dl_env x) @ [CHR 0x0A])"
  shows "host_ok S ring k es (fst (deliver_to S C P W H ring x a w)) (snd (deliver_to S C P W H ring x a w))"
proof -
  have "agent_inv S a" using assms(2) by (simp add: host_ok_def)
  then have "agent_inv S (fst (deliver_to S C P W H ring x a w))"
    using assms(3) by (auto simp: deliver_to_def intro!: agent_inv_deliver)
  moreover have "host_ok S ring k es a (snd (deliver_to S C P W H ring x a w))"
    using assms(2) host_ok_reply [OF assms(1,2,4)] by (simp add: deliver_to_def)
  ultimately show ?thesis by (rule host_ok_agent [rotated])
qed

lemma cluster_ok_mono: "cluster_ok ring k es st \<Longrightarrow> es \<subseteq> es' \<Longrightarrow> cluster_ok ring k es' st"
  unfolding cluster_ok_def by (meson subsetD)

lemma cluster_ok_message:
  assumes "serde_ok S" "cluster_ok ring k es st" "message_unforged S C W k es msg"
    and step: "command_step S C (kube_run K) (kube_runtime K) ring (aw_parse W) msg st = Some (out, st')"
  shows "cluster_ok ring k es st'"
proof (cases "ls_world st' = ls_world st")
  case True
  with assms(2) show ?thesis by (simp add: cluster_ok_def)
next
  case False
  then obtain e out' where e: "aw_parse W msg = Some e"
    and run: "handle_command S C (kube_run K) (kube_runtime K) ring e (ls_world st) = Some (out', ls_world st')"
    using step by (auto simp: command_step_def Let_def split: option.splits if_splits outcome.splits)
  have k: "only_key ring k" "unforged S C k es e" using assms(2,3) e by (simp_all add: cluster_ok_def message_unforged_def)
  from kube.effects_from_issued [OF assms(1) k run] assms(2) show ?thesis
    unfolding cluster_ok_def by (metis Un_iff set_append)
qed

lemma deployment_ok_init:
  assumes "deployment_init S C rings d"
  shows "deployment_ok S C rings d"
proof -
  have "agent_inv S (dp_agents d i)" for i
    using assms agent.init_inv [of S "dp_agents d i"] by (simp add: deployment_init_def)
  then show ?thesis
    using assms control_plane.init_inv [of S "dp_server d" C] by (simp add: deployment_init_def deployment_ok_def host_ok_def cluster_ok_def)
qed

text \<open>A step on one host leaves the others and the control plane alone.\<close>

lemma deployment_ok_host:
  assumes "deployment_ok S C rings d"
    and "host_ok S (rings i) (server_key C (dp_server d)) (dp_issued d) a w"
  shows "deployment_ok S C rings (d\<lparr>dp_agents := (dp_agents d)(i := a), dp_hosts := (dp_hosts d)(i := w)\<rparr>)"
  using assms by (simp add: deployment_ok_def)

lemma deployment_ok_cluster:
  assumes "deployment_ok S C rings d" "cluster_ok (rings i) (server_key C (dp_server d)) (dp_issued d) st"
  shows "deployment_ok S C rings (d\<lparr>dp_clusters := (dp_clusters d)(i := st)\<rparr>)"
  using assms by (simp add: deployment_ok_def)

lemma deployment_ok_server:
  assumes "deployment_ok S C rings d" "system_step S C F (dp_server d) s"
  shows "deployment_ok S C rings (d\<lparr>dp_server := s, dp_issued := dp_issued d \<union> live_commands s\<rparr>)"
proof -
  have ok: "system_ok S C s" and same: "same_config (sys_app (dp_server d)) (sys_app s)"
    using assms system_step_ok system_step_config by (auto simp: deployment_ok_def)
  then have key: "server_key C s = server_key C (dp_server d)" by (simp add: same_config_def)
  have "\<forall>e\<in>dp_issued d \<union> live_commands s. templated (sys_app s) e"
    using assms(1) templated_live [OF ok] templated_same [OF same] by (auto simp: deployment_ok_def)
  moreover have "host_ok S (rings i) (server_key C s) (dp_issued d \<union> live_commands s) (dp_agents d i) (dp_hosts d i)" for i
    using assms(1) unfolding key by (auto simp: deployment_ok_def intro: host_ok_mono)
  moreover have "cluster_ok (rings i) (server_key C s) (dp_issued d \<union> live_commands s) (dp_clusters d i)" for i
    using assms(1) unfolding key by (auto simp: deployment_ok_def intro: cluster_ok_mono)
  ultimately show ?thesis using ok assms(1) by (simp add: deployment_ok_def)
qed

lemma deployment_ok_step:
  assumes "deployment_step S C F P W Hs Ks rings d d'" "deployment_ok S C rings d"
  shows "deployment_ok S C rings d'"
  using assms
proof (induction rule: deployment_step.induct)
  case (server d s)
  from deployment_ok_server [OF server(2,1)] show ?case .
next
  case (agent d i a)
  have "host_ok S (rings i) (server_key C (dp_server d)) (dp_issued d) (dp_agents d i) (dp_hosts d i)"
    using agent(2) by (simp add: deployment_ok_def)
  moreover from this have "agent_inv S a"
    using agent(2) by (intro agent_inv_step [OF _ _ agent(1)]) (simp_all add: host_ok_def deployment_ok_def)
  ultimately have "host_ok S (rings i) (server_key C (dp_server d)) (dp_issued d) a (dp_hosts d i)" by (rule host_ok_agent)
  from deployment_ok_host [OF agent(2) this] show ?case by simp
next
  case (deliver x d i a w)
  have "host_ok S (rings i) (server_key C (dp_server d)) (dp_issued d) a w"
    using host_ok_deliver [OF _ _ deliver(1,2), of "rings i" "dp_agents d i" "dp_hosts d i" "Hs i"] deliver(3,4)
    by (simp add: deployment_ok_def)
  from deployment_ok_host [OF deliver(4) this] show ?case .
next
  case (other_peer d line i)
  have "host_ok S (rings i) (server_key C (dp_server d)) (dp_issued d) (dp_agents d i)
      (snd (actuator_reply S C W (Hs i) (rings i) line (dp_hosts d i)))"
    using other_peer(2) by (intro host_ok_reply [OF _ _ other_peer(1)]) (simp_all add: deployment_ok_def)
  from deployment_ok_host [OF other_peer(2) this] show ?case by simp
next
  case (cluster d msg i out st)
  have "cluster_ok (rings i) (server_key C (dp_server d)) (dp_issued d) st"
    using cluster(3) by (intro cluster_ok_message [OF _ _ cluster(1,2)]) (simp_all add: deployment_ok_def)
  from deployment_ok_cluster [OF cluster(3) this] show ?case .
next
  case (cluster_restart d i)
  then have "cluster_ok (rings i) (server_key C (dp_server d)) (dp_issued d) ((dp_clusters d i)\<lparr>ls_seen := {}\<rparr>)"
    by (simp add: deployment_ok_def cluster_ok_def)
  from deployment_ok_cluster [OF cluster_restart this] show ?case .
qed

interpretation deployed: transition_invariant "deployment_init S C rings" "deployment_step S C F P W Hs Ks rings"
    "deployment_ok S C rings" for S C F P W Hs Ks rings
  by unfold_locales (auto intro: deployment_ok_init deployment_ok_step)

end
