(* ===== verification/Messaging.thy ===== *)
theory Messaging
  imports Agent_Loop Kube_Watch Fleet_Props Http_Props Offline_Buffer
begin

text \<open>
  Messages on their way: the transports of the host agent
  (\<^verbatim>\<open>ravn-agent/src/transport.rs\<close>), the publishers of the cluster agents
  (\<^verbatim>\<open>ravn-k8s/src/nats.rs\<close>, \<^verbatim>\<open>http.rs\<close>, \<^verbatim>\<open>publish.rs\<close>), the two subscriptions of the
  control plane (\<^verbatim>\<open>ravn-server/src/ingest.rs\<close>) and its live feed (\<open>stream_events\<close> of
  \<^verbatim>\<open>api.rs\<close>). The broker is a parameter: which pattern matches which subject.
\<close>

section \<open>Publishing to a broker\<close>

text \<open>A packet is a subject and a payload; publishing and flushing succeed or not by an input.\<close>

type_synonym packet = "string \<times> string"

datatype publish_error = PublishingToNats | FlushingNats | WsSend | ReadingToken | PostingMessage | IngestStatus nat

record nats_io =
  ni_publish :: bool
  ni_flush :: bool

definition nats_publish_to ::
    "nats_io \<Rightarrow> string \<Rightarrow> string \<Rightarrow> packet list \<Rightarrow> (publish_error + unit) \<times> packet list" where
  "nats_publish_to io subject payload bus =
     (if \<not> ni_publish io then (Inl PublishingToNats, bus)
      else (if ni_flush io then Inr () else Inl FlushingNats, bus @ [(subject, payload)]))"

subsection \<open>The host agent\<close>

record nats_transport =
  nt_subject :: string
  nt_heartbeat_subject :: string

definition nats_connect :: "(uuid \<Rightarrow> string) \<Rightarrow> uuid \<Rightarrow> nats_transport" where
  "nats_connect U i = \<lparr>nt_subject = ''ravn.messages.'' @ U i, nt_heartbeat_subject = ''ravn.heartbeat.'' @ U i\<rparr>"

datatype transport = NatsTransport nats_transport | WsTransport

datatype connect_error = UnsupportedScheme | NatsConnect | WsConnect

text \<open>\<open>nats\<close> says whether the client accepts the address (the first connection is retried in the background).\<close>

definition transport_connect :: "(uuid \<Rightarrow> string) \<Rightarrow> bool \<Rightarrow> (nat \<Rightarrow> bool) \<Rightarrow> string \<Rightarrow> uuid \<Rightarrow> connect_error + transport" where
  "transport_connect U nats ws url i =
     (case transport_scheme url of
        None \<Rightarrow> Inl UnsupportedScheme
      | Some NatsUrl \<Rightarrow> if nats then Inr (NatsTransport (nats_connect U i)) else Inl NatsConnect
      | Some WsUrl \<Rightarrow> if fst (connect_with_backoff ws) then Inr WsTransport else Inl WsConnect)"

record send_io =
  si_nats :: nats_io
  si_ws :: "bool \<times> (nat \<Rightarrow> bool) \<times> bool"

text \<open>What left the process: packets to the broker, text frames to a WebSocket peer.\<close>

record wires =
  wr_bus :: "packet list"
  wr_frames :: "string list"

definition transport_send ::
    "transport \<Rightarrow> (nats_transport \<Rightarrow> string) \<Rightarrow> send_io \<Rightarrow> string \<Rightarrow> wires \<Rightarrow> (publish_error + unit) \<times> wires" where
  "transport_send T subject io payload w =
     (case T of
        NatsTransport t \<Rightarrow>
          (case nats_publish_to (si_nats io) (subject t) payload (wr_bus w) of (r, bus) \<Rightarrow> (r, w\<lparr>wr_bus := bus\<rparr>))
      | WsTransport \<Rightarrow>
          (case si_ws io of (first, ok, second) \<Rightarrow>
             if send_json first ok second then (Inr (), w\<lparr>wr_frames := wr_frames w @ [payload]\<rparr>) else (Inl WsSend, w)))"

definition transport_publish :: "message_codec \<Rightarrow> transport \<Rightarrow> send_io \<Rightarrow> message \<Rightarrow> wires \<Rightarrow> (publish_error + unit) \<times> wires" where
  "transport_publish M T io m = transport_send T nt_subject io (mc_print M m)"

definition publish_heartbeat ::
    "(heartbeat \<Rightarrow> string) \<Rightarrow> transport \<Rightarrow> send_io \<Rightarrow> heartbeat \<Rightarrow> wires \<Rightarrow> (publish_error + unit) \<times> wires" where
  "publish_heartbeat print T io hb = transport_send T nt_heartbeat_subject io (print hb)"

subsection \<open>The cluster agents\<close>

record http_publisher =
  hp_ingest_url :: string
  hp_token_file :: string

datatype publisher = NatsPublisher string | HttpPublisher http_publisher

definition publisher_connect :: "(uuid \<Rightarrow> string) \<Rightarrow> bool \<Rightarrow> kube_config \<Rightarrow> connect_error + publisher" where
  "publisher_connect U nats K =
     (case kc_ingest_url K of
        Some url \<Rightarrow> Inr (HttpPublisher \<lparr>hp_ingest_url = url, hp_token_file = kc_sa_token_file K\<rparr>)
      | None \<Rightarrow> if nats then Inr (NatsPublisher (''ravn.messages.'' @ U (agent_uuid (kc_agent_id K)))) else Inl NatsConnect)"

text \<open>\<open>post url token m\<close> is the request; no status when it could not be sent.\<close>

definition http_publish ::
    "(string \<Rightarrow> string option) \<Rightarrow> (string \<Rightarrow> string \<Rightarrow> message \<Rightarrow> 's \<Rightarrow> nat option \<times> 's) \<Rightarrow> http_publisher \<Rightarrow> message \<Rightarrow> 's
      \<Rightarrow> (publish_error + unit) \<times> 's" where
  "http_publish read post P m s =
     (case read (hp_token_file P) of
        None \<Rightarrow> (Inl ReadingToken, s)
      | Some token \<Rightarrow>
          (case post (hp_ingest_url P) (trim token) m s of
             (None, s') \<Rightarrow> (Inl PostingMessage, s')
           | (Some st, s') \<Rightarrow> (if 200 \<le> st \<and> st < 300 then Inr () else Inl (IngestStatus st), s')))"

definition publisher_publish ::
    "message_codec \<Rightarrow> (string \<Rightarrow> string option) \<Rightarrow> (string \<Rightarrow> string \<Rightarrow> message \<Rightarrow> 's \<Rightarrow> nat option \<times> 's) \<Rightarrow> nats_io
      \<Rightarrow> publisher \<Rightarrow> message \<Rightarrow> packet list \<times> 's \<Rightarrow> (publish_error + unit) \<times> packet list \<times> 's" where
  "publisher_publish M read post io P m bs =
     (case P of
        NatsPublisher subject \<Rightarrow> (case nats_publish_to io subject (mc_print M m) (fst bs) of (r, bus) \<Rightarrow> (r, bus, snd bs))
      | HttpPublisher h \<Rightarrow> (case http_publish read post h m (snd bs) of (r, s') \<Rightarrow> (r, fst bs, s')))"

section \<open>The subscriptions of the control plane\<close>

definition message_pattern :: string where "message_pattern = ''ravn.messages.*''"
definition heartbeat_pattern :: string where "heartbeat_pattern = ''ravn.heartbeat.*''"

text \<open>
  One packet, as the two loops see it: each takes the packets whose subject matches its pattern. The
  outside of the packet is given with it.
\<close>

record receive_io =
  rc_ingest :: ingest_io
  rc_inputs :: inputs
  rc_heartbeat :: "bool \<times> datetime"

definition server_receive ::
    "(string \<Rightarrow> string \<Rightarrow> bool) \<Rightarrow> serde \<Rightarrow> ('sk, 'vk) crypto \<Rightarrow> rfc3339 \<Rightarrow> json_lib \<Rightarrow> message_codec \<Rightarrow> (string \<Rightarrow> heartbeat option)
      \<Rightarrow> receive_io \<times> packet \<Rightarrow> 'sk server \<Rightarrow> 'sk server" where
  "server_receive matches S C F J M hb x s =
     (case x of (io, subject, payload) \<Rightarrow>
        let s1 = (if matches message_pattern subject
                  then ingest_payload S C F J (rc_ingest io) (rc_inputs io) (mc_parse M payload) s else s)
        in if matches heartbeat_pattern subject
           then heartbeat_payload (fst (rc_heartbeat io)) (snd (rc_heartbeat io)) (hb payload) s1 else s1)"

text \<open>
  The broker's rule, as documented: a final star stands for exactly one token, and the rest of the
  pattern for itself.
\<close>

definition subject_token :: "string \<Rightarrow> bool" where
  "subject_token t \<longleftrightarrow> t \<noteq> [] \<and> set t \<inter> set ''.*> '' = {}"

definition nats_ok :: "(string \<Rightarrow> string \<Rightarrow> bool) \<Rightarrow> bool" where
  "nats_ok matches \<longleftrightarrow>
     (\<forall>p q t. subject_token t \<and> list_all subject_token p \<and> list_all subject_token q \<longrightarrow>
        matches (join ''.'' (p @ [''*''])) (join ''.'' (q @ [t])) = (p = q))"

section \<open>The live feed\<close>

text \<open>What one subscriber's loop sees next: the feed or the client.\<close>

datatype feed_input = FeedEvent stored_event bool | FeedLagged | FeedClosed | ClientMessage | ClientGone

fun stream_events :: "(stored_event \<Rightarrow> string option) \<Rightarrow> feed_input list \<Rightarrow> string list" where
  "stream_events print [] = []"
| "stream_events print (FeedEvent e sent # xs) =
     (case print e of
        None \<Rightarrow> stream_events print xs
      | Some j \<Rightarrow> if sent then j # stream_events print xs else [])"
| "stream_events print (FeedLagged # xs) = stream_events print xs"
| "stream_events print (FeedClosed # xs) = []"
| "stream_events print (ClientMessage # xs) = stream_events print xs"
| "stream_events print (ClientGone # xs) = []"

section \<open>Who receives what\<close>

lemma subject_join:
  assumes "nats_ok matches" "subject_token t"
  shows "matches message_pattern (''ravn.messages.'' @ t)" "\<not> matches heartbeat_pattern (''ravn.messages.'' @ t)"
    "matches heartbeat_pattern (''ravn.heartbeat.'' @ t)" "\<not> matches message_pattern (''ravn.heartbeat.'' @ t)"
    "\<not> matches message_pattern (''ravn.commands.'' @ t)" "\<not> matches heartbeat_pattern (''ravn.commands.'' @ t)"
    "\<not> matches message_pattern (''ravn.results.'' @ t)" "\<not> matches heartbeat_pattern (''ravn.results.'' @ t)"
proof -
  have tok: "subject_token ''ravn''" "subject_token ''messages''" "subject_token ''heartbeat''" "subject_token ''commands''"
    "subject_token ''results''" by code_simp+
  have rule: "matches (join ''.'' [''ravn'', a, ''*'']) (join ''.'' [''ravn'', b, t]) = (a = b)"
    if "subject_token a" "subject_token b" for a b
    using assms(1) [unfolded nats_ok_def, rule_format, of t "[''ravn'', a]" "[''ravn'', b]"] assms(2) tok(1) that by simp
  note m = rule [OF tok(2) tok(2)] rule [OF tok(2) tok(3)] rule [OF tok(2) tok(4)] rule [OF tok(2) tok(5)]
  note h = rule [OF tok(3) tok(2)] rule [OF tok(3) tok(3)] rule [OF tok(3) tok(4)] rule [OF tok(3) tok(5)]
  show "matches message_pattern (''ravn.messages.'' @ t)" "\<not> matches heartbeat_pattern (''ravn.messages.'' @ t)"
    "matches heartbeat_pattern (''ravn.heartbeat.'' @ t)" "\<not> matches message_pattern (''ravn.heartbeat.'' @ t)"
    "\<not> matches message_pattern (''ravn.commands.'' @ t)" "\<not> matches heartbeat_pattern (''ravn.commands.'' @ t)"
    "\<not> matches message_pattern (''ravn.results.'' @ t)" "\<not> matches heartbeat_pattern (''ravn.results.'' @ t)"
    using m h by (simp_all add: message_pattern_def heartbeat_pattern_def)
qed

text \<open>The packet of a message, and what receiving it does.\<close>

definition message_packet :: "message_codec \<Rightarrow> nats_transport \<Rightarrow> message \<Rightarrow> packet" where
  "message_packet M t m = (nt_subject t, mc_print M m)"

lemma transport_publish_packet:
  "transport_publish M (NatsTransport t) io m w = (Inr (), w') \<Longrightarrow> w' = w\<lparr>wr_bus := wr_bus w @ [message_packet M t m]\<rparr>"
  by (auto simp: transport_publish_def transport_send_def nats_publish_to_def message_packet_def split: if_splits)

lemma receive_message:
  assumes "nats_ok matches" "codec_ok M" "subject_token (U i)" "mc_wire M m"
  shows "server_receive matches S C F J M hb (io, message_packet M (nats_connect U i) m) s =
    persist_message S C F J (rc_ingest io) (rc_inputs io) m s"
  using subject_join [OF assms(1,3)] assms(2,4)
  by (simp add: server_receive_def message_packet_def nats_connect_def ingest_payload_def codec_ok_def)

lemma persist_stores:
  assumes "ii_insert io"
  shows "event_key ` set (fl_events (sv_fleet s)) \<subseteq> event_key ` set (fl_events (sv_fleet (persist_message S C F J io I m s)))"
    "\<exists>r\<in>set (fl_events (sv_fleet (persist_message S C F J io I m s))). se_id r = ev_id (msg_event m)"
proof -
  let ?t = "pg_time (ev_occurred_at (msg_event m))"
  have "(ev_id (msg_event m), ?t) \<in> event_key ` set (fl_events (insert_message J (ii_db_now io) m (sv_fleet s)))"
    by (auto simp: insert_message_def event_key_def message_to_stored_def Let_def)
  then show "\<exists>r\<in>set (fl_events (sv_fleet (persist_message S C F J io I m s))). se_id r = ev_id (msg_event m)"
    unfolding persist_message_parts(1) [OF assms] by (force simp: event_key_def)
  show "event_key ` set (fl_events (sv_fleet s)) \<subseteq> event_key ` set (fl_events (sv_fleet (persist_message S C F J io I m s)))"
    unfolding persist_message_parts(1) [OF assms] by (auto simp: insert_message_def Let_def)
qed

text \<open>Receiving the packets of an agent, in order: every message gets its row.\<close>

lemma receive_all:
  assumes "nats_ok matches" "codec_ok M" "subject_token (U i)" "list_all (mc_wire M) ms"
    and "length ios = length ms" "list_all (\<lambda>io. ii_insert (rc_ingest io)) ios"
  shows "event_key ` set (fl_events (sv_fleet s)) \<subseteq> event_key ` set (fl_events (sv_fleet
        (fold (server_receive matches S C F J M hb) (zip ios (map (message_packet M (nats_connect U i)) ms)) s)))
    \<and> (\<forall>m\<in>set ms. \<exists>r\<in>set (fl_events (sv_fleet
        (fold (server_receive matches S C F J M hb) (zip ios (map (message_packet M (nats_connect U i)) ms)) s))). se_id r = ev_id (msg_event m))"
  using assms(5,4,6)
proof (induction ios ms arbitrary: s rule: list_induct2)
  case Nil
  then show ?case by simp
next
  case (Cons io ios m ms)
  let ?s = "persist_message S C F J (rc_ingest io) (rc_inputs io) m s"
  let ?rest = "fold (server_receive matches S C F J M hb) (zip ios (map (message_packet M (nats_connect U i)) ms)) ?s"
  have first: "server_receive matches S C F J M hb (io, message_packet M (nats_connect U i) m) s = ?s"
    using Cons.prems by (intro receive_message [where U = U and i = i, OF assms(1-3)]) simp
  have "ii_insert (rc_ingest io)" using Cons.prems by simp
  note stored = persist_stores [OF this, where s = s and S = S and C = C and F = F and J = J and I = "rc_inputs io" and m = m]
  from stored(2) have "event_key ` set (fl_events (sv_fleet ?s)) \<subseteq> event_key ` B \<Longrightarrow> \<exists>r\<in>B. se_id r = ev_id (msg_event m)" for B
    by (force simp: event_key_def)
  moreover have IH: "event_key ` set (fl_events (sv_fleet ?s)) \<subseteq> event_key ` set (fl_events (sv_fleet ?rest))"
    "\<forall>m\<in>set ms. \<exists>r\<in>set (fl_events (sv_fleet ?rest)). se_id r = ev_id (msg_event m)"
    using Cons.IH [of ?s] Cons.prems by simp_all
  moreover from IH(1) stored(1)
  have "event_key ` set (fl_events (sv_fleet s)) \<subseteq> event_key ` set (fl_events (sv_fleet ?rest))" by (rule order_trans [rotated])
  ultimately show ?case by (simp add: first)
qed

section \<open>From the detection to the table\<close>

text \<open>Whatever leaves the agent is a message that the wire carries.\<close>

definition out_wire :: "message_codec \<Rightarrow> outbound \<Rightarrow> bool" where
  "out_wire M s \<longleftrightarrow>
     list_all (mc_wire M) (out_sent s)
     \<and> (\<forall>b. out_buffer s = Some b \<longrightarrow> (\<forall>r\<in>set (buf_rows b). \<exists>m. row_of M r m))"

lemma enqueue_rows:
  assumes "mc_wire M m" "\<forall>r\<in>set (buf_rows b). \<exists>m. row_of M r m"
  shows "\<forall>r\<in>set (buf_rows (snd (buffer_enqueue M ins del now m b))). \<exists>m. row_of M r m"
  using assms by (auto simp: buffer_enqueue_def Let_def insert_or_ignore_def row_of_def delete_ids_def)

lemma flush_batch_wire:
  assumes "list_all (\<lambda>(i, m). mc_wire M m) batch" "list_all (mc_wire M) (fst sb)"
  shows "list_all (mc_wire M) (fst (flush_batch batch ios sb))
    \<and> set (buf_rows (snd (flush_batch batch ios sb))) \<subseteq> set (buf_rows (snd sb))"
  using assms
  by (induction batch ios sb rule: flush_batch.induct) (auto simp: buffer_delete_def delete_ids_def)

lemma out_wire_tick:
  assumes "codec_ok M" "out_wire M s"
  shows "out_wire M (flush_tick M ios s)"
proof (cases "out_buffer s")
  case None
  with assms(2) show ?thesis by (simp add: flush_tick_def)
next
  case (Some b)
  let ?rs = "sql_limit flush_limit (oldest_first (buf_rows b))"
  have rows: "\<forall>r\<in>set (buf_rows b). \<exists>m. row_of M r m" using assms(2) Some by (simp add: out_wire_def)
  moreover have "set ?rs \<subseteq> set (buf_rows b)" by (auto simp: sql_limit_def dest: in_set_takeD)
  ultimately have wf: "\<forall>r\<in>set ?rs. \<exists>m. row_of M r m" by blast
  let ?batch = "map (\<lambda>r. (ob_event_id r, the (mc_parse M (ob_message r)))) ?rs"
  have drain: "drain_batch M flush_limit b = (?batch, b)" by (simp add: drain_batch_def drain_rows_wf [OF assms(1) wf])
  have "list_all (\<lambda>(i, m). mc_wire M m) ?batch"
    using wf parse_row [OF assms(1)] by (fastforce simp: list_all_iff row_of_def)
  from flush_batch_wire [OF this, of "(out_sent s, b)" ios] assms(2) rows show ?thesis
    by (auto simp: flush_tick_def Some drain out_wire_def split: prod.splits)
qed

lemma out_wire_publish: "out_wire M s \<Longrightarrow> mc_wire M m \<Longrightarrow> out_wire M (publish_or_buffer M up io m s)"
  using enqueue_rows [of M m] by (auto simp: publish_or_buffer_def out_wire_def split: option.splits)

lemma out_wire_run:
  assumes "codec_ok M" "out_wire M s" "\<forall>m\<in>set (alarms_of ops). mc_wire M m"
  shows "out_wire M (out_run M ops s)"
  using assms(2,3)
proof (induction ops arbitrary: s)
  case Nil
  then show ?case by simp
next
  case (Cons p ops)
  then show ?case by (cases p) (auto intro: out_wire_tick [OF assms(1)] out_wire_publish)
qed

text \<open>
  C30: alarms reach the table of the control plane. The agent detects events and flushes its outbox
  in any order while the broker comes and goes. If its statements succeed, the outbox is never full
  and empty in the end, and the control plane receives the packets that left, then the table holds
  an event with the id of every alarm.
\<close>

theorem alarms_reach_store:
  assumes "nats_ok matches" "codec_ok M" "subject_token (U i)"
    and ops: "list_all sql_works ops" "\<forall>m\<in>set (alarms_of ops). mc_wire M m"
    and s: "out_buffer s = Some b" "out_sent s = []" "\<forall>r\<in>set (buf_rows b). \<exists>m. row_of M r m"
    and room: "unat (buf_max b) < 2 ^ 63" "length (buf_rows b) + length (alarms_of ops) \<le> unat (buf_max b)"
    and sent: "out_sent (out_run M ops s) = ms" "\<forall>b'. out_buffer (out_run M ops s) = Some b' \<longrightarrow> buf_rows b' = []"
    and ios: "length ios = length ms" "list_all (\<lambda>io. ii_insert (rc_ingest io)) ios"
    and m: "m \<in> set (alarms_of ops)"
  shows "\<exists>r\<in>set (fl_events (sv_fleet (fold (server_receive matches S C F J M hb)
           (zip ios (map (message_packet M (nats_connect U i)) ms)) v))). se_id r = ev_id (msg_event m)"
proof -
  have "out_wire M s" using s by (simp add: out_wire_def)
  from out_wire_run [OF assms(2) this ops(2)] have wire: "list_all (mc_wire M) ms" using sent(1) by (simp add: out_wire_def)
  from run_accounted [OF assms(2) ops(1) s(1,3) room(1) ops(2) room(2)] sent
  obtain b' where "buf_rows b' = []" "id_of M ` set (alarms_of ops) \<subseteq> accounted M (ms, b')" by auto
  with m obtain m' where m': "m' \<in> set ms" "id_of M m = id_of M m'" by (auto simp: accounted_def)
  then have "ev_id (msg_event m') = ev_id (msg_event m)"
    using assms(2) by (auto simp: id_of_def codec_ok_def dest: injD)
  moreover from receive_all [where U = U and i = i, OF assms(1-3) wire ios] m'(1)
  have "\<exists>r\<in>set (fl_events (sv_fleet (fold (server_receive matches S C F J M hb)
           (zip ios (map (message_packet M (nats_connect U i)) ms)) v))). se_id r = ev_id (msg_event m')" by blast
  ultimately show ?thesis by simp
qed

text \<open>A broker that compares token by token.\<close>

definition demo_matches :: "string \<Rightarrow> string \<Rightarrow> bool" where
  "demo_matches p s \<longleftrightarrow> list_all2 (\<lambda>a t. a = ''*'' \<or> a = t) (split_on (CHR ''.'') p) (split_on (CHR ''.'') s)"

lemma split_join: "xs \<noteq> [] \<Longrightarrow> list_all (\<lambda>x. CHR ''.'' \<notin> set x) xs \<Longrightarrow> split_on (CHR ''.'') (join ''.'' xs) = xs"
  by (induction "''.''" xs rule: join.induct) (simp_all add: split_on_no_delim split_on_append_delim)

lemma list_all2_snoc: "list_all2 P (xs @ [x]) (ys @ [y]) \<longleftrightarrow> list_all2 P xs ys \<and> P x y"
proof
  assume all: "list_all2 P (xs @ [x]) (ys @ [y])"
  then have "length xs = length ys" by (auto dest: list_all2_lengthD)
  with all show "list_all2 P xs ys \<and> P x y" by (simp add: list_all2_append)
qed (simp add: list_all2_appendI)

lemma demo_nats_ok: "nats_ok demo_matches"
  unfolding nats_ok_def
proof (intro allI impI)
  fix p q t assume tok: "subject_token t \<and> list_all subject_token p \<and> list_all subject_token q"
  have "list_all2 (\<lambda>a t. a = ''*'' \<or> a = t) p q \<longleftrightarrow> list_all2 (=) p q"
    using tok by (intro list.rel_cong_simp) (auto simp: subject_token_def list_all_iff simp_implies_def)
  moreover have "list_all (\<lambda>x. CHR ''.'' \<notin> set x) (p @ [''*''])" "list_all (\<lambda>x. CHR ''.'' \<notin> set x) (q @ [t])"
    using tok by (auto simp: subject_token_def list_all_iff)
  ultimately show "demo_matches (join ''.'' (p @ [''*''])) (join ''.'' (q @ [t])) = (p = q)"
    by (simp add: demo_matches_def split_join list_all2_snoc list.rel_eq)
qed

theorem alarms_reach_store_witness:
  "let ops = [Detected False \<lparr>eq_insert = True, eq_prune = True, eq_now = 3\<rparr> (demo_message 2), Tick [(True, True)]];
       s = \<lparr>out_sent = [], out_buffer = Some (demo_outbox 8 []), out_published = 0\<rparr>;
       io = \<lparr>rc_ingest = demo_ingest, rc_inputs = demo_inputs 5, rc_heartbeat = (True, 100)\<rparr>;
       packets = map (message_packet demo_outbox_codec (nats_connect (\<lambda>_. ''agent'') 1)) (out_sent (out_run demo_outbox_codec ops s))
   in \<exists>r\<in>set (fl_events (sv_fleet (fold (server_receive demo_matches demo_serde demo_crypto demo_rfc demo_json demo_outbox_codec
        (\<lambda>_. None)) (zip [io] packets) demo_server))). se_id r = 2"
proof -
  let ?ops = "[Detected False \<lparr>eq_insert = True, eq_prune = True, eq_now = 3\<rparr> (demo_message 2), Tick [(True, True)]]"
  let ?s = "\<lparr>out_sent = [], out_buffer = Some (demo_outbox 8 []), out_published = 0\<rparr>"
  let ?io = "\<lparr>rc_ingest = demo_ingest, rc_inputs = demo_inputs 5, rc_heartbeat = (True, 100)\<rparr>"
  have parse: "mc_parse demo_outbox_codec (mc_print demo_outbox_codec m) = Some m" for m
    using demo_outbox_codec_ok by (simp add: codec_ok_def)
  have limit: "sql_limit flush_limit [r] = [r]" for r :: outbox_row
    using sint_small [of flush_limit] by (simp add: sql_limit_def flush_limit_def)
  have run: "out_sent (out_run demo_outbox_codec ?ops ?s) = [demo_message 2]"
    "\<exists>b'. out_buffer (out_run demo_outbox_codec ?ops ?s) = Some b' \<and> buf_rows b' = []"
    by (simp_all add: publish_or_buffer_def buffer_enqueue_def insert_or_ignore_def demo_outbox_def pruned_ids_def prune_limit_small
        delete_ids_def flush_tick_def drain_batch_def oldest_first_def limit parse buffer_delete_def)
  have token: "subject_token ((\<lambda>_. ''agent'') (1 :: uuid))" by code_simp
  have "\<exists>r\<in>set (fl_events (sv_fleet (fold (server_receive demo_matches demo_serde demo_crypto demo_rfc demo_json demo_outbox_codec
        (\<lambda>_. None)) (zip [?io] (map (message_packet demo_outbox_codec (nats_connect (\<lambda>_. ''agent'') 1)) [demo_message 2])) demo_server))).
        se_id r = ev_id (msg_event (demo_message 2))"
  proof (rule alarms_reach_store [where U = "\<lambda>_. ''agent''" and i = 1, OF demo_nats_ok demo_outbox_codec_ok token])
    show "list_all sql_works ?ops" by (simp add: sql_works_def)
    show "out_buffer ?s = Some (demo_outbox 8 [])" by simp
    show "unat (buf_max (demo_outbox 8 [])) < 2 ^ 63" "length (buf_rows (demo_outbox 8 [])) + length (alarms_of ?ops) \<le> unat (buf_max (demo_outbox 8 []))"
      "\<forall>r\<in>set (buf_rows (demo_outbox 8 [])). \<exists>m. row_of demo_outbox_codec r m"
      by (simp_all add: demo_outbox_def)
    show "out_sent (out_run demo_outbox_codec ?ops ?s) = [demo_message 2]" by (rule run(1))
    show "\<forall>b'. out_buffer (out_run demo_outbox_codec ?ops ?s) = Some b' \<longrightarrow> buf_rows b' = []" using run(2) by auto
    show "list_all (\<lambda>io. ii_insert (rc_ingest io)) [?io]" by (simp add: demo_ingest_def)
  qed simp_all
  then show ?thesis unfolding Let_def run(1) demo_message_id .
qed

section \<open>Messages of a cluster over HTTP\<close>

definition bearer_auth :: "string \<Rightarrow> string" where
  "bearer_auth token = ''Bearer '' @ token"

text \<open>The request of the publisher, answered by the control plane's own router.\<close>

definition ingest_post ::
    "('sk, 'vk) api_env \<Rightarrow> http_config \<Rightarrow> api_io \<Rightarrow> string \<Rightarrow> string \<Rightarrow> message \<Rightarrow> 'sk http_state \<Rightarrow> nat option \<times> 'sk http_state" where
  "ingest_post E K io url token m s =
     (case http_request E K io
             \<lparr>rq_method = POST, rq_endpoint = EIngest m, rq_authorization = Some (bearer_auth token), rq_query = None\<rparr> s of
        ((st, _), s') \<Rightarrow> (Some st, s'))"

lemma bearer_token: "bearer (Some (bearer_auth t)) = Some t"
  by (simp add: bearer_def bearer_auth_def strip_prefix_def)

lemma ingest_post_answer:
  "ingest_post E K io url token m s =
     (if \<not> ai_allowed io then (Some 429, s)
      else if hc_ingest_auth K = None \<and> hc_token_review K = None then (Some 404, s)
      else case ingest_identity (ae_jwt E) K token of
             Some _ \<Rightarrow> (Some 202, on_server (persist_message (ae_serde E) (ae_crypto E) (ae_rfc E) (ae_json E) (ai_ingest io) (ai_inputs io) m) s)
           | None \<Rightarrow> (Some 401, s))"
proof -
  let ?q = "\<lparr>rq_method = POST, rq_endpoint = EIngest m, rq_authorization = Some (bearer_auth token), rq_query = None\<rparr>"
  have "auth_mw (ae_jwt E) (ae_uuid E) K ?q = Pass None" by (simp add: auth_mw_def is_public_def)
  then show ?thesis
    by (simp add: ingest_post_def http_request_def api_ingest_def bearer_token split: option.splits)
qed

lemma ingest_identity_disabled: "hc_ingest_auth K = None \<Longrightarrow> hc_token_review K = None \<Longrightarrow> ingest_identity L K t = None"
  by (simp add: ingest_identity_def)

text \<open>
  The publisher is told that its message was accepted exactly when the control plane took it on, for
  an identity behind the token of the file; otherwise nothing happened there.
\<close>

theorem http_publish_accepted:
  assumes "http_publish read (ingest_post E K io) P m s = (r, s')"
  shows "(r = Inr () \<longleftrightarrow> (\<exists>token sub. read (hp_token_file P) = Some token \<and> ai_allowed io
        \<and> ingest_identity (ae_jwt E) K (trim token) = Some sub))
    \<and> s' = (if r = Inr () then on_server (persist_message (ae_serde E) (ae_crypto E) (ae_rfc E) (ae_json E) (ai_ingest io) (ai_inputs io) m) s
            else s)"
proof (cases "read (hp_token_file P)")
  case None
  with assms show ?thesis by (auto simp: http_publish_def)
next
  case (Some token)
  with assms show ?thesis
    using ingest_identity_disabled [of K "ae_jwt E" "trim token"]
    by (auto simp: http_publish_def ingest_post_answer split: option.splits if_splits)
qed

text \<open>
  Taking a message on is not storing it: if the insert fails, the message is gone and the answer is
  the same.
\<close>

theorem accepted_but_lost:
  assumes "read (hp_token_file P) = Some token" "ai_allowed io" "ingest_identity (ae_jwt E) K (trim token) = Some sub"
    and "\<not> ii_insert (ai_ingest io)"
  shows "\<exists>s'. http_publish read (ingest_post E K io) P m s = (Inr (), s') \<and> sv_fleet (hs_server s') = sv_fleet (hs_server s)"
  using assms ingest_identity_disabled [of K "ae_jwt E" "trim token"]
  by (auto simp: http_publish_def ingest_post_answer on_server_def persist_message_def count_ingest_def)

section \<open>The feed of a subscriber\<close>

text \<open>A client that stays and reads gets every event, in order, but for those it was too slow for.\<close>

theorem feed_complete:
  assumes "list_all (\<lambda>x. case x of FeedEvent e sent \<Rightarrow> sent | FeedClosed \<Rightarrow> False | ClientGone \<Rightarrow> False | _ \<Rightarrow> True) xs"
  shows "stream_events print xs = List.map_filter (\<lambda>x. case x of FeedEvent e _ \<Rightarrow> print e | _ \<Rightarrow> None) xs"
  using assms by (induction print xs rule: stream_events.induct) (auto simp: List.map_filter_simps split: option.splits)

text \<open>
  Commands for clusters are published by nobody, and nothing that the executors publish is received:
  neither subject matches a subscription of the control plane.
\<close>

theorem cluster_subjects_unheard:
  assumes "nats_ok matches" "subject_token i"
  shows "server_receive matches S C F J M hb (io, ''ravn.results.'' @ i, payload) s = s"
    "server_receive matches S C F J M hb (io, ''ravn.commands.'' @ i, payload) s = s"
  using subject_join [OF assms] by (simp_all add: server_receive_def)

end
