(* ===== verification/Agent_Main.thy ===== *)
theory Agent_Main
  imports Agent_Config Agent_Remediation Messaging Detection Failed_Units Command_Queue
begin

text \<open>
  The agent's start (\<open>main\<close>, \<open>spawn_remediation\<close> and the set-up of \<open>run_detection\<close> in
  \<^verbatim>\<open>ravn-agent/src/main.rs\<close>): what a configuration turns on, with which parameters, and what may
  stop the agent. The detection loop itself is in \<open>Agent_Loop\<close>, the command loop in
  \<open>Agent_Remediation\<close>. Also what enrolment with the control plane gives the command loop.
\<close>

section \<open>What is turned on\<close>

datatype tap =
    JournaldTap journald_tap
  | ConfigDriftTap uuid string "string list"
  | FailedUnitTap failed_unit_tap
  | UpdateTap uuid string string u64

text \<open>The taps in the order of \<open>run_detection\<close>; durations in nanoseconds.\<close>

definition enabled_taps :: "config \<Rightarrow> tap list" where
  "enabled_taps c =
     (if cf_journald_enable c
      then [JournaldTap \<lparr>jt_agent_id = cf_agent_id c, jt_host = cf_host c, jt_min_priority = cf_journald_min_priority c,
              jt_auth_enable = cf_auth_enable c, jt_skip_kernel = cf_journald_skip_kernel c\<rparr>] else [])
     @ (if cf_config_drift_paths c \<noteq> [] then [ConfigDriftTap (cf_agent_id c) (cf_host c) (cf_config_drift_paths c)] else [])
     @ (if cf_failed_units_enable c
        then [FailedUnitTap \<lparr>ft_agent_id = cf_agent_id c, ft_host = cf_host c, ft_user_bus = cf_systemd_user_bus c,
                ft_poll_interval = 5 * nanos, ft_grace = unat (cf_failed_units_grace_secs c) * nanos\<rparr>] else [])
     @ (if cf_updates_enable c then [UpdateTap (cf_agent_id c) (cf_host c) (cf_nix_profile c) (cf_update_poll_secs c)] else [])"

definition any_tap :: "config \<Rightarrow> bool" where
  "any_tap c \<longleftrightarrow> cf_journald_enable c \<or> cf_config_drift_paths c \<noteq> [] \<or> cf_failed_units_enable c \<or> cf_updates_enable c"

text \<open>The period of a tap's timer; the other taps wait for input.\<close>

fun tap_period :: "tap \<Rightarrow> nat option" where
  "tap_period (FailedUnitTap t) = Some (ft_poll_interval t)"
| "tap_period (UpdateTap _ _ _ secs) = Some (unat secs * nanos)"
| "tap_period _ = None"

text \<open>Inference and digests: the client when enabled, and the window when both are.\<close>

definition detection_config :: "config \<Rightarrow> chat_client \<Rightarrow> loop_config" where
  "detection_config c client =
     \<lparr>lc_inference = (if cf_inference_enable c then Some client else None),
      lc_digest_min = cf_digest_min_severity c, lc_digest_max = unat (cf_digest_max_events c)\<rparr>"

definition digest_window :: "config \<Rightarrow> event list option" where
  "digest_window c = (if cf_inference_enable c \<and> cf_digest_enable c then Some [] else None)"

section \<open>The command loop\<close>

record 'vk remediation_task =
  rt_ring :: "'vk keyring"
  rt_endpoint :: string
  rt_agent :: uuid
  rt_api_token :: "string option"
  rt_cred_dir :: string
  rt_ledger :: ledger
  rt_socket :: string
  rt_poll :: poll_state

definition keyring_file :: "string \<Rightarrow> string" where "keyring_file dir = dir @ ''/command_keyring.json''"
definition pubkey_file :: "string \<Rightarrow> string" where "pubkey_file dir = dir @ ''/command_pubkey.b64''"
definition ledger_file :: "string \<Rightarrow> string" where "ledger_file dir = dir @ ''/command-ledger''"

text \<open>A ledger file that is absent or unreadable counts as empty.\<close>

definition spawn_remediation :: "serde \<Rightarrow> ('sk, 'vk) crypto \<Rightarrow> files \<Rightarrow> config \<Rightarrow> 'vk remediation_task option" where
  "spawn_remediation S C fs c =
     (let dir = cf_cred_dir c
      in case load_pinned_keyring S C (fs (keyring_file dir)) (fs (pubkey_file dir)) of
           None \<Rightarrow> None
         | Some ring \<Rightarrow>
             (case cf_enroll_endpoint c of
                None \<Rightarrow> None
              | Some base \<Rightarrow>
                  Some \<lparr>rt_ring = ring, rt_endpoint = base, rt_agent = cf_agent_id c, rt_api_token = cf_api_token c,
                        rt_cred_dir = dir,
                        rt_ledger = (case fs (ledger_file dir) of Some text \<Rightarrow> ledger_load S True text | None \<Rightarrow> ledger_load S False []),
                        rt_socket = cf_actuator_socket c, rt_poll = initial_poll_state (cf_command_poll_secs c)\<rparr>))"

section \<open>The start\<close>

datatype agent_exit = ConfigFailed config_error | TransportFailed connect_error

record 'vk agent_tasks =
  at_config :: config
  at_transport :: transport
  at_heartbeat_secs :: u64
  at_remediation :: "'vk remediation_task option"
  at_flush_secs :: "u64 option"
  at_taps :: "tap list"
  at_digest_secs :: "u64 option"
  at_loop_config :: loop_config
  at_loop :: agent_loop

text \<open>
  The outside of the start: the configuration's inputs, enrolment's, whether the broker's client and
  the WebSocket connect, the stored outbox if it opens, and the first message with its id and clock.
\<close>

record start_inputs =
  sn_env :: config_env
  sn_enroll :: enroll_env
  sn_nats :: bool
  sn_ws :: "nat \<Rightarrow> bool"
  sn_outbox :: "outbox_row list option"
  sn_event_id :: uuid
  sn_now :: datetime
  sn_version :: string
  sn_send :: send_io
  sn_enqueue :: enqueue_io
  sn_client :: chat_client

definition agent_start ::
    "serde \<Rightarrow> ('sk, 'vk) crypto \<Rightarrow> message_codec \<Rightarrow> (uuid \<Rightarrow> string) \<Rightarrow> start_inputs \<Rightarrow> files \<times> wires
      \<Rightarrow> (agent_exit + 'vk agent_tasks) \<times> files \<times> wires" where
  "agent_start S C M U N fw =
     (case config_load (sn_env N) of
        Inl e \<Rightarrow> (Inl (ConfigFailed e), fw)
      | Inr c \<Rightarrow>
          let fs = snd (ensure_enrolled (sn_enroll N) c (fst fw))
          in case transport_connect U (sn_nats N) (sn_ws N) (cf_server_url c) (cf_agent_id c) of
               Inl e \<Rightarrow> (Inl (TransportFailed e), fs, snd fw)
             | Inr T \<Rightarrow>
                 let outbox = map_option (\<lambda>rows. buffer_open rows (cf_buffer_max c)) (sn_outbox N);
                     hello = startup_message (sn_event_id N) (sn_now N) (sn_version N) (cf_agent_id c) (cf_host c);
                     (sent, w) = transport_publish M T (sn_send N) hello (snd fw);
                     out = publish_startup M (sent = Inr ()) (sn_enqueue N) hello \<lparr>out_sent = [], out_buffer = outbox, out_published = 0\<rparr>
                 in (Inr \<lparr>at_config = c, at_transport = T, at_heartbeat_secs = cf_heartbeat_interval_secs c,
                          at_remediation = (if cf_remediation_enable c then spawn_remediation S C fs c else None),
                          at_flush_secs = map_option (\<lambda>_. 10) outbox,
                          at_taps = (if any_tap c then enabled_taps c else []),
                          at_digest_secs = (if any_tap c \<and> digest_window c \<noteq> None then Some (cf_digest_interval_secs c) else None),
                          at_loop_config = detection_config c (sn_client N),
                          at_loop = \<lparr>al_out = out, al_digest = digest_window c, al_last_detection = None\<rparr>\<rparr>,
                     fs, w))"

text \<open>The periods, in nanoseconds, of the timers that the tasks create; a timer with period 0 panics.\<close>

definition secs_nanos :: "u64 \<Rightarrow> nat" where "secs_nanos s = unat s * nanos"

definition timer_periods :: "'vk agent_tasks \<Rightarrow> nat list" where
  "timer_periods t =
     secs_nanos (at_heartbeat_secs t)
     # map secs_nanos (List.map_filter id [at_flush_secs t, at_digest_secs t])
     @ List.map_filter tap_period (at_taps t)"

section \<open>What can stop the agent\<close>

lemma any_tap_iff: "any_tap c \<longleftrightarrow> enabled_taps c \<noteq> []"
  by (simp add: any_tap_def enabled_taps_def)

text \<open>
  Only a configuration that does not load and a transport that does not connect stop the start:
  enrolment, the outbox and the first message may all fail.
\<close>

theorem agent_start_fails_iff:
  "(\<exists>x. fst (agent_start S C M U N fw) = Inl x) \<longleftrightarrow>
     (\<exists>e. config_load (sn_env N) = Inl e)
     \<or> (\<exists>c e. config_load (sn_env N) = Inr c \<and> transport_connect U (sn_nats N) (sn_ws N) (cf_server_url c) (cf_agent_id c) = Inl e)"
  by (cases "config_load (sn_env N)") (auto simp: agent_start_def Let_def split: sum.split prod.split)

lemma agent_startE:
  assumes "agent_start S C M U N fw = (Inr t, fw')"
  obtains c T where "config_load (sn_env N) = Inr c" "at_config t = c"
    "transport_connect U (sn_nats N) (sn_ws N) (cf_server_url c) (cf_agent_id c) = Inr T" "at_transport t = T"
    "at_heartbeat_secs t = cf_heartbeat_interval_secs c" "at_flush_secs t \<in> {None, Some 10}"
    "at_taps t = enabled_taps c" "at_digest_secs t \<in> {None, Some (cf_digest_interval_secs c)}"
    "fst fw' = snd (ensure_enrolled (sn_enroll N) c (fst fw))"
    "at_remediation t = (if cf_remediation_enable c then spawn_remediation S C (fst fw') c else None)"
proof -
  from assms obtain c T where c: "config_load (sn_env N) = Inr c"
    and T: "transport_connect U (sn_nats N) (sn_ws N) (cf_server_url c) (cf_agent_id c) = Inr T"
    unfolding agent_start_def by (auto simp: Let_def split: sum.splits)
  let ?hello = "startup_message (sn_event_id N) (sn_now N) (sn_version N) (cf_agent_id c) (cf_host c)"
  obtain sent w where send: "transport_publish M T (sn_send N) ?hello (snd fw) = (sent, w)" by fastforce
  note run = assms [unfolded agent_start_def c T sum.case Let_def send prod.case]
  have "at_config t = c" "at_transport t = T" "at_heartbeat_secs t = cf_heartbeat_interval_secs c"
    "at_flush_secs t \<in> {None, Some 10}" "at_taps t = enabled_taps c" "at_digest_secs t \<in> {None, Some (cf_digest_interval_secs c)}"
    "fst fw' = snd (ensure_enrolled (sn_enroll N) c (fst fw))"
    using run any_tap_iff [of c] by (auto split: option.splits if_splits)
  moreover have "at_remediation t = (if cf_remediation_enable c then spawn_remediation S C (fst fw') c else None)"
    using run by auto
  ultimately show thesis using that [OF c _ T] by blast
qed

lemma secs_nanos_pos: "0 < s \<Longrightarrow> 0 < secs_nanos s"
  by (simp add: secs_nanos_def word_less_nat_alt)

lemma enabled_tap_period:
  assumes "config_wf c" "x \<in> set (List.map_filter tap_period (enabled_taps c))"
  shows "0 < x"
proof -
  have "0 < unat (cf_update_poll_secs c)" using assms(1) by (simp add: config_wf_def word_less_nat_alt)
  with assms(2) show ?thesis by (auto simp: enabled_taps_def map_filter_simps split: if_splits)
qed

theorem agent_timers_positive:
  assumes "agent_start S C M U N fw = (Inr t, fw')"
    and "\<And>text f. ce_toml (sn_env N) text = Some f \<Longrightarrow> [] \<notin> set (fdt_config_drift_paths (fc_detection f))"
  shows "list_all (\<lambda>p. 0 < p) (timer_periods t)"
proof -
  obtain c where c: "config_load (sn_env N) = Inr c" "at_heartbeat_secs t = cf_heartbeat_interval_secs c" "at_flush_secs t \<in> {None, Some 10}"
    "at_taps t = enabled_taps c" "at_digest_secs t \<in> {None, Some (cf_digest_interval_secs c)}"
    by (rule agent_startE [OF assms(1)])
  have wf: "config_wf c" by (rule loaded_config_wf [OF c(1) assms(2)])
  then have "0 < cf_heartbeat_interval_secs c" "0 < cf_digest_interval_secs c" by (simp_all add: config_wf_def)
  with c(2,3,5) have "list_all (\<lambda>p. 0 < p) (secs_nanos (at_heartbeat_secs t)
      # map secs_nanos (List.map_filter id [at_flush_secs t, at_digest_secs t]))"
    by (auto simp: map_filter_simps secs_nanos_pos)
  with enabled_tap_period [OF wf] show ?thesis unfolding timer_periods_def c(4) by (auto simp: list_all_iff)
qed

text \<open>Commands are pulled only by an agent that was told to, holds a pinned key and knows where to pull.\<close>

theorem remediation_started_iff:
  assumes "agent_start S C M U N fw = (Inr t, fw')"
  shows "(\<exists>r. at_remediation t = Some r) \<longleftrightarrow>
      cf_remediation_enable (at_config t) \<and> cf_enroll_endpoint (at_config t) \<noteq> None
      \<and> load_pinned_keyring S C (fst fw' (keyring_file (cf_cred_dir (at_config t)))) (fst fw' (pubkey_file (cf_cred_dir (at_config t)))) \<noteq> None"
    "at_remediation t = Some r \<Longrightarrow> min_poll_secs \<le> ps_base_poll_secs (rt_poll r)
      \<and> load_pinned_keyring S C (fst fw' (keyring_file (cf_cred_dir (at_config t)))) (fst fw' (pubkey_file (cf_cred_dir (at_config t)))) = Some (rt_ring r)"
proof -
  obtain c where c: "at_config t = c"
    "at_remediation t = (if cf_remediation_enable c then spawn_remediation S C (fst fw') c else None)"
    by (rule agent_startE [OF assms])
  then show "(\<exists>r. at_remediation t = Some r) \<longleftrightarrow>
      cf_remediation_enable (at_config t) \<and> cf_enroll_endpoint (at_config t) \<noteq> None
      \<and> load_pinned_keyring S C (fst fw' (keyring_file (cf_cred_dir (at_config t)))) (fst fw' (pubkey_file (cf_cred_dir (at_config t)))) \<noteq> None"
    by (auto simp: spawn_remediation_def Let_def split: option.splits)
  assume "at_remediation t = Some r"
  with c show "min_poll_secs \<le> ps_base_poll_secs (rt_poll r)
      \<and> load_pinned_keyring S C (fst fw' (keyring_file (cf_cred_dir (at_config t)))) (fst fw' (pubkey_file (cf_cred_dir (at_config t)))) = Some (rt_ring r)"
    by (auto simp: spawn_remediation_def Let_def initial_poll_state_def poll_state_new_def split: option.splits if_splits)
qed

section \<open>Enrolment pins the control plane's key\<close>

text \<open>The exchange of an enrolment, answered by the control plane's router.\<close>

definition enroll_post ::
    "('sk, 'vk) api_env \<Rightarrow> http_config \<Rightarrow> api_io \<Rightarrow> 'sk http_state \<Rightarrow> enroll_request \<Rightarrow> enroll_error + enroll_response" where
  "enroll_post E K io s r =
     (case http_request E K io \<lparr>rq_method = POST, rq_endpoint = EEnroll r, rq_authorization = None, rq_query = None\<rparr> s of
        ((st, EnrollBody x), _) \<Rightarrow> if st = 200 then Inr x else Inl enroll_error.Rejected
      | _ \<Rightarrow> Inl enroll_error.Rejected)"

lemma enroll_post_keys:
  assumes "enroll_post E K io s r = Inr x"
  shows "es_command_signing_pubkey x = cs_pubkey_b64 (app_signer (hs_app s))"
    "es_command_keyring x = cs_keyring_json (app_signer (hs_app s))"
proof -
  let ?q = "\<lparr>rq_method = POST, rq_endpoint = EEnroll r, rq_authorization = None, rq_query = None\<rparr>"
  have "auth_mw (ae_jwt E) (ae_uuid E) K ?q = Pass None" by (simp add: auth_mw_def is_public_def)
  with assms have "(case api_enroll E K io r s of ((st, EnrollBody x), _) \<Rightarrow> if st = 200 then Inr x else Inl enroll_error.Rejected
      | _ \<Rightarrow> Inl enroll_error.Rejected) = Inr x"
    by (simp add: enroll_post_def http_request_def)
  then show "es_command_signing_pubkey x = cs_pubkey_b64 (app_signer (hs_app s))"
    "es_command_keyring x = cs_keyring_json (app_signer (hs_app s))"
    by (auto simp: api_enroll_def split: option.splits if_splits prod.splits)
qed

lemma write_files_done: "write_files ok ws fs = (Inr (), fs') \<Longrightarrow> fs' = fs ++ map_of (rev ws)"
  by (induction ws arbitrary: fs) (auto split: if_splits)

lemma credential_files_written:
  assumes "write_files ok (credential_files c key r) fs = (Inr (), fs')"
  shows "fs' (keyring_file (cf_cred_dir c)) = (if es_command_keyring r \<noteq> [] then Some (es_command_keyring r) else fs (keyring_file (cf_cred_dir c)))"
    "fs' (pubkey_file (cf_cred_dir c)) = Some (es_command_signing_pubkey r)"
  unfolding write_files_done [OF assms(1)]
  by (auto simp: credential_files_def keyring_file_def pubkey_file_def identity_in_dir_def Let_def map_add_def)

text \<open>What a ring must hold so that the commands of a signer verify.\<close>

definition trusts_signer :: "serde \<Rightarrow> ('sk, 'vk) crypto \<Rightarrow> 'sk command_signer \<Rightarrow> 'vk keyring \<Rightarrow> bool" where
  "trusts_signer S C sg ring \<longleftrightarrow>
     keyring_default_key ring = Some (verifying_key C (cs_key sg))
     \<and> keyring_get ring (key_id C (verifying_key C (cs_key sg))) = Some (verifying_key C (cs_key sg))
     \<and> (\<forall>e now. now \<le> env_expires_at e \<longrightarrow> verify_envelope_with S C ring (signer_sign S C sg e) now = Inr ())"

lemma trusts_signerI:
  assumes "crypto_ok C" "keyring_default_key ring = Some (verifying_key C (cs_key sg))"
    "keyring_get ring (key_id C (verifying_key C (cs_key sg))) = Some (verifying_key C (cs_key sg))"
  shows "trusts_signer S C sg ring"
  unfolding trusts_signer_def verify_envelope_with_Inr signer_sign_def
  using assms sign_envelope_authentic [OF assms(1,3)] by blast

text \<open>
  C25: trust is bootstrapped by enrolment. When an agent without an identity and without a keyring
  enrols with the control plane, the keyring that its command loop pins afterwards has the control
  plane's key as its default and verifies, until they expire, the commands that the control plane signs.
\<close>

theorem enrolment_pins_key:
  assumes "serde_ok S" "crypto_ok C"
    and signer: "load_or_generate_with_previous S C fresh loc prev = Inr (app_signer (hs_app s))"
      "(case prev of None \<Rightarrow> Inr [] | Some dir \<Rightarrow> read_previous_pubkeys dir) = Inr old"
      "\<And>f b k. (f, b) \<in> set old \<Longrightarrow> verifying_key_from_b64 C b = Inr k \<Longrightarrow>
         key_id C k = key_id C (verifying_key C (cs_key (app_signer (hs_app s)))) \<Longrightarrow> k = verifying_key C (cs_key (app_signer (hs_app s)))"
    and new: "\<not> identity_complete fs (identity_in_dir (cf_cred_dir c))" "fs (keyring_file (cf_cred_dir c)) = None"
    and post: "en_post N = (\<lambda>_. enroll_post E K io s)"
    and enrolled: "ensure_enrolled N c fs = (Inr (Some i), fs')"
  shows "\<exists>ring. load_pinned_keyring S C (fs' (keyring_file (cf_cred_dir c))) (fs' (pubkey_file (cf_cred_dir c))) = Some ring
    \<and> trusts_signer S C (app_signer (hs_app s)) ring"
proof -
  let ?sgn = "app_signer (hs_app s)"
  let ?k = "verifying_key C (cs_key ?sgn)"
  obtain ring where ring: "keyring_from_json S C (cs_keyring_json ?sgn) = Inr ring"
    "keyring_default_key ring = Some ?k" "keyring_get ring (key_id C ?k) = Some ?k"
    by (rule published_ring [OF assms(1,2) signer])
  have pubkey: "cs_pubkey_b64 ?sgn = verifying_key_to_b64 C ?k" by (rule load_signerE [OF signer(1)])
  from enrolled new(1) obtain key r q where
    w: "write_files (en_write N) (credential_files c key r) fs = (Inr (), fs')" and r: "enroll_post E K io s q = Inr r"
    by (auto simp: ensure_enrolled_def post Let_def split: option.splits prod.splits sum.splits if_splits)
  note files = credential_files_written [OF w] enroll_post_keys [OF r]
  show ?thesis
  proof (cases "cs_keyring_json ?sgn = []")
    case True
    have "load_pinned_keyring S C (fs' (keyring_file (cf_cred_dir c))) (fs' (pubkey_file (cf_cred_dir c))) = Some (keyring_single C ?k)"
      using files True new(2) assms(2) by (simp add: load_pinned_keyring_def pubkey verifying_key_b64_roundtrip)
    moreover have "trusts_signer S C ?sgn (keyring_single C ?k)"
      by (rule trusts_signerI [OF assms(2)]) (simp_all add: keyring_get_single keyring_default_key_def keyring_single_def keyring_get_def Let_def)
    ultimately show ?thesis by blast
  next
    case False
    have "\<not> keyring_is_empty ring" using ring(3) by (auto simp: keyring_is_empty_def keyring_get_def)
    with files False have "load_pinned_keyring S C (fs' (keyring_file (cf_cred_dir c))) (fs' (pubkey_file (cf_cred_dir c))) = Some ring"
      by (simp add: load_pinned_keyring_def ring(1))
    with trusts_signerI [OF assms(2) ring(2,3)] show ?thesis by blast
  qed
qed

theorem enrolment_pins_key_witness:
  "\<exists>s i fs' ring. cs_key (app_signer (hs_app s)) = True
     \<and> ensure_enrolled ((demo_enroll_env [])\<lparr>en_post := \<lambda>_. enroll_post demo_api demo_http demo_api_io s\<rparr>) demo_config Map.empty = (Inr (Some i), fs')
     \<and> load_pinned_keyring demo_serde demo_crypto (fs' (keyring_file (cf_cred_dir demo_config))) (fs' (pubkey_file (cf_cred_dir demo_config))) = Some ring
     \<and> trusts_signer demo_serde demo_crypto (app_signer (hs_app s)) ring"
proof -
  obtain sg where sg: "load_or_generate_with_previous demo_serde demo_crypto True NoKeyPath None = Inr sg" "cs_key sg = True"
    by (simp add: load_or_generate_with_previous_def load_signing_key_def Let_def)
  let ?s = "on_app (\<lambda>a. a\<lparr>app_signer := sg\<rparr>) demo_http_state"
  let ?N = "(demo_enroll_env [])\<lparr>en_post := \<lambda>_. enroll_post demo_api demo_http demo_api_io ?s\<rparr>"
  have signer: "app_signer (hs_app ?s) = sg" by (simp add: on_app_def on_server_def)
  have answer: "\<exists>x. enroll_post demo_api demo_http demo_api_io ?s q = Inr x" if "er_bootstrap_token q = ''tok''" for q
  proof -
    have "auth_mw (ae_jwt demo_api) (ae_uuid demo_api) demo_http
        \<lparr>rq_method = POST, rq_endpoint = EEnroll q, rq_authorization = None, rq_query = None\<rparr> = Pass None"
      by (simp add: auth_mw_def is_public_def)
    then show ?thesis
      using that by (simp add: enroll_post_def http_request_def api_enroll_def demo_http_def demo_api_io_def constant_time_eq_iff ca_sign_def Let_def)
  qed
  obtain x where "enroll_post demo_api demo_http demo_api_io ?s
      \<lparr>er_bootstrap_token = ''tok'', er_agent_id = AgentId (cf_agent_id demo_config), er_host = cf_host demo_config, er_csr_pem = ''csr''\<rparr> = Inr x"
    using answer by fastforce
  then have "ensure_enrolled ?N demo_config Map.empty =
      (case write_files (en_write ?N) (credential_files demo_config ''key'' x) Map.empty of
         (Inl e, fs') \<Rightarrow> (Inl e, fs') | (Inr _, fs') \<Rightarrow> (Inr (Some (identity_in_dir (cf_cred_dir demo_config))), fs'))"
    by (intro ensure_enrolled_posted [OF _ demo_config_enrolment]) (simp_all add: demo_enroll_env_def identity_complete_def)
  moreover have "\<forall>(p, _)\<in>set (credential_files demo_config ''key'' x). en_write ?N p"
    by (auto simp: demo_enroll_env_def credential_files_def Let_def identity_in_dir_def)
  ultimately obtain fs' where enrolled: "ensure_enrolled ?N demo_config Map.empty = (Inr (Some (identity_in_dir (cf_cred_dir demo_config))), fs')"
    using write_files_ok [of "credential_files demo_config ''key'' x" "en_write ?N" Map.empty] by simp
  have "\<exists>ring. load_pinned_keyring demo_serde demo_crypto (fs' (keyring_file (cf_cred_dir demo_config))) (fs' (pubkey_file (cf_cred_dir demo_config))) = Some ring
      \<and> trusts_signer demo_serde demo_crypto (app_signer (hs_app ?s)) ring"
  proof (rule enrolment_pins_key [OF demo_serde_ok demo_crypto_ok _ _ _ _ _ _ enrolled])
    show "load_or_generate_with_previous demo_serde demo_crypto True NoKeyPath None = Inr (app_signer (hs_app ?s))"
      by (simp add: signer sg(1))
    show "(case None of None \<Rightarrow> Inr [] | Some dir \<Rightarrow> read_previous_pubkeys dir) = Inr []" by simp
    show "en_post ?N = (\<lambda>_. enroll_post demo_api demo_http demo_api_io ?s)" by simp
  qed (simp_all add: identity_complete_def)
  with enrolled signer sg(2) show ?thesis by metis
qed

end
