(* ===== verification/Kube_Main.thy ===== *)
theory Kube_Main
  imports Deployment Messaging Kube_Watch_Props
begin

text \<open>
  The three programs of a cluster (\<^verbatim>\<open>ravn-k8s/src/bin\<close>): the executor with the key it trusts, the
  controller with its event watch and log scraper, the node agent; and the loops of the watches
  (\<open>run\<close> of \<^verbatim>\<open>watcher.rs\<close>, \<^verbatim>\<open>node.rs\<close> and \<^verbatim>\<open>logs.rs\<close>), which publish
  what the steps of \<open>Kube_Watch\<close> return. The Kubernetes client is an input: whether it is built, and
  what its streams deliver.
\<close>

section \<open>The executor\<close>

datatype cluster_exit =
    BadExecutorId
  | BadVerifyingKey string key_error
  | UnreadableKeyFile string
  | NoVerifyingKey
  | BadControllerId
  | KubeClient
  | Connecting connect_error
  | Subscribing
  | WatchStream

text \<open>A variable that is set but empty counts as absent for the keys; \<open>read\<close> is the file system.\<close>

definition load_verifying_key ::
    "('sk, 'vk) crypto \<Rightarrow> (string \<Rightarrow> string option) \<Rightarrow> (string \<Rightarrow> string option) \<Rightarrow> cluster_exit + 'vk" where
  "load_verifying_key C vars read =
     (case kube_env vars ''RAVN_VERIFYING_KEY'' of
        Some b64 \<Rightarrow>
          (case verifying_key_from_b64 C b64 of Inr k \<Rightarrow> Inr k | Inl e \<Rightarrow> Inl (BadVerifyingKey ''RAVN_VERIFYING_KEY'' e))
      | None \<Rightarrow>
          (case kube_env vars ''RAVN_VERIFYING_KEY_FILE'' of
             None \<Rightarrow> Inl NoVerifyingKey
           | Some path \<Rightarrow>
               (case read path of
                  None \<Rightarrow> Inl (UnreadableKeyFile path)
                | Some text \<Rightarrow>
                    (case verifying_key_from_b64 C (trim text) of
                       Inr k \<Rightarrow> Inr k
                     | Inl e \<Rightarrow> Inl (BadVerifyingKey ''RAVN_VERIFYING_KEY_FILE'' e)))))"

record 'vk executor_task =
  xt_agent_id :: uuid
  xt_nats_url :: string
  xt_ring :: "'vk keyring"
  xt_commands :: string
  xt_results :: string

text \<open>\<open>main\<close> up to the loop of \<open>run_command_loop\<close>: the client, the broker and the subscription may fail.\<close>

definition executor_start ::
    "('sk, 'vk) crypto \<Rightarrow> (uuid \<Rightarrow> string) \<Rightarrow> (string \<Rightarrow> uuid option) \<Rightarrow> uuid \<Rightarrow> (string \<Rightarrow> string option) \<Rightarrow> (string \<Rightarrow> string option)
      \<Rightarrow> bool \<Rightarrow> bool \<Rightarrow> bool \<Rightarrow> cluster_exit + 'vk executor_task" where
  "executor_start C U parse fresh vars read kube nats sub =
     (case (case kube_env vars ''RAVN_EXECUTOR_ID'' of Some s \<Rightarrow> parse s | None \<Rightarrow> Some fresh) of
        None \<Rightarrow> Inl BadExecutorId
      | Some i \<Rightarrow>
          (case load_verifying_key C vars read of
             Inl e \<Rightarrow> Inl e
           | Inr k \<Rightarrow>
               if \<not> kube then Inl KubeClient
               else if \<not> nats then Inl (Connecting NatsConnect)
               else if \<not> sub then Inl Subscribing
               else Inr \<lparr>xt_agent_id = i,
                         xt_nats_url = (case vars ''NATS_URL'' of Some u \<Rightarrow> u | None \<Rightarrow> ''nats://127.0.0.1:4222''),
                         xt_ring = keyring_single C k,
                         xt_commands = ''ravn.commands.'' @ U i, xt_results = ''ravn.results.'' @ U i\<rparr>))"

section \<open>The watches\<close>

text \<open>
  A watch is a step on what the stream delivers, with a memory and the messages it asks to publish;
  each is published in turn, and a failure to publish is only logged. The loop ends with the stream
  or with its first error.
\<close>

fun publish_each :: "(message \<Rightarrow> 'w \<Rightarrow> (publish_error + unit) \<times> 'w) \<Rightarrow> message list \<Rightarrow> 'w \<Rightarrow> 'w" where
  "publish_each pub [] w = w"
| "publish_each pub (m # ms) w = publish_each pub ms (snd (pub m w))"

fun watch_run ::
    "('e \<Rightarrow> 's \<Rightarrow> message list \<times> 's) \<Rightarrow> (message \<Rightarrow> 'w \<Rightarrow> (publish_error + unit) \<times> 'w) \<Rightarrow> (unit + 'e) list \<Rightarrow> 's \<times> 'w
      \<Rightarrow> (cluster_exit + unit) \<times> 's \<times> 'w" where
  "watch_run step pub [] sw = (Inr (), sw)"
| "watch_run step pub (Inl _ # xs) sw = (Inl WatchStream, sw)"
| "watch_run step pub (Inr x # xs) (s, w) =
     (case step x s of (ms, s') \<Rightarrow> watch_run step pub xs (s', publish_each pub ms w))"

definition events_run ::
    "agent_id \<Rightarrow> string \<Rightarrow> (message \<Rightarrow> 'w \<Rightarrow> (publish_error + unit) \<times> 'w) \<Rightarrow> (unit + event_env \<times> kube_event kube_watch_event) list \<Rightarrow> 'w
      \<Rightarrow> (cluster_exit + unit) \<times> seen_counts \<times> 'w" where
  "events_run agent host pub xs w =
     watch_run (\<lambda>(E, x) s. case event_watch E agent host x s of (m, s') \<Rightarrow> (case m of None \<Rightarrow> [] | Some m \<Rightarrow> [m], s'))
       pub xs (Map.empty, w)"

definition nodes_run ::
    "agent_id \<Rightarrow> string \<Rightarrow> (message \<Rightarrow> 'w \<Rightarrow> (publish_error + unit) \<times> 'w) \<Rightarrow> (unit + (nat \<Rightarrow> event_env) \<times> kube_node kube_watch_event) list
      \<Rightarrow> 'w \<Rightarrow> (cluster_exit + unit) \<times> string set \<times> 'w" where
  "nodes_run agent host pub xs w = watch_run (\<lambda>(E, x) s. node_watch E agent host x s) pub xs ({}, w)"

text \<open>\<open>None\<close> when the deduplicator cannot be made (a capacity of zero panics).\<close>

definition logs_run ::
    "'c lru_ops \<Rightarrow> (string \<Rightarrow> u64) \<Rightarrow> log_config \<Rightarrow> agent_id \<Rightarrow> string \<Rightarrow> (message \<Rightarrow> 'w \<Rightarrow> (publish_error + unit) \<times> 'w)
      \<Rightarrow> (unit + (string \<times> nat \<times> event_env) list option \<times> kube_pod kube_watch_event) list \<Rightarrow> 'w
      \<Rightarrow> panic + (cluster_exit + unit) \<times> 'c log_deduper \<times> 'w" where
  "logs_run R hash K agent host pub xs w =
     (case deduper_new (lg_per_pod_cap K) (lg_ttl K) of
        Inl p \<Rightarrow> Inl p
      | Inr d \<Rightarrow> Inr (watch_run (\<lambda>(logs, x) s. log_watch R hash K agent host logs x s) pub xs (d, w)))"

section \<open>The controller and the node agent\<close>

record controller_task =
  ct_publisher :: publisher
  ct_logs :: log_config
  ct_agent :: agent_id
  ct_host :: string
  ct_namespace :: "string option"

definition controller_start ::
    "(uuid \<Rightarrow> string) \<Rightarrow> (string \<Rightarrow> string option) \<Rightarrow> (string \<Rightarrow> uuid option) \<Rightarrow> uuid \<Rightarrow> bool \<Rightarrow> bool \<Rightarrow> cluster_exit + controller_task" where
  "controller_start U vars parse fresh kube nats =
     (case kube_config_from_env vars parse fresh of
        None \<Rightarrow> Inl BadControllerId
      | Some K \<Rightarrow>
          if \<not> kube then Inl KubeClient
          else (case publisher_connect U nats K of
                  Inl e \<Rightarrow> Inl (Connecting e)
                | Inr P \<Rightarrow> Inr \<lparr>ct_publisher = P, ct_logs = log_config_default\<lparr>lg_namespace := kc_namespace K\<rparr>,
                               ct_agent = kc_agent_id K, ct_host = kc_host K, ct_namespace = kc_namespace K\<rparr>))"

record node_task =
  nk_publisher :: publisher
  nk_agent :: agent_id
  nk_host :: string
  nk_field_selector :: "string option"

text \<open>The watch of the node agent is restricted to its node by a field selector, when it knows its name.\<close>

definition node_agent_start ::
    "(uuid \<Rightarrow> string) \<Rightarrow> (string \<Rightarrow> string option) \<Rightarrow> (string \<Rightarrow> uuid option) \<Rightarrow> uuid \<Rightarrow> bool \<Rightarrow> bool \<Rightarrow> cluster_exit + node_task" where
  "node_agent_start U vars parse fresh kube nats =
     (case kube_config_from_env vars parse fresh of
        None \<Rightarrow> Inl BadControllerId
      | Some K \<Rightarrow>
          if \<not> kube then Inl KubeClient
          else (case publisher_connect U nats K of
                  Inl e \<Rightarrow> Inl (Connecting e)
                | Inr P \<Rightarrow> Inr \<lparr>nk_publisher = P, nk_agent = kc_agent_id K,
                               nk_host = (case kc_node_name K of Some n \<Rightarrow> n | None \<Rightarrow> kc_host K),
                               nk_field_selector = map_option (\<lambda>n. ''metadata.name='' @ n) (kc_node_name K)\<rparr>))"

section \<open>What the executor trusts\<close>

text \<open>
  An executor that starts trusts exactly one key, the configured one; a key in the environment that
  does not decode stops it instead of falling back to the file. Its subjects are those of its id.
\<close>

theorem executor_trusts_one_key:
  assumes "executor_start C U parse fresh vars read kube nats sub = Inr t"
  shows "\<exists>k key. only_key (xt_ring t) k \<and> keyring_get (xt_ring t) (key_id C k) = Some k
      \<and> verifying_key_from_b64 C key = Inr k
      \<and> (case kube_env vars ''RAVN_VERIFYING_KEY'' of
           Some b64 \<Rightarrow> key = b64
         | None \<Rightarrow> (\<exists>path file. kube_env vars ''RAVN_VERIFYING_KEY_FILE'' = Some path \<and> read path = Some file \<and> key = trim file))
      \<and> xt_commands t = ''ravn.commands.'' @ U (xt_agent_id t) \<and> xt_results t = ''ravn.results.'' @ U (xt_agent_id t)"
proof -
  from assms obtain k where k: "load_verifying_key C vars read = Inr k" and t: "xt_ring t = keyring_single C k"
    "xt_commands t = ''ravn.commands.'' @ U (xt_agent_id t)" "xt_results t = ''ravn.results.'' @ U (xt_agent_id t)"
    unfolding executor_start_def by (auto split: option.splits sum.splits if_splits)
  from k obtain key where "verifying_key_from_b64 C key = Inr k"
    "case kube_env vars ''RAVN_VERIFYING_KEY'' of
           Some b64 \<Rightarrow> key = b64
         | None \<Rightarrow> (\<exists>path file. kube_env vars ''RAVN_VERIFYING_KEY_FILE'' = Some path \<and> read path = Some file \<and> key = trim file)"
    unfolding load_verifying_key_def by (auto split: option.splits sum.splits)
  with t only_key_single [of C k] show ?thesis by (auto simp: keyring_get_single)
qed

section \<open>What the watches publish\<close>

text \<open>The messages that the steps of a stream ask for, up to its first error.\<close>

fun watch_messages :: "('e \<Rightarrow> 's \<Rightarrow> message list \<times> 's) \<Rightarrow> (unit + 'e) list \<Rightarrow> 's \<Rightarrow> message list" where
  "watch_messages step [] s = []"
| "watch_messages step (Inl _ # xs) s = []"
| "watch_messages step (Inr x # xs) s = (case step x s of (ms, s') \<Rightarrow> ms @ watch_messages step xs s')"

lemma publish_each_append: "publish_each pub (ms @ ns) w = publish_each pub ns (publish_each pub ms w)"
  by (induction ms arbitrary: w) simp_all

text \<open>
  Publishing never changes what is detected: a watch publishes exactly the messages that its steps ask
  for, in order, whatever the transport does with them.
\<close>

theorem watch_publishes_steps:
  "snd (snd (watch_run step pub xs (s, w))) = publish_each pub (watch_messages step xs s) w"
proof (induction xs arbitrary: s w)
  case Nil
  then show ?case by simp
next
  case (Cons x xs)
  show ?case
  proof (cases x)
    case (Inr e)
    obtain ms s' where "step e s = (ms, s')" by fastforce
    with Inr Cons.IH [of s'] show ?thesis by (simp add: publish_each_append)
  qed simp
qed

text \<open>Over the broker, with a working connection, they arrive at the bus in that order under one subject.\<close>

theorem watch_over_nats:
  assumes "ni_publish io"
  shows "fst (publish_each (publisher_publish M read post io (NatsPublisher subject)) ms (bus, s))
    = bus @ map (\<lambda>m. (subject, mc_print M m)) ms"
  using assms by (induction ms arbitrary: bus s) (simp_all add: publisher_publish_def nats_publish_to_def)

end
