(* ===== verification/Server_Main.thy ===== *)
theory Server_Main
  imports Server_Props Http_Props
begin

text \<open>
  The metrics of the control plane (\<^verbatim>\<open>ravn-server/src/metrics.rs\<close>) and the last part of its
  start (\<open>main\<close> of \<^verbatim>\<open>main.rs\<close>): the registry, the state the handlers share, the two ingestion
  loops and the listener. The metrics library is a parameter.
\<close>

section \<open>The families\<close>

datatype metric_kind = IntCounter | IntCounterVec string | IntGauge | IntGaugeVec string | Histogram "nat list"

text \<open>Name and kind of each family, a vector with its label, in the order of registration; buckets in milliseconds.\<close>

definition metric_families :: "(string \<times> metric_kind) list" where
  "metric_families =
     [(''ravn_events_ingested_total'', IntCounterVec ''severity''),
      (''ravn_heartbeats_total'', IntCounter),
      (''ravn_ingest_errors_total'', IntCounter),
      (''ravn_explanations_generated_total'', IntCounter),
      (''ravn_explanation_errors_total'', IntCounter),
      (''ravn_agents'', IntGaugeVec ''status''),
      (''ravn_remediation_outcomes_total'', IntCounterVec ''status''),
      (''ravn_remediation_proposed_total'', IntCounterVec ''decision''),
      (''ravn_circuit_breaker_trips_total'', IntCounter),
      (''ravn_kill_switch_active'', IntGauge),
      (''ravn_inference_latency_seconds'', Histogram [100, 250, 500, 1000, 2500, 5000, 10000, 20000, 30000]),
      (''ravn_inference_timeouts_total'', IntCounter),
      (''ravn_command_channel_errors_total'', IntCounter)]"

text \<open>The library: making a metric, registering it (both may refuse), and the names a registry holds.\<close>

record 'r metrics_lib =
  ml_empty :: 'r
  ml_make :: "string \<Rightarrow> metric_kind \<Rightarrow> bool"
  ml_register :: "string \<Rightarrow> metric_kind \<Rightarrow> 'r \<Rightarrow> 'r option"
  ml_names :: "'r \<Rightarrow> string set"

fun register_all :: "'r metrics_lib \<Rightarrow> (string \<times> metric_kind) list \<Rightarrow> 'r \<Rightarrow> 'r option" where
  "register_all L [] r = Some r"
| "register_all L ((n, k) # fs) r = (case ml_register L n k r of None \<Rightarrow> None | Some r' \<Rightarrow> register_all L fs r')"

text \<open>\<open>Metrics::new\<close>; \<open>None\<close> is the panic of an \<open>expect\<close>.\<close>

definition metrics_new :: "'r metrics_lib \<Rightarrow> 'r option" where
  "metrics_new L =
     (if list_all (\<lambda>(n, k). ml_make L n k) metric_families then register_all L metric_families (ml_empty L) else None)"

text \<open>
  Documented behaviour: a name of letters, digits, underscores and colons that does not begin with a
  digit is accepted (labels without colons), and a name can be registered once.
\<close>

definition metric_char :: "char \<Rightarrow> bool" where
  "metric_char c \<longleftrightarrow> (let n = (of_char c :: nat) in 97 \<le> n \<and> n \<le> 122 \<or> n = 95)"

definition metrics_ok :: "'r metrics_lib \<Rightarrow> bool" where
  "metrics_ok L \<longleftrightarrow>
     ml_names L (ml_empty L) = {}
     \<and> (\<forall>n k. n \<noteq> [] \<and> list_all metric_char n \<longrightarrow> (case k of IntCounterVec l \<Rightarrow> list_all metric_char l | IntGaugeVec l \<Rightarrow> list_all metric_char l | _ \<Rightarrow> True)
            \<longrightarrow> ml_make L n k)
     \<and> (\<forall>n k r. n \<notin> ml_names L r \<longrightarrow> (\<exists>r'. ml_register L n k r = Some r' \<and> ml_names L r' = insert n (ml_names L r)))"

section \<open>Running\<close>

text \<open>The gauge of the kill switch, set once.\<close>

definition kill_switch_gauge :: "('a, 'f) server_config \<Rightarrow> int" where
  "kill_switch_gauge cfg = (if pc_auto_enabled (sc_policy cfg) then 0 else 1)"

datatype ('pe, 'r) server_exit = StartFailed "'pe start_error" | MetricsPanic | BindFailed

record ('sk, 'r) running_server =
  rn_config :: http_config
  rn_state :: "'sk http_state"
  rn_registry :: 'r
  rn_kill_switch :: int

text \<open>
  The state begins with the tables and the settings file as they were left, an empty feed and the
  counters at zero; the loops that ingest are running when the listener is bound.
\<close>

definition server_main ::
    "serde \<Rightarrow> ('sk, 'vk) crypto \<Rightarrow> ('a, 'f) server_env \<Rightarrow> ('sk, 'pe) start_io \<Rightarrow> 'w fetcher \<Rightarrow> 'r metrics_lib \<Rightarrow> fleet \<Rightarrow> string option \<Rightarrow> bool \<Rightarrow> 'w
      \<Rightarrow> (('pe, 'r) server_exit + ('sk, 'r) running_server) \<times> 'w" where
  "server_main S C V io fetch L f settings bound w =
     (case start_up S C V io fetch w of
        (Inl e, w') \<Rightarrow> (Inl (StartFailed e), w')
      | (Inr (K, app), w') \<Rightarrow>
          (case metrics_new L of
             None \<Rightarrow> (Inl MetricsPanic, w')
           | Some r \<Rightarrow>
               if \<not> bound then (Inl BindFailed, w')
               else (Inr \<lparr>rn_config = K,
                          rn_state = \<lparr>hs_server = \<lparr>sv_app = app, sv_fleet = f, sv_feed = [], sv_counts = []\<rparr>, hs_settings = settings\<rparr>,
                          rn_registry = r,
                          rn_kill_switch = (case server_config_from_env V of Inr cfg \<Rightarrow> kill_switch_gauge cfg | Inl _ \<Rightarrow> 0)\<rparr>, w')))"

section \<open>The start does not panic\<close>

lemma register_all_fresh:
  assumes "metrics_ok L" "distinct (map fst fs)" "set (map fst fs) \<inter> ml_names L r = {}"
  shows "\<exists>r'. register_all L fs r = Some r' \<and> ml_names L r' = set (map fst fs) \<union> ml_names L r"
  using assms(2,3)
proof (induction fs arbitrary: r)
  case Nil
  then show ?case by simp
next
  case (Cons f fs)
  obtain n k where f: "f = (n, k)" by fastforce
  with Cons.prems have "n \<notin> ml_names L r" by simp
  with assms(1) obtain r' where r': "ml_register L n k r = Some r'" "ml_names L r' = insert n (ml_names L r)"
    unfolding metrics_ok_def by blast
  with Cons.prems f have "distinct (map fst fs)" "set (map fst fs) \<inter> ml_names L r' = {}" by auto
  from Cons.IH [OF this] r' f show ?case by auto
qed

lemma families_distinct: "distinct (map fst metric_families)"
  by (simp add: metric_families_def)

lemma families_valid:
  "list_all (\<lambda>(n, k). n \<noteq> [] \<and> list_all metric_char n
     \<and> (case k of IntCounterVec l \<Rightarrow> list_all metric_char l | IntGaugeVec l \<Rightarrow> list_all metric_char l | _ \<Rightarrow> True)) metric_families"
  by (simp add: metric_families_def metric_char_def)

theorem metrics_new_total:
  assumes "metrics_ok L"
  shows "\<exists>r. metrics_new L = Some r \<and> ml_names L r = fst ` set metric_families"
proof -
  have "list_all (\<lambda>(n, k). ml_make L n k) metric_families"
    using families_valid assms unfolding metrics_ok_def list_all_iff by fast
  moreover have "ml_names L (ml_empty L) = {}" using assms by (simp add: metrics_ok_def)
  ultimately show ?thesis
    using register_all_fresh [OF assms families_distinct, of "ml_empty L"] by (simp add: metrics_new_def)
qed

text \<open>
  A start either fails with an error of \<open>start_up\<close>, or runs if the address can be bound; it never
  panics over the metrics, and the gauge of the kill switch agrees with the health snapshot.
\<close>

theorem server_main_outcome:
  assumes "metrics_ok L"
  shows "(case start_up S C V io fetch w of
       (Inl e, w') \<Rightarrow> server_main S C V io fetch L f settings bound w = (Inl (StartFailed e), w')
     | (Inr (K, app), w') \<Rightarrow>
         (if bound then (\<exists>R. server_main S C V io fetch L f settings bound w = (Inr R, w')
              \<and> rn_config R = K \<and> hs_app (rn_state R) = app
              \<and> (rn_kill_switch R = 1 \<longleftrightarrow> sh_kill_switch_active (system_health_of K (hs_server (rn_state R)))))
          else server_main S C V io fetch L f settings bound w = (Inl BindFailed, w')))"
proof (cases "start_up S C V io fetch w")
  case (Pair r w')
  show ?thesis
  proof (cases r)
    case (Inl e)
    with Pair show ?thesis by (simp add: server_main_def)
  next
    case (Inr Ka)
    obtain K app where Ka: "Ka = (K, app)" by fastforce
    from metrics_new_total [OF assms] obtain reg where reg: "metrics_new L = Some reg" by blast
    have up: "start_up S C V io fetch w = (Inr (K, app), w')" using Pair Inr Ka by simp
    obtain cfg where cfg: "server_config_from_env V = Inr cfg" and app: "start_app S C io cfg = Inr app"
      by (rule start_upE [OF up])
    have "pe_auto_enabled (app_policy app) = pc_auto_enabled (sc_policy cfg)"
      using app unfolding start_app_def by (auto simp: policy_engine_new_def split: sum.splits option.splits)
    then show ?thesis
      by (simp add: up reg server_main_def cfg kill_switch_gauge_def system_health_of_def Let_def)
  qed
qed

end
