(* ===== verification/Spec2Isabelle.thy ===== *)
theory Spec2Isabelle
  imports Templates Crypto_Props Host_Props Policy Command_Queue Remediation_Store Knowledge Control_Props
    Agent_Props Kube_Executor Offline_Buffer Failed_Units Detection_Props Agent_Config Agent_Loop_Props
    Fleet_Props Http_Props Kube_Watch_Props Mcp_Props Server_Props
    Eval_Props Deployment Messaging Agent_Main Kube_Main Server_Main
begin

text \<open>
  A verification library for ravn-agents, a fleet monitor that detects faults on hosts and in
  Kubernetes clusters, explains them with a small language model and repairs them with signed commands.

  \<^bold>\<open>The program.\<close> An agent on each host (\<^verbatim>\<open>crates/ravn-agent\<close>) or in a cluster
  (\<^verbatim>\<open>crates/ravn-k8s\<close>) turns journal lines, failed units, changed files, updates and cluster
  events into messages, buffers them while the network is away and publishes them. The control plane
  (\<^verbatim>\<open>crates/ravn-server\<close>) stores them, matches an event against curated templates, asks its policy
  whether the repair is forbidden, needs a human or may run by itself, writes the audit trail and
  queues a signed command. The agent pulls commands, checks signature, age and ledger, and hands them
  to the privileged actuator (\<^verbatim>\<open>crates/ravn-actuator\<close>), which checks them again and runs a fixed set
  of processes; in a cluster \<^verbatim>\<open>command_loop.rs\<close> and \<^verbatim>\<open>executor.rs\<close> do both.
  \<^verbatim>\<open>crates/ravn-mcp\<close> offers the API as tools to a language model, and
  \<^verbatim>\<open>crates/ravn-eval\<close> scores model answers offline.

  \<^bold>\<open>Conventions.\<close> A Rust string is its list of UTF-8 bytes (so slicing inside a character is visible),
  a UUID a 128-bit word, a time an integer count of nanoseconds, a \<^verbatim>\<open>BTreeMap\<close> a sorted association
  list, a \<^verbatim>\<open>Result\<close> a sum with the error on the left, and a panic the value \<open>Panic\<close>. Counters and
  limits keep their width (\<open>u8\<close>, \<open>u32\<close>, \<open>u64\<close>, \<open>i64\<close> with their wrap-around or saturation) where it
  matters. Handlers are functions on explicit states; what the outside decides (clocks, fresh ids,
  failures of SQL, of files and of the network) is an argument, so a property holds for every choice.
  Third-party code is a parameter with its documented behaviour as a named hypothesis: \<open>serde_ok\<close> (JSON,
  UUID and time texts read back), \<open>crypto_ok\<close> (Ed25519 and base64), \<open>codec_ok\<close> (messages read back),
  \<open>lru_ok\<close> (the cache of the log watcher), \<open>drift_safe\<close> (the diff library), \<open>nats_ok\<close> (subjects of
  the broker), \<open>metrics_ok\<close> (the metrics registry). \<open>Instances\<close> and
  \<open>Countability\<close> give concrete instances, on which the witnesses run.

  \<^bold>\<open>Shared theories.\<close> \<open>Prelude\<close>: machine types, Rust's string functions, ordered maps (locale
  \<open>ordered_map\<close>), and the locale \<open>transition_invariant\<close>, through which every state machine below gets
  its reachable-state invariant. \<open>Text\<close>: decimal numbers, characters, slicing. \<open>Core_Types\<close>: the schema
  of \<^verbatim>\<open>crates/ravn-core/src\<close> (events, payloads, templates, proposals, envelopes).

  \<^bold>\<open>Commands and their authority.\<close>
  \<^item> \<open>Templates\<close> (\<^verbatim>\<open>ravn-core/src/remediation.rs\<close>): \<open>validate\<close> accepts exactly the well-formed templates;
    the placeholder loop equals parsing and rendering.
  \<^item> \<open>Signing\<close>, \<open>Crypto\<close>, \<open>Crypto_Props\<close> (\<^verbatim>\<open>signing_payload\<close>, \<^verbatim>\<open>ravn-crypto/src/lib.rs\<close>): the signed
    bytes determine the envelope; verification accepts exactly authentic, unexpired envelopes and names
    its reason otherwise; the keyring document reads back.
  \<^item> \<open>Policy\<close> (\<^verbatim>\<open>policy.rs\<close>): the decision for every rule set, tier and switch; the window bound of the
    circuit breaker; the backtracking glob against its pattern language.
  \<^item> \<open>Command_Queue\<close> (\<^verbatim>\<open>command.rs\<close>): start-up of the signer, key rotation, and the queue as a
    \<open>command_channel\<close> that delivers each command once and in order.
  \<^item> \<open>Remediation_Store\<close> (the audit rows of \<^verbatim>\<open>db.rs\<close>, the store of \<^verbatim>\<open>remediation.rs\<close>): the invariant
    of the rows and of the deduplication cache through any operations, SQL failures and restarts.
  \<^item> \<open>Registry\<close>, \<open>Knowledge\<close>, \<open>Orchestrator\<close> (rest of \<^verbatim>\<open>remediation.rs\<close>, \<^verbatim>\<open>knowledge.rs\<close>, the approval
    handlers of \<^verbatim>\<open>api.rs\<close>), composed in \<open>Control_Plane\<close> into one step relation with overlapping
    approvals. \<open>Control_Props\<close>: every command that exists was built from a loaded template, is signed, has
    an audit row and is never an automatic dangerous one; each policy decision has exactly its effects.
  \<^item> \<open>Server_Config\<close>, \<open>Server_Props\<close> (\<^verbatim>\<open>config.rs\<close>, \<^verbatim>\<open>main.rs\<close>, the rate limiter of \<^verbatim>\<open>state.rs\<close>):
    every setting with its default and error, and the order of start-up. With the switch closed or no
    policy file, every command ever issued was approved by a human; logins always check a non-empty
    audience; an air-gapped start fetches nothing; the rate limiter's bound. \<open>Server_Main\<close> (\<^verbatim>\<open>metrics.rs\<close>,
    the end of \<^verbatim>\<open>main.rs\<close>): the metrics always register, so a start fails with one of its errors or runs.
  \<^item> \<open>Agent_Remediation\<close>, \<open>Agent_Props\<close> (\<^verbatim>\<open>ravn-agent/src/remediation.rs\<close>): at most once across restarts,
    given whole ledger writes; what a torn write does.
  \<^item> \<open>Actuator\<close> states the interface of an executor as the locales \<open>capability_executor\<close> and
    \<open>timed_executor\<close> and proves order, effects and termination once; \<open>Host_Actuator\<close> with \<open>Host_Props\<close>
    (\<^verbatim>\<open>ravn-actuator/src\<close>) and \<open>Kube_Executor\<close> (\<^verbatim>\<open>ravn-k8s/src/executor.rs\<close>, \<^verbatim>\<open>command_loop.rs\<close>)
    interpret them: only whitelisted processes and requests, for authentic commands, in order.

  \<^bold>\<open>Detection and reporting.\<close>
  \<^item> \<open>Failed_Units\<close>, \<open>Detection\<close>, \<open>Detection_Props\<close> (\<^verbatim>\<open>ravn-agent/src/detection\<close>): a unit is reported
    once per failure that outlasts its grace; updates and drift are \<open>change_detector\<close>s; log lines.
  \<^item> \<open>Agent_Config\<close> (\<^verbatim>\<open>config.rs\<close>, \<^verbatim>\<open>enrollment.rs\<close>), \<open>Agent_Loop\<close>, \<open>Agent_Loop_Props\<close>
    (\<^verbatim>\<open>inference.rs\<close>, \<^verbatim>\<open>main.rs\<close>, \<^verbatim>\<open>transport.rs\<close>): configurations that load are well formed; exactly
    which message panics; digests and retries. \<open>Agent_Main\<close> (\<^verbatim>\<open>main.rs\<close>): only a bad configuration or
    transport stops the start, no timer has period 0, and an agent that enrols with the control plane
    pins a keyring that verifies the control plane's commands.
  \<^item> \<open>Offline_Buffer\<close> (\<^verbatim>\<open>buffer.rs\<close>): the SQL outbox refines a bounded queue, it drains when the
    transport works, and no alarm is lost while it has room.
  \<^item> \<open>Kube_Watch\<close>, \<open>Kube_Watch_Props\<close> (\<^verbatim>\<open>mapping.rs\<close>, \<^verbatim>\<open>watcher.rs\<close>, \<^verbatim>\<open>node.rs\<close>, \<^verbatim>\<open>logs.rs\<close>,
    \<^verbatim>\<open>publish.rs\<close>, \<^verbatim>\<open>http.rs\<close>): conditions are reported at their edges; the bounded deduplicator
    decides like an unbounded one and its memory is bounded. \<open>Kube_Main\<close> (\<^verbatim>\<open>bin/*.rs\<close> and the loops of
    the watches): the executor trusts exactly the configured key; a watch publishes what its steps ask for.
  \<^item> \<open>Messaging\<close> (\<^verbatim>\<open>transport.rs\<close>, \<^verbatim>\<open>nats.rs\<close>, the loops of \<^verbatim>\<open>ingest.rs\<close>, the feed of \<^verbatim>\<open>api.rs\<close>):
    from the outbox of an agent over the broker to the table of events; an HTTP publisher is told
    that its message was accepted exactly when the control plane took it on.
  \<^item> \<open>Fleet\<close>, \<open>Fleet_Props\<close> (tables of \<^verbatim>\<open>db.rs\<close>, \<^verbatim>\<open>ingest.rs\<close>, \<^verbatim>\<open>inference.rs\<close>, \<^verbatim>\<open>metrics.rs\<close>): the
    tables stay well formed, the topology partitions the fleet, a cut-off explanation is recovered.

  \<^bold>\<open>Interfaces to people and models.\<close>
  \<^item> \<open>Http_Api\<close>, \<open>Http_Props\<close> (\<^verbatim>\<open>auth.rs\<close>, \<^verbatim>\<open>api.rs\<close>, \<^verbatim>\<open>ca.rs\<close>): changes need the admin role, ingest a
    token, enrolment the bootstrap token.
  \<^item> \<open>Mcp\<close>, \<open>Mcp_Props\<close> (\<^verbatim>\<open>ravn-mcp/src\<close>): the locale \<open>guarded_net\<close> is a world that allowed calls keep
    in an invariant, interpreted on a logging network and on the modelled control plane: a read-only
    server leaves it unchanged; every request is answered once and in order.
  \<^item> \<open>Eval\<close>, \<open>Eval_Props\<close> (\<^verbatim>\<open>ravn-eval/src\<close>): scores lie between 0 and 1 and are full exactly for ideal
    answers; rows cover the corpus; the corpus does not depend on directory order.

  \<^bold>\<open>End to end.\<close> \<open>Deployment\<close> joins the parts into one step relation: one control plane, an agent and
  an actuator on every host, an executor in every cluster, and a network that delivers what it likes. Its
  properties are in this theory: whatever is spawned on a host or asked of a cluster belongs to a command
  that the control plane issued from one of its templates; and a command that an agent receives in time
  is handled, not rejected. Unforgeability of signatures is a hypothesis on the envelopes that arrive
  (\<open>unforged\<close>); the executors trust only the control plane's key (\<open>only_key\<close>), whatever keys an agent
  fetches.

  \<^bold>\<open>Loops.\<close> Loops over data are structural or have a \<open>measure\<close> (placeholders, globs, lines). The
  verification poll of an executor is a \<open>partial_function\<close> over options, since it may run as long as the
  clock allows: that it returns is proved from the laws of \<open>timed_executor\<close> (each round takes at least
  the sleep, and the deadline is a 64-bit number of seconds), so no fuel is chosen anywhere. The
  endless loops (polling, the accept loop, the tool server) are step relations or functions on the
  finite list of what they have read so far.

  \<^bold>\<open>Idealisations.\<close> Floating-point numbers occur in the rate limiter, the scores and timings only: the
  rate limiter is stated over arbitrary operations and its bound is proved for exact reals, the scores
  are exact reals. JSON numbers are integers, as the sources build and read no others in the modelled
  documents. An \<open>await\<close> is a point where other steps may come in between where the code holds no lock
  across it and the state is shared (approvals, the store); other handlers are atomic.

  \<^bold>\<open>Not modelled.\<close> Log lines, progress output and usage texts; the TCP listener,
  WebSocket framing, TLS and signal handling; the text of rendered metrics and of the OpenAPI
  document; SQL itself (the statements are modelled by their effect on rows); code that derives
  serialisers; the HTML dashboard, Nix modules and shell scripts, which are not Rust; and what lies in
  third-party crates.
\<close>

section \<open>From the control plane to the host\<close>

text \<open>The commands that a run of the control plane has issued, also those that are gone by its end.\<close>

definition issued :: "serde \<Rightarrow> ('sk, 'vk) crypto \<Rightarrow> rfc3339 \<Rightarrow> 'sk system \<Rightarrow> 'sk system \<Rightarrow> envelope set" where
  "issued S C F s0 s =
     {e. \<exists>s1. (system_step S C F)\<^sup>*\<^sup>* s0 s1 \<and> (system_step S C F)\<^sup>*\<^sup>* s1 s \<and> e \<in> live_commands s1}"

lemma issued_templated:
  assumes "system_init S s0" "e \<in> issued S C F s0 s"
  shows "templated (sys_app s) e"
proof -
  from assms(2) obtain s1 where s1: "(system_step S C F)\<^sup>*\<^sup>* s0 s1" "(system_step S C F)\<^sup>*\<^sup>* s1 s" "e \<in> live_commands s1"
    by (auto simp: issued_def)
  have ok: "system_ok S C s1" by (rule control_plane.reachable_inv [OF assms(1) s1(1)])
  then have "system_ok S C s1 \<and> sys_app s1 = sys_app s1" by simp
  from configured.reachable_inv [OF this s1(2)] have same: "same_config (sys_app s1) (sys_app s)" by simp
  from templated_live [OF ok s1(3)] templated_same [OF same] show ?thesis by simp
qed


definition demo_after :: "bool system" where
  "demo_after = (demo_system Auto)\<lparr>sys_app := prepare_inner demo_serde demo_crypto demo_rfc (demo_inputs 5) demo_event (demo_app Auto)\<rparr>"

lemma demo_moves: "system_step demo_serde demo_crypto demo_rfc (demo_system Auto) demo_after"
  using system_step.event [of "demo_inputs 5" "demo_system Auto" demo_serde demo_crypto demo_rfc demo_event]
    demo_unused [of _ Auto] by (simp add: demo_after_def demo_system_def)

lemma demo_reaches: "(system_step demo_serde demo_crypto demo_rfc)\<^sup>*\<^sup>* (demo_system Auto) demo_after"
  using demo_moves by (rule r_into_rtranclp)

lemma demo_after_config:
  "system_ok demo_serde demo_crypto demo_after" "app_templates (sys_app demo_after) = [demo_template]"
  "app_ttl (sys_app demo_after) = 300" "cs_key (app_signer (sys_app demo_after)) = True"
proof -
  have "system_ok demo_serde demo_crypto (demo_system Auto) \<and> sys_app (demo_system Auto) = demo_app Auto"
    using control_plane.init_inv [OF demo_system_init] by (simp add: demo_system_def)
  from configured.reachable_inv [OF this demo_reaches]
  have after: "system_ok demo_serde demo_crypto demo_after" "same_config (demo_app Auto) (sys_app demo_after)" by simp_all
  then show "system_ok demo_serde demo_crypto demo_after" "app_templates (sys_app demo_after) = [demo_template]"
    "app_ttl (sys_app demo_after) = 300" "cs_key (app_signer (sys_app demo_after)) = True"
    by (simp_all add: same_config_def demo_app_def)
qed

lemma demo_issued:
  obtains e e0 where "e \<in> live_commands demo_after" "env_approval_ref e = PolicyAuto"
    "e = sign_envelope demo_serde demo_crypto True e0"
    "env_preconditions e = []" "env_steps e = [NixRollback]" "env_verify e = None"
proof -
  obtain e where e: "e \<in> live_commands demo_after" "env_approval_ref e = PolicyAuto"
    using demo_auto_enqueued by (auto simp: demo_after_def)
  with demo_after_config(1) have "genuine demo_serde demo_crypto (sys_app demo_after) e" by (simp add: system_ok_def)
  then obtain cid nonce now p ap where
    "build_command demo_serde demo_crypto cid nonce now p demo_template (app_signer (sys_app demo_after)) ap 300 = Inr e"
    by (auto simp: genuine_def demo_after_config(2,3))
  then show thesis
    using that [OF e] by (auto simp: demo_build signer_sign_def demo_after_config(4))
qed

text \<open>A host whose clock stands at the last moment of the command; running the command there.\<close>

abbreviation demo_os :: "envelope \<Rightarrow> unit host_os" where
  "demo_os e \<equiv> (demo_host [])\<lparr>os_wall := \<lambda>_ _. env_expires_at e\<rparr>"

abbreviation demo_argvs :: "string list list" where
  "demo_argvs \<equiv> [[''nix-env'', ''--rollback'', ''-p'', system_profile], [switch_to_configuration, ''switch'']]"

lemma demo_issued_runs:
  obtains e out w' where "e \<in> live_commands demo_after" "env_approval_ref e = PolicyAuto"
    "\<not> envelope_contains_kube_capability e" "first_invalid (envelope_capabilities e) = None"
    "verify_envelope_with demo_serde demo_crypto (keyring_single demo_crypto True) e (env_expires_at e) = Inr ()"
    "handle_command demo_serde demo_crypto (run_systemctl_sync (demo_os e)) (host_runtime (demo_os e))
       (keyring_single demo_crypto True) e demo_world = Some (out, w')"
    "w_log w' = demo_argvs"
proof -
  obtain e e0 where e: "e \<in> live_commands demo_after" "env_approval_ref e = PolicyAuto"
    and form: "e = sign_envelope demo_serde demo_crypto True e0"
    and parts: "env_preconditions e = []" "env_steps e = [NixRollback]" "env_verify e = None"
    by (rule demo_issued)
  have verified: "verify_envelope_with demo_serde demo_crypto (keyring_single demo_crypto True) e (env_expires_at e) = Inr ()"
    unfolding verify_envelope_with_Inr form by (rule demo_command_authentic) simp
  have valid: "first_invalid (envelope_capabilities e) = None" and host: "\<not> envelope_contains_kube_capability e"
    unfolding envelope_contains_kube_capability_def envelope_capabilities_def parts by code_simp+
  have "\<exists>out w'. handle_command demo_serde demo_crypto (run_systemctl_sync (demo_os e)) (host_runtime (demo_os e))
        (keyring_single demo_crypto True) e demo_world = Some (out, w') \<and> w_log w' = demo_argvs"
    using verified valid by (simp add: handle_command_def parts demo_world_def demo_host_def run_ok_def spawn_def)
  then show thesis using that [OF e host valid verified] by blast
qed

lemma demo_server_key: "server_key demo_crypto demo_after = True" "server_key demo_crypto (demo_system Auto) = True"
  by (simp_all add: demo_after_config demo_crypto_def demo_system_def demo_app_def)


section \<open>The deployment\<close>


text \<open>A wire for one envelope: every line carries it, and a result is the letter of its status.\<close>

fun status_letter :: "action_status \<Rightarrow> char" where
  "status_letter Succeeded = CHR ''s''"
| "status_letter PreconditionFailed = CHR ''p''"
| "status_letter Failed = CHR ''f''"
| "status_letter action_status.Rejected = CHR ''r''"
| "status_letter Frozen = CHR ''z''"

definition demo_wire :: "envelope \<Rightarrow> actuator_wire" where
  "demo_wire e = \<lparr>aw_parse = \<lambda>_. Some e, aw_print = \<lambda>r. [status_letter (res_status r)]\<rparr>"

definition demo_results :: "envelope \<Rightarrow> result_codec" where
  "demo_results e =
     \<lparr>rc_print = \<lambda>_. [],
      rc_parse = \<lambda>l. case find (\<lambda>st. l = [status_letter st]) [Succeeded, PreconditionFailed, Failed, action_status.Rejected, Frozen] of
        None \<Rightarrow> Inl ''eof''
      | Some st \<Rightarrow> Inr (agent_result (env_command_id e) st (DText []) 0)\<rparr>"

lemma demo_wire_carries: "wire_carries (demo_results e) (demo_wire e) e"
proof -
  have "trim [status_letter st, CHR 0x0A] = [status_letter st]" for st by (cases st; hypsubst; code_simp)
  moreover have "rc_parse (demo_results e) [status_letter st] = Inr (agent_result (env_command_id e) st (DText []) 0)" for st
    by (cases st) (simp_all add: demo_results_def)
  ultimately have "\<exists>r'. rc_parse (demo_results e) (trim (aw_print (demo_wire e) r @ [CHR 0x0A])) = Inr r'
      \<and> res_command_id r' = env_command_id e \<and> res_status r' = res_status r" for r
    by (simp add: demo_wire_def agent_result_def)
  then show ?thesis by (simp add: wire_carries_def demo_wire_def) (simp add: demo_results_def)
qed

definition demo_deployment :: "(bool, bool, unit, unit) deployment" where
  "demo_deployment =
     \<lparr>dp_server = demo_system Auto, dp_issued = {}, dp_agents = \<lambda>_. demo_agent, dp_hosts = \<lambda>_. demo_world,
      dp_clusters = \<lambda>_. demo_loop_state\<rparr>"

abbreviation demo_rings :: "uuid \<Rightarrow> bool keyring" where
  "demo_rings \<equiv> \<lambda>_. keyring_single demo_crypto True"

lemma demo_deployment_init: "deployment_init demo_serde demo_crypto demo_rings demo_deployment"
  using demo_serde_ok demo_system_init [of Auto] only_key_single [of demo_crypto True]
  by (simp add: deployment_init_def demo_deployment_def demo_server_key agent_init_def demo_agent_def demo_world_def
      demo_loop_state_def demo_kube_world_def)

abbreviation demo_last_delivery :: "envelope \<Rightarrow> delivery" where
  "demo_last_delivery e \<equiv> (demo_delivery AppendAll e)\<lparr>dl_now := env_expires_at e\<rparr>"

lemma demo_last_dispatches:
  assumes "verify_envelope_with demo_serde demo_crypto (keyring_single demo_crypto True) e (env_expires_at e) = Inr ()"
  shows "dispatches demo_serde demo_crypto (ag_ring demo_agent) (ag_ledger demo_agent) (demo_last_delivery e)"
  using assms by (simp add: dispatches_def demo_agent_fields whole_append_def)




end
